theory Spec2Isabelle
  imports Main "HOL-Library.Char_ord" "HOL-Library.List_Lexorder"
begin

section \<open>Data model of the virtual file system\<close>

text \<open>
  The source is an object graph of class instances that are mutated in place and compared
  by identity. The model keeps every instance in a store (a list of objects); a reference is
  the index of the object in the store, and \<open>new\<close> appends to the store. References are only
  ever produced by allocation, so they are always in range.
\<close>

type_synonym ref = nat

text \<open>The concrete class of an instance (what \<open>instanceof\<close> inspects).\<close>

datatype kind =
  KFileSystem | KDirectory | KDirectoryRoot | KDirectorySymlink | KFile | KFileSymlink

definition isDirectoryKind :: "kind \<Rightarrow> bool" where
  "isDirectoryKind k = (k = KDirectory \<or> k = KDirectoryRoot \<or> k = KDirectorySymlink)"

definition isFileKind :: "kind \<Rightarrow> bool" where
  "isFileKind k = (k = KFile \<or> k = KFileSymlink)"

definition isSymlinkKind :: "kind \<Rightarrow> bool" where
  "isSymlinkKind k = (k = KDirectorySymlink \<or> k = KFileSymlink)"

text \<open>
  The three closures a directory symlink registers with the event emitter of its target,
  and the two events a container emits.
\<close>

datatype handler = OnTargetParentChildRemoved | OnTargetChildAdded | OnTargetChildRemoved

datatype event = ChildAdded | ChildRemoved

text \<open>
  \<open>FileSystemResolver\<close>: the two callbacks of the backing store. As in \<open>createResolver\<close>
  they are functions of the path of the directory or file they are called with;
  \<open>r_getEntries\<close> answers the pair (files, directories).
\<close>

record resolver =
  r_getEntries :: "string \<Rightarrow> string list \<times> string list"
  r_getContent :: "string \<Rightarrow> string option"

text \<open>The \<open>content\<close> argument of \<open>addFile\<close>: a string, a content callback, or nothing.\<close>

datatype content_arg =
  ContentText string | ContentResolver "string \<Rightarrow> string option" | ContentAbsent

text \<open>The \<open>target\<close> argument of \<open>addSymlink\<close>: a path or an entry.\<close>

datatype symlink_target = TargetPath string | TargetEntry ref

text \<open>
  One record holds the fields of all classes of the hierarchy; a field that a class does not
  declare keeps its initial value in instances of that class. Private fields \<open>_x\<close> of the
  source are \<open>p_x\<close> here. \<open>p_shadowRoot\<close> is the \<open>_shadowRoot\<close> of both \<open>VirtualDirectory\<close> and
  \<open>VirtualFile\<close>; \<open>p_target\<close> is the resolved \<open>_target\<close> of \<open>VirtualDirectorySymlink\<close> and
  \<open>p_fileTarget\<close> the \<open>_target\<close> path of \<open>VirtualFileSymlink\<close>. The last two fields are the
  listener lists of the inherited \<open>EventEmitter\<close>.
\<close>

record entry =
  kind :: kind
  p_readOnly :: bool
  p_path :: "string option"
  fileSystem :: ref
  parent :: ref
  name :: string
  p_root :: "ref option"
  p_useCaseSensitiveFileNames :: bool
  p_currentDirectory :: string
  p_entries :: "ref list option"
  p_resolver :: "resolver option"
  p_shadowRoot :: "ref option"
  p_targetPath :: string
  p_target :: "ref option"
  p_symLinks :: "ref \<rightharpoonup> ref"
  p_symEntries :: "ref list option"
  p_content :: "string option"
  p_contentResolver :: "(string \<Rightarrow> string option) option"
  p_fileTarget :: string
  childAddedListeners :: "(ref \<times> handler) list"
  childRemovedListeners :: "(ref \<times> handler) list"

type_synonym store = "entry list"

text \<open>
  The imported modules that are not part of the sources at hand: the path utilities
  \<open>./vpath\<close> and the optional \<open>Intl.Collator\<close> used by \<open>compareStrings\<close> (given the
  \<open>ignoreCase\<close> flag it answers the comparison function). They are parameters of the model.
\<close>

record env =
  basename :: "string \<Rightarrow> string"
  dirname :: "string \<Rightarrow> string"
  combine :: "string \<Rightarrow> string \<Rightarrow> string"
  resolve :: "string \<Rightarrow> string \<Rightarrow> string"
  parse :: "string \<Rightarrow> string list"
  collator :: "(bool \<Rightarrow> string \<Rightarrow> string \<Rightarrow> int) option"

text \<open>Options of \<open>getEntries\<close> and \<open>getEntry\<close>; a \<open>RegExp\<close> is its \<open>test\<close> predicate.\<close>

datatype kind_filter = FilterFile | FilterDirectory

record options =
  recursive :: bool
  followSymlinks :: bool
  pattern :: "(string \<Rightarrow> bool) option"
  kindFilter :: "kind_filter option"

definition noOptions :: options where
  "noOptions = \<lparr>recursive = False, followSymlinks = False, pattern = None, kindFilter = None\<rparr>"

section \<open>Results, exceptions and the state monad\<close>

datatype error = CannotModifyFrozenEntry | ArgumentNotOptional

text \<open>
  A call returns a value, throws (the store keeps what was written before the throw), or
  exhausts its recursion budget (the source would recurse forever).
\<close>

datatype 'a outcome = Ok 'a store | Throw error store | OutOfFuel

type_synonym 'a M = "store \<Rightarrow> 'a outcome"

definition ret :: "'a \<Rightarrow> 'a M" where
  "ret x = (\<lambda>s. Ok x s)"

definition throw :: "error \<Rightarrow> 'a M" where
  "throw e = (\<lambda>s. Throw e s)"

definition outOfFuel :: "'a M" where
  "outOfFuel = (\<lambda>s. OutOfFuel)"

definition gets :: "(store \<Rightarrow> 'a) \<Rightarrow> 'a M" where
  "gets f = (\<lambda>s. Ok (f s) s)"

definition modify :: "(store \<Rightarrow> store) \<Rightarrow> unit M" where
  "modify f = (\<lambda>s. Ok () (f s))"

definition bnd :: "'a M \<Rightarrow> ('a \<Rightarrow> 'b M) \<Rightarrow> 'b M" where
  "bnd m f = (\<lambda>s. case m s of Ok x s' \<Rightarrow> f x s' | Throw e s' \<Rightarrow> Throw e s' | OutOfFuel \<Rightarrow> OutOfFuel)"

text \<open>Field assignment \<open>this.f = v\<close> on the object a reference points to.\<close>

definition upd :: "ref \<Rightarrow> (entry \<Rightarrow> entry) \<Rightarrow> unit M" where
  "upd r f = modify (\<lambda>s. s[r := f (s ! r)])"

text \<open>Loops over an array: \<open>for (const x of xs) body(x)\<close> and \<open>xs.map(f)\<close>.\<close>

primrec forEach :: "'a list \<Rightarrow> ('a \<Rightarrow> unit M) \<Rightarrow> unit M" where
  "forEach [] f = ret ()"
| "forEach (x # xs) f = bnd (f x) (\<lambda>_. forEach xs f)"

primrec mapM :: "'a list \<Rightarrow> ('a \<Rightarrow> 'b M) \<Rightarrow> 'b list M" where
  "mapM [] f = ret []"
| "mapM (x # xs) f = bnd (f x) (\<lambda>y. bnd (mapM xs f) (\<lambda>ys. ret (y # ys)))"

text \<open>
  The loop of \<open>ensureDirectory\<close>: thread a value through the list and stop at the first
  \<open>undefined\<close>.
\<close>

primrec foldUntilUndefined :: "'b list \<Rightarrow> 'a \<Rightarrow> ('a \<Rightarrow> 'b \<Rightarrow> 'a option M) \<Rightarrow> 'a option M" where
  "foldUntilUndefined [] a f = ret (Some a)"
| "foldUntilUndefined (x # xs) a f =
     bnd (f a x) (\<lambda>r. case r of None \<Rightarrow> ret None | Some a' \<Rightarrow> foldUntilUndefined xs a' f)"

section \<open>utils.ts: compareStrings\<close>

definition toUpperCase :: "string \<Rightarrow> string" where
  "toUpperCase = map (\<lambda>c. if CHR ''a'' \<le> c \<and> c \<le> CHR ''z''
                           then char_of (of_char c - (32 :: nat)) else c)"

definition compareStrings :: "env \<Rightarrow> string \<Rightarrow> string \<Rightarrow> bool \<Rightarrow> int" where
  "compareStrings E a b ignoreCase =
     (if a = b then 0
      else case collator E of
        Some c \<Rightarrow> c ignoreCase a b
      | None \<Rightarrow>
          (let a' = (if ignoreCase then toUpperCase a else a);
               b' = (if ignoreCase then toUpperCase b else b)
           in if a' < b' then - 1 else if a' > b' then 1 else 0))"

section \<open>vfs.ts: VirtualFileSystemEntry\<close>

definition blankEntry :: "kind \<Rightarrow> ref \<Rightarrow> ref \<Rightarrow> string \<Rightarrow> entry" where
  "blankEntry k fs par nm =
     \<lparr>kind = k, p_readOnly = False, p_path = None, fileSystem = fs, parent = par, name = nm,
      p_root = None, p_useCaseSensitiveFileNames = False, p_currentDirectory = [],
      p_entries = None, p_resolver = None, p_shadowRoot = None,
      p_targetPath = [], p_target = None, p_symLinks = Map.empty, p_symEntries = None,
      p_content = None, p_contentResolver = None, p_fileTarget = [],
      childAddedListeners = [], childRemovedListeners = []\<rparr>"

text \<open>
  The constructor of \<open>VirtualFileSystemEntry\<close>, followed by the field initialisers \<open>init\<close>
  of the subclass constructor. A child of the root directory gets the file system itself
  as its \<open>parent\<close>.
\<close>

definition newEntry :: "kind \<Rightarrow> ref option \<Rightarrow> string \<Rightarrow> (entry \<Rightarrow> entry) \<Rightarrow> ref M" where
  "newEntry k par nm init = (\<lambda>s.
     let this = length s in
     if k = KFileSystem then Ok this (s @ [init (blankEntry k this this nm)])
     else case par of
       Some p \<Rightarrow>
         if kind (s ! p) = KDirectoryRoot
         then Ok this (s @ [init (blankEntry k (fileSystem (s ! p)) (fileSystem (s ! p)) nm)])
         else Ok this (s @ [init (blankEntry k (fileSystem (s ! p)) p nm)])
     | None \<Rightarrow> Throw ArgumentNotOptional s)"

definition newVirtualFileSystem :: "string \<Rightarrow> bool \<Rightarrow> ref M" where
  "newVirtualFileSystem currentDirectory useCaseSensitiveFileNames =
     newEntry KFileSystem None []
       (\<lambda>e. e\<lparr>p_currentDirectory := map (\<lambda>c. if c = CHR 0x5C then CHR ''/'' else c) currentDirectory,
              p_useCaseSensitiveFileNames := useCaseSensitiveFileNames\<rparr>)"

definition newVirtualDirectory :: "ref \<Rightarrow> string \<Rightarrow> resolver option \<Rightarrow> ref M" where
  "newVirtualDirectory par nm rslv =
     newEntry KDirectory (Some par) nm (\<lambda>e. e\<lparr>p_resolver := rslv\<rparr>)"

definition newVirtualDirectoryRoot :: "ref \<Rightarrow> ref M" where
  "newVirtualDirectoryRoot par = newEntry KDirectoryRoot (Some par) [] (\<lambda>e. e)"

definition newVirtualDirectorySymlink :: "ref \<Rightarrow> string \<Rightarrow> string \<Rightarrow> ref M" where
  "newVirtualDirectorySymlink par nm tgt =
     newEntry KDirectorySymlink (Some par) nm (\<lambda>e. e\<lparr>p_targetPath := tgt\<rparr>)"

definition newVirtualFile :: "ref \<Rightarrow> string \<Rightarrow> content_arg \<Rightarrow> ref M" where
  "newVirtualFile par nm content =
     newEntry KFile (Some par) nm
       (\<lambda>e. e\<lparr>p_content := (case content of ContentText c \<Rightarrow> Some c | _ \<Rightarrow> None),
              p_contentResolver := (case content of ContentResolver r \<Rightarrow> Some r | _ \<Rightarrow> None)\<rparr>)"

definition newVirtualFileSymlink :: "ref \<Rightarrow> string \<Rightarrow> string \<Rightarrow> ref M" where
  "newVirtualFileSymlink par nm tgt =
     newEntry KFileSymlink (Some par) nm (\<lambda>e. e\<lparr>p_fileTarget := tgt\<rparr>)"

definition isReadOnly :: "ref \<Rightarrow> bool M" where
  "isReadOnly this = gets (\<lambda>s. p_readOnly (s ! this))"

definition writePreamble :: "ref \<Rightarrow> unit M" where
  "writePreamble this =
     bnd (isReadOnly this) (\<lambda>ro. if ro then throw CannotModifyFrozenEntry else ret ())"

text \<open>
  The \<open>path\<close> getter: \<open>this._path || (this._path = vpath.combine(this.parent.path, this.name))\<close>,
  overridden to \<open>""\<close> by the file system. An empty cached path is falsy and computed again.
\<close>

fun path :: "nat \<Rightarrow> env \<Rightarrow> ref \<Rightarrow> string M" where
  "path 0 E this = outOfFuel"
| "path (Suc n) E this =
     bnd (gets (\<lambda>s. s ! this)) (\<lambda>e.
       if kind e = KFileSystem then ret []
       else case p_path e of
         Some (c # cs) \<Rightarrow> ret (c # cs)
       | _ \<Rightarrow>
           bnd (path n E (parent e)) (\<lambda>pp.
           bnd (upd this (\<lambda>e. e\<lparr>p_path := Some (combine E pp (name e))\<rparr>)) (\<lambda>_.
           ret (combine E pp (name e)))))"

text \<open>The \<open>target\<close> getter of the two symlink classes.\<close>

definition target :: "ref \<Rightarrow> string M" where
  "target this =
     gets (\<lambda>s. if kind (s ! this) = KFileSymlink then p_fileTarget (s ! this)
               else p_targetPath (s ! this))"

text \<open>
  \<open>makeReadOnly\<close> with the \<open>makeReadOnlyCore\<close> of each class, and the private \<open>root\<close> getter
  of the file system, which creates the root directory on first use.
\<close>

fun makeReadOnly :: "nat \<Rightarrow> ref \<Rightarrow> unit M"
  and makeReadOnlyCore :: "nat \<Rightarrow> ref \<Rightarrow> unit M"
  and root :: "nat \<Rightarrow> ref \<Rightarrow> ref M" where
  "makeReadOnly 0 this = outOfFuel"
| "makeReadOnly (Suc n) this =
     bnd (makeReadOnlyCore n this) (\<lambda>_. upd this (\<lambda>e. e\<lparr>p_readOnly := True\<rparr>))"
| "makeReadOnlyCore 0 this = outOfFuel"
| "makeReadOnlyCore (Suc n) this =
     bnd (gets (\<lambda>s. kind (s ! this))) (\<lambda>k.
       if k = KFileSystem then bnd (root n this) (\<lambda>r. makeReadOnly n r)
       else if isDirectoryKind k then
         bnd (gets (\<lambda>s. p_entries (s ! this))) (\<lambda>es.
           case es of None \<Rightarrow> ret () | Some es \<Rightarrow> forEach es (\<lambda>e. makeReadOnly n e))
       else ret ())"
| "root 0 this = outOfFuel"
| "root (Suc n) this =
     bnd (gets (\<lambda>s. p_root (s ! this))) (\<lambda>r.
       case r of
         Some r \<Rightarrow> ret r
       | None \<Rightarrow>
           bnd (newVirtualDirectoryRoot this) (\<lambda>r.
           bnd (upd this (\<lambda>e. e\<lparr>p_root := Some r\<rparr>)) (\<lambda>_.
           bnd (isReadOnly this) (\<lambda>ro.
           bnd (if ro then makeReadOnly n r else ret ()) (\<lambda>_.
           ret r)))))"

text \<open>
  \<open>clone(parent)\<close> of the four entry classes. A directory or file clone remembers the
  original as its shadow root; a symlink clone is a new symlink with the same target path.
\<close>

definition clone :: "ref \<Rightarrow> ref \<Rightarrow> ref M" where
  "clone this par =
     bnd (gets (\<lambda>s. s ! this)) (\<lambda>e.
       if kind e = KDirectorySymlink then
         bnd (target this) (\<lambda>t. newVirtualDirectorySymlink par (name e) t)
       else if kind e = KFileSymlink then
         bnd (target this) (\<lambda>t. newVirtualFileSymlink par (name e) t)
       else if kind e = KFile then
         bnd (newVirtualFile par (name e) ContentAbsent) (\<lambda>c.
         bnd (upd c (\<lambda>e. e\<lparr>p_shadowRoot := Some this\<rparr>)) (\<lambda>_. ret c))
       else
         bnd (newVirtualDirectory par (name e) None) (\<lambda>c.
         bnd (upd c (\<lambda>e. e\<lparr>p_shadowRoot := Some this\<rparr>)) (\<lambda>_. ret c)))"

section \<open>vfs.ts: event emitter\<close>

text \<open>
  \<open>on\<close>, \<open>removeListener\<close> and the listener list of an event, as the \<open>EventEmitter\<close> of
  the runtime keeps them: \<open>on\<close> appends, \<open>removeListener\<close> removes the most recently added
  occurrence.
\<close>

definition listeners :: "event \<Rightarrow> entry \<Rightarrow> (ref \<times> handler) list" where
  "listeners ev e = (case ev of ChildAdded \<Rightarrow> childAddedListeners e
                              | ChildRemoved \<Rightarrow> childRemovedListeners e)"

definition setListeners :: "event \<Rightarrow> (ref \<times> handler) list \<Rightarrow> entry \<Rightarrow> entry" where
  "setListeners ev ls e = (case ev of ChildAdded \<Rightarrow> e\<lparr>childAddedListeners := ls\<rparr>
                                    | ChildRemoved \<Rightarrow> e\<lparr>childRemovedListeners := ls\<rparr>)"

definition on :: "ref \<Rightarrow> event \<Rightarrow> ref \<times> handler \<Rightarrow> unit M" where
  "on this ev l = upd this (\<lambda>e. setListeners ev (listeners ev e @ [l]) e)"

definition removeLast :: "'a \<Rightarrow> 'a list \<Rightarrow> 'a list" where
  "removeLast x xs = rev (remove1 x (rev xs))"

definition removeListener :: "ref \<Rightarrow> event \<Rightarrow> ref \<times> handler \<Rightarrow> unit M" where
  "removeListener this ev l = upd this (\<lambda>e. setListeners ev (removeLast l (listeners ev e)) e)"

section \<open>vfs.ts: lookup and lazy population\<close>

definition isMatch :: "store \<Rightarrow> ref \<Rightarrow> options \<Rightarrow> bool" where
  "isMatch s entry opts =
     ((case pattern opts of None \<Rightarrow> True | Some test \<Rightarrow> test (name (s ! entry)))
      \<and> kindFilter opts \<noteq> Some (if isFileKind (kind (s ! entry)) then FilterDirectory else FilterFile))"

definition sameName :: "env \<Rightarrow> store \<Rightarrow> ref \<Rightarrow> string \<Rightarrow> string \<Rightarrow> bool" where
  "sameName E s vfs a b =
     (compareStrings E a b (\<not> p_useCaseSensitiveFileNames (s ! vfs)) = 0)"

definition currentDirectory :: "ref \<Rightarrow> string M" where
  "currentDirectory this = gets (\<lambda>s. p_currentDirectory (s ! this))"

text \<open>\<open>xs.push(x)\<close> on the array that \<open>getOwnEntries\<close> of the object returns.\<close>

definition pushOwnEntry :: "ref \<Rightarrow> ref \<Rightarrow> unit M" where
  "pushOwnEntry this x =
     upd this (\<lambda>e. if kind e = KDirectorySymlink
                    then e\<lparr>p_symEntries := map_option (\<lambda>es. es @ [x]) (p_symEntries e)\<rparr>
                    else e\<lparr>p_entries := map_option (\<lambda>es. es @ [x]) (p_entries e)\<rparr>)"

text \<open>\<open>Map.set\<close> and \<open>Map.delete\<close> of the \<open>_symLinks\<close> map of a directory symlink.\<close>

definition mapSet :: "(ref \<rightharpoonup> ref) \<Rightarrow> ref \<Rightarrow> ref \<Rightarrow> (ref \<rightharpoonup> ref)" where
  "mapSet m k v = m(k \<mapsto> v)"

definition mapDelete :: "(ref \<rightharpoonup> ref) \<Rightarrow> ref \<Rightarrow> (ref \<rightharpoonup> ref)" where
  "mapDelete m k = m(k := None)"

text \<open>\<open>VirtualDirectorySymlink.getWrappedEntry\<close>: the memoised symlink for a child of the target.\<close>

definition getWrappedEntry :: "nat \<Rightarrow> env \<Rightarrow> ref \<Rightarrow> ref \<Rightarrow> ref M" where
  "getWrappedEntry n E this entry =
     bnd (gets (\<lambda>s. (s ! entry, case p_symLinks (s ! this) entry of
                                  None \<Rightarrow> None | Some l \<Rightarrow> Some (l, kind (s ! l))))) (\<lambda>(e, symlink).
       if isFileKind (kind e) then
         (case symlink of
            Some (l, KFileSymlink) \<Rightarrow> ret l
          | _ \<Rightarrow>
              bnd (path n E entry) (\<lambda>p.
              bnd (newVirtualFileSymlink this (name e) p) (\<lambda>l.
              bnd (upd this (\<lambda>x. x\<lparr>p_symLinks := mapSet (p_symLinks x) entry l\<rparr>)) (\<lambda>_.
              ret l))))
       else
         (case symlink of
            Some (l, KDirectorySymlink) \<Rightarrow> ret l
          | _ \<Rightarrow>
              bnd (path n E entry) (\<lambda>p.
              bnd (newVirtualDirectorySymlink this (name e) p) (\<lambda>l.
              bnd (upd this (\<lambda>x. x\<lparr>p_symLinks := mapSet (p_symLinks x) entry l\<rparr>)) (\<lambda>_.
              ret l)))))"

text \<open>
  The read operations call each other in one recursive knot (through symlink
  resolution and lazy population). Every call spends one unit of a budget, which makes
  them total: each operation is written as one step \<open>f_step\<close> over the operations at
  the next smaller budget, collected in the record \<open>L\<close>, and \<open>lookupAt\<close> ties the knot by
  recursion on the budget. A method that is overridden in a subclass dispatches on the
  class of \<open>this\<close>.
\<close>

record lookup =
  call_getOwnEntries :: "ref \<Rightarrow> ref list M"
  call_getEntries :: "ref \<Rightarrow> options \<Rightarrow> ref list M"
  call_getEntry :: "ref \<Rightarrow> string \<Rightarrow> options \<Rightarrow> ref option M"
  call_getDirectory :: "ref \<Rightarrow> string \<Rightarrow> options \<Rightarrow> ref option M"
  call_getFile :: "ref \<Rightarrow> string \<Rightarrow> options \<Rightarrow> ref option M"
  call_getRealEntry :: "ref \<Rightarrow> ref \<Rightarrow> ref option M"
  call_findTarget :: "ref \<Rightarrow> string \<Rightarrow> ref list \<Rightarrow> ref option M"
  call_resolveTarget :: "ref \<Rightarrow> unit M"
  call_getRealDirectory :: "ref \<Rightarrow> ref option M"

text \<open>
  \<open>getOwnEntries\<close> of \<open>VirtualFileSystem\<close>, \<open>VirtualDirectorySymlink\<close> and
  \<open>VirtualDirectory\<close> (lazy population from the resolver or from the shadow root).
\<close>

definition getOwnEntries_step :: "nat \<Rightarrow> env \<Rightarrow> lookup \<Rightarrow> ref \<Rightarrow> ref list M" where
  "getOwnEntries_step n E L this =
     bnd (gets (\<lambda>s. s ! this)) (\<lambda>e.
       if kind e = KFileSystem then
         bnd (root n this) (\<lambda>r. call_getEntries L r noOptions)
       else if kind e = KDirectorySymlink then
         (case p_symEntries e of
            Some es \<Rightarrow> ret es
          | None \<Rightarrow>
              bnd (call_getRealDirectory L this) (\<lambda>t.
              bnd (case t of
                     None \<Rightarrow> ret []
                   | Some t \<Rightarrow>
                       bnd (call_getEntries L t noOptions) (\<lambda>es.
                       mapM es (\<lambda>entry. getWrappedEntry n E this entry))) (\<lambda>es.
              bnd (upd this (\<lambda>x. x\<lparr>p_symEntries := Some es\<rparr>)) (\<lambda>_.
              ret es))))
       else
         (case p_entries e of
            Some es \<Rightarrow> ret es
          | None \<Rightarrow>
              bnd (upd this (\<lambda>x. x\<lparr>p_entries := Some [], p_resolver := None,
                                    p_shadowRoot := None\<rparr>)) (\<lambda>_.
              bnd (case p_resolver e of
                     Some r \<Rightarrow>
                       bnd (path n E this) (\<lambda>p.
                       case r_getEntries r p of (files, directories) \<Rightarrow>
                         bnd (forEach directories (\<lambda>dir.
                                bnd (newVirtualDirectory this dir (Some r)) (\<lambda>vdir.
                                bnd (isReadOnly this) (\<lambda>ro.
                                bnd (if ro then makeReadOnly n vdir else ret ()) (\<lambda>_.
                                pushOwnEntry this vdir))))) (\<lambda>_.
                         forEach files (\<lambda>file.
                           bnd (newVirtualFile this file (ContentResolver (r_getContent r))) (\<lambda>vfile.
                           bnd (isReadOnly this) (\<lambda>ro.
                           bnd (if ro then makeReadOnly n vfile else ret ()) (\<lambda>_.
                           pushOwnEntry this vfile))))))
                   | None \<Rightarrow>
                       (case p_shadowRoot e of
                          Some shadowRoot \<Rightarrow>
                            bnd (call_getOwnEntries L shadowRoot) (\<lambda>es.
                            forEach es (\<lambda>entry.
                              bnd (clone entry this) (\<lambda>c.
                              bnd (isReadOnly this) (\<lambda>ro.
                              bnd (if ro then makeReadOnly n c else ret ()) (\<lambda>_.
                              pushOwnEntry this c)))))
                        | None \<Rightarrow> ret ())) (\<lambda>_.
              gets (\<lambda>s. case p_entries (s ! this) of Some es \<Rightarrow> es | None \<Rightarrow> [])))))"

definition getEntries_step :: "lookup \<Rightarrow> ref \<Rightarrow> options \<Rightarrow> ref list M" where
  "getEntries_step L this opts =
     (if recursive opts then
        bnd (call_getOwnEntries L this) (\<lambda>es.
        bnd (mapM es (\<lambda>entry.
               bnd (gets (\<lambda>s. (kind (s ! entry), isMatch s entry opts))) (\<lambda>(k, m).
                 if isFileKind k then ret (if m then [entry] else [])
                 else if isDirectoryKind k then
                   bnd (call_getEntries L entry opts) (\<lambda>children.
                   ret ((if m then [entry] else []) @ children))
                 else ret []))) (\<lambda>results.
        ret (concat results)))
      else
        bnd (call_getOwnEntries L this) (\<lambda>es.
        gets (\<lambda>s. filter (\<lambda>entry. isMatch s entry opts) es)))"

text \<open>\<open>getEntry\<close> of \<open>VirtualFileSystem\<close> and of \<open>VirtualFileSystemContainer\<close>.\<close>

definition getEntry_step :: "nat \<Rightarrow> env \<Rightarrow> lookup \<Rightarrow> ref \<Rightarrow> string \<Rightarrow> options \<Rightarrow> ref option M" where
  "getEntry_step n E L this pth opts =
     bnd (gets (\<lambda>s. s ! this)) (\<lambda>e.
       if kind e = KFileSystem then
         bnd (root n this) (\<lambda>r.
         bnd (currentDirectory this) (\<lambda>cwd.
         call_getEntry L r (resolve E cwd pth) opts))
       else if basename E pth = [] then ret None
       else if dirname E pth \<noteq> [] then
         bnd (call_getDirectory L this (dirname E pth) noOptions) (\<lambda>directory.
         case directory of
           None \<Rightarrow> ret None
         | Some d \<Rightarrow> call_getEntry L d (basename E pth) opts)
       else
         bnd (call_getEntries L this noOptions) (\<lambda>es.
         bnd (gets (\<lambda>s. find (\<lambda>entry. sameName E s (fileSystem e) (name (s ! entry))
                                        (basename E pth)) es)) (\<lambda>found.
         case found of
           None \<Rightarrow> ret None
         | Some entry \<Rightarrow>
             bnd (gets (\<lambda>s. isMatch s entry opts)) (\<lambda>m.
               if \<not> m then ret None
               else if followSymlinks opts then call_getRealEntry L (fileSystem e) entry
               else ret (Some entry)))))"

definition getDirectory_step :: "nat \<Rightarrow> env \<Rightarrow> lookup \<Rightarrow> ref \<Rightarrow> string \<Rightarrow> options \<Rightarrow> ref option M" where
  "getDirectory_step n E L this pth opts =
     bnd (gets (\<lambda>s. kind (s ! this))) (\<lambda>k.
       if k = KFileSystem then
         bnd (root n this) (\<lambda>r.
         bnd (currentDirectory this) (\<lambda>cwd.
         call_getDirectory L r (resolve E cwd pth) opts))
       else call_getEntry L this pth (opts\<lparr>kindFilter := Some FilterDirectory\<rparr>))"

definition getFile_step :: "nat \<Rightarrow> env \<Rightarrow> lookup \<Rightarrow> ref \<Rightarrow> string \<Rightarrow> options \<Rightarrow> ref option M" where
  "getFile_step n E L this pth opts =
     bnd (gets (\<lambda>s. kind (s ! this))) (\<lambda>k.
       if k = KFileSystem then
         bnd (root n this) (\<lambda>r.
         bnd (currentDirectory this) (\<lambda>cwd.
         call_getFile L r (resolve E cwd pth) opts))
       else call_getEntry L this pth (opts\<lparr>kindFilter := Some FilterFile\<rparr>))"

definition getRealEntry_step :: "lookup \<Rightarrow> ref \<Rightarrow> ref \<Rightarrow> ref option M" where
  "getRealEntry_step L vfs entry =
     bnd (gets (\<lambda>s. kind (s ! entry))) (\<lambda>k.
       if isSymlinkKind k then bnd (target entry) (\<lambda>t. call_findTarget L vfs t [])
       else ret (Some entry))"

text \<open>\<open>findTarget\<close>; the optional \<open>Set\<close> of visited symlinks is a list of references.\<close>

definition findTarget_step :: "lookup \<Rightarrow> ref \<Rightarrow> string \<Rightarrow> ref list \<Rightarrow> ref option M" where
  "findTarget_step L vfs tgt visited =
     bnd (call_getEntry L vfs tgt noOptions) (\<lambda>entry.
       case entry of
         None \<Rightarrow> ret None
       | Some e \<Rightarrow>
           bnd (gets (\<lambda>s. kind (s ! e))) (\<lambda>k.
             if isSymlinkKind k then
               (if e \<in> set visited then ret None
                else bnd (target e) (\<lambda>t. call_findTarget L vfs t (e # visited)))
             else ret (Some e)))"

definition resolveTarget_step :: "lookup \<Rightarrow> ref \<Rightarrow> unit M" where
  "resolveTarget_step L this =
     bnd (gets (\<lambda>s. s ! this)) (\<lambda>e.
       case p_target e of
         Some _ \<Rightarrow> ret ()
       | None \<Rightarrow>
           bnd (target this) (\<lambda>tgt.
           bnd (call_findTarget L (fileSystem e) tgt []) (\<lambda>entry.
           case entry of
             None \<Rightarrow> ret ()
           | Some t \<Rightarrow>
               bnd (gets (\<lambda>s. s ! t)) (\<lambda>te.
                 if isDirectoryKind (kind te) then
                   bnd (upd this (\<lambda>x. x\<lparr>p_target := Some t\<rparr>)) (\<lambda>_.
                   bnd (on (parent te) ChildRemoved (this, OnTargetParentChildRemoved)) (\<lambda>_.
                   bnd (on t ChildAdded (this, OnTargetChildAdded)) (\<lambda>_.
                   on t ChildRemoved (this, OnTargetChildRemoved))))
                 else ret ()))))"

definition getRealDirectory_step :: "lookup \<Rightarrow> ref \<Rightarrow> ref option M" where
  "getRealDirectory_step L this =
     bnd (call_resolveTarget L this) (\<lambda>_. gets (\<lambda>s. p_target (s ! this)))"

primrec lookupAt :: "nat \<Rightarrow> env \<Rightarrow> lookup" where
  "lookupAt 0 E =
     \<lparr>call_getOwnEntries = (\<lambda>this. outOfFuel),
      call_getEntries = (\<lambda>this opts. outOfFuel),
      call_getEntry = (\<lambda>this pth opts. outOfFuel),
      call_getDirectory = (\<lambda>this pth opts. outOfFuel),
      call_getFile = (\<lambda>this pth opts. outOfFuel),
      call_getRealEntry = (\<lambda>vfs entry. outOfFuel),
      call_findTarget = (\<lambda>vfs tgt visited. outOfFuel),
      call_resolveTarget = (\<lambda>this. outOfFuel),
      call_getRealDirectory = (\<lambda>this. outOfFuel)\<rparr>"
| "lookupAt (Suc n) E =
     (let L = lookupAt n E in
     \<lparr>call_getOwnEntries = getOwnEntries_step n E L,
      call_getEntries = getEntries_step L,
      call_getEntry = getEntry_step n E L,
      call_getDirectory = getDirectory_step n E L,
      call_getFile = getFile_step n E L,
      call_getRealEntry = getRealEntry_step L,
      call_findTarget = findTarget_step L,
      call_resolveTarget = resolveTarget_step L,
      call_getRealDirectory = getRealDirectory_step L\<rparr>)"

definition getOwnEntries :: "nat \<Rightarrow> env \<Rightarrow> ref \<Rightarrow> ref list M" where
  "getOwnEntries n E = call_getOwnEntries (lookupAt n E)"

definition getEntries :: "nat \<Rightarrow> env \<Rightarrow> ref \<Rightarrow> options \<Rightarrow> ref list M" where
  "getEntries n E = call_getEntries (lookupAt n E)"

definition getEntry :: "nat \<Rightarrow> env \<Rightarrow> ref \<Rightarrow> string \<Rightarrow> options \<Rightarrow> ref option M" where
  "getEntry n E = call_getEntry (lookupAt n E)"

definition getDirectory :: "nat \<Rightarrow> env \<Rightarrow> ref \<Rightarrow> string \<Rightarrow> options \<Rightarrow> ref option M" where
  "getDirectory n E = call_getDirectory (lookupAt n E)"

definition getFile :: "nat \<Rightarrow> env \<Rightarrow> ref \<Rightarrow> string \<Rightarrow> options \<Rightarrow> ref option M" where
  "getFile n E = call_getFile (lookupAt n E)"

definition getRealEntry :: "nat \<Rightarrow> env \<Rightarrow> ref \<Rightarrow> ref \<Rightarrow> ref option M" where
  "getRealEntry n E = call_getRealEntry (lookupAt n E)"

definition findTarget :: "nat \<Rightarrow> env \<Rightarrow> ref \<Rightarrow> string \<Rightarrow> ref list \<Rightarrow> ref option M" where
  "findTarget n E = call_findTarget (lookupAt n E)"

definition resolveTarget :: "nat \<Rightarrow> env \<Rightarrow> ref \<Rightarrow> unit M" where
  "resolveTarget n E = call_resolveTarget (lookupAt n E)"

definition getRealDirectory :: "nat \<Rightarrow> env \<Rightarrow> ref \<Rightarrow> ref option M" where
  "getRealDirectory n E = call_getRealDirectory (lookupAt n E)"

section \<open>vfs.ts: files\<close>

text \<open>\<open>VirtualFileSymlink.getRealFile\<close>.\<close>

definition getRealFile :: "nat \<Rightarrow> env \<Rightarrow> ref \<Rightarrow> ref option M" where
  "getRealFile n E this =
     bnd (gets (\<lambda>s. fileSystem (s ! this))) (\<lambda>vfs.
     bnd (target this) (\<lambda>tgt.
     bnd (findTarget n E vfs tgt []) (\<lambda>entry.
     case entry of
       None \<Rightarrow> ret None
     | Some t \<Rightarrow> gets (\<lambda>s. if isFileKind (kind (s ! t)) then Some t else None))))"

text \<open>\<open>getContent\<close> of \<open>VirtualFileSymlink\<close> and of \<open>VirtualFile\<close>.\<close>

fun getContent :: "nat \<Rightarrow> env \<Rightarrow> ref \<Rightarrow> string option M" where
  "getContent 0 E this = outOfFuel"
| "getContent (Suc n) E this =
     bnd (gets (\<lambda>s. s ! this)) (\<lambda>e.
       if kind e = KFileSymlink then
         bnd (getRealFile n E this) (\<lambda>t.
         case t of None \<Rightarrow> ret None | Some t \<Rightarrow> getContent n E t)
       else
         (case p_content e of
            Some c \<Rightarrow> ret (Some c)
          | None \<Rightarrow>
              bnd (upd this (\<lambda>x. x\<lparr>p_contentResolver := None, p_shadowRoot := None\<rparr>)) (\<lambda>_.
              bnd (case p_contentResolver e of
                     Some r \<Rightarrow>
                       bnd (path n E this) (\<lambda>p. upd this (\<lambda>x. x\<lparr>p_content := r p\<rparr>))
                   | None \<Rightarrow>
                       (case p_shadowRoot e of
                          Some shadowRoot \<Rightarrow>
                            bnd (getContent n E shadowRoot) (\<lambda>c.
                            upd this (\<lambda>x. x\<lparr>p_content := c\<rparr>))
                        | None \<Rightarrow> ret ())) (\<lambda>_.
              gets (\<lambda>s. p_content (s ! this))))))"

text \<open>\<open>setContent\<close> of \<open>VirtualFileSymlink\<close> and of \<open>VirtualFile\<close>.\<close>

fun setContent :: "nat \<Rightarrow> env \<Rightarrow> ref \<Rightarrow> string option \<Rightarrow> unit M" where
  "setContent 0 E this v = outOfFuel"
| "setContent (Suc n) E this v =
     bnd (gets (\<lambda>s. kind (s ! this))) (\<lambda>k.
       if k = KFileSymlink then
         bnd (getRealFile n E this) (\<lambda>t.
         case t of None \<Rightarrow> ret () | Some t \<Rightarrow> setContent n E t v)
       else
         bnd (writePreamble this) (\<lambda>_.
         upd this (\<lambda>x. x\<lparr>p_contentResolver := None, p_content := v\<rparr>)))"

section \<open>vfs.ts: symlink targets\<close>

text \<open>\<open>VirtualDirectorySymlink.invalidateTarget\<close>.\<close>

definition invalidateTarget :: "ref \<Rightarrow> unit M" where
  "invalidateTarget this =
     bnd (gets (\<lambda>s. p_target (s ! this))) (\<lambda>t.
       case t of
         None \<Rightarrow> ret ()
       | Some t \<Rightarrow>
           bnd (gets (\<lambda>s. parent (s ! t))) (\<lambda>p.
           bnd (removeListener p ChildRemoved (this, OnTargetParentChildRemoved)) (\<lambda>_.
           bnd (removeListener t ChildAdded (this, OnTargetChildAdded)) (\<lambda>_.
           bnd (removeListener t ChildRemoved (this, OnTargetChildRemoved)) (\<lambda>_.
           upd this (\<lambda>x. x\<lparr>p_target := None, p_symLinks := Map.empty,
                             p_symEntries := None\<rparr>))))))"

text \<open>The \<open>target\<close> setter of \<open>VirtualFileSymlink\<close> and of \<open>VirtualDirectorySymlink\<close>.\<close>

definition setTarget :: "ref \<Rightarrow> string \<Rightarrow> unit M" where
  "setTarget this v =
     bnd (gets (\<lambda>s. s ! this)) (\<lambda>e.
       if kind e = KFileSymlink then
         bnd (writePreamble this) (\<lambda>_. upd this (\<lambda>x. x\<lparr>p_fileTarget := v\<rparr>))
       else
         bnd (writePreamble this) (\<lambda>_.
           if p_targetPath e \<noteq> v then
             bnd (upd this (\<lambda>x. x\<lparr>p_targetPath := v\<rparr>)) (\<lambda>_. invalidateTarget this)
           else ret ()))"

text \<open>\<open>isBroken\<close> of \<open>VirtualFileSymlink\<close> and of \<open>VirtualDirectorySymlink\<close>.\<close>

definition isBroken :: "nat \<Rightarrow> env \<Rightarrow> ref \<Rightarrow> bool M" where
  "isBroken n E this =
     bnd (gets (\<lambda>s. kind (s ! this))) (\<lambda>k.
       if k = KFileSymlink then bnd (getRealFile n E this) (\<lambda>t. ret (t = None))
       else bnd (getRealDirectory n E this) (\<lambda>t. ret (t = None)))"

section \<open>vfs.ts: mutation of directories\<close>

primrec indexOf :: "'a \<Rightarrow> 'a list \<Rightarrow> nat option" where
  "indexOf x [] = None"
| "indexOf x (y # ys) = (if x = y then Some 0 else map_option Suc (indexOf x ys))"

text \<open>The first index and element that satisfy a test (the scan of the remove operations).\<close>

primrec findFirst :: "('a \<Rightarrow> bool) \<Rightarrow> 'a list \<Rightarrow> (nat \<times> 'a) option" where
  "findFirst P [] = None"
| "findFirst P (y # ys) =
     (if P y then Some (0, y) else map_option (\<lambda>(i, x). (Suc i, x)) (findFirst P ys))"

text \<open>\<open>xs.splice(i, 1)\<close>, on a list and on the array \<open>getOwnEntries\<close> of the object returns.\<close>

definition splice1 :: "nat \<Rightarrow> 'a list \<Rightarrow> 'a list" where
  "splice1 i xs = take i xs @ drop (Suc i) xs"

definition spliceOwnEntry :: "ref \<Rightarrow> nat \<Rightarrow> unit M" where
  "spliceOwnEntry this i =
     upd this (\<lambda>e. if kind e = KDirectorySymlink
                    then e\<lparr>p_symEntries := map_option (splice1 i) (p_symEntries e)\<rparr>
                    else e\<lparr>p_entries := map_option (splice1 i) (p_entries e)\<rparr>)"

text \<open>
  The operations that add and remove entries call each other and the event handlers of
  the directory symlinks that mirror a directory; as for the read operations, each is one
  step over the operations at the next smaller budget.
\<close>

record mutation =
  call_emit :: "ref \<Rightarrow> event \<Rightarrow> ref \<Rightarrow> unit M"
  call_ensureDirectory :: "ref \<Rightarrow> string \<Rightarrow> ref option M"
  call_addDirectory :: "ref \<Rightarrow> string \<Rightarrow> resolver option \<Rightarrow> ref option M"
  call_addFile :: "ref \<Rightarrow> string \<Rightarrow> content_arg \<Rightarrow> ref option M"
  call_addSymlink :: "ref \<Rightarrow> string \<Rightarrow> symlink_target \<Rightarrow> ref option M"
  call_removeDirectory :: "ref \<Rightarrow> string \<Rightarrow> bool M"
  call_removeFile :: "ref \<Rightarrow> string \<Rightarrow> bool M"

text \<open>
  The three event handlers of \<open>VirtualDirectorySymlink\<close>. They are methods of the symlink,
  so the array that \<open>this.getOwnEntries()\<close> hands them to push to or splice is the array
  \<open>_symEntries\<close> of the symlink.
\<close>

definition pushSymEntry :: "ref \<Rightarrow> ref \<Rightarrow> unit M" where
  "pushSymEntry this x =
     upd this (\<lambda>e. e\<lparr>p_symEntries := map_option (\<lambda>es. es @ [x]) (p_symEntries e)\<rparr>)"

definition spliceSymEntry :: "ref \<Rightarrow> nat \<Rightarrow> unit M" where
  "spliceSymEntry this i =
     upd this (\<lambda>e. e\<lparr>p_symEntries := map_option (splice1 i) (p_symEntries e)\<rparr>)"

definition onTargetParentChildRemoved :: "ref \<Rightarrow> ref \<Rightarrow> unit M" where
  "onTargetParentChildRemoved this entry =
     bnd (gets (\<lambda>s. p_target (s ! this))) (\<lambda>t.
       if t \<noteq> Some entry then ret () else invalidateTarget this)"

definition onTargetChildAdded :: "nat \<Rightarrow> env \<Rightarrow> mutation \<Rightarrow> ref \<Rightarrow> ref \<Rightarrow> unit M" where
  "onTargetChildAdded n E U this entry =
     bnd (getWrappedEntry n E this entry) (\<lambda>wrapped.
     bnd (getOwnEntries n E this) (\<lambda>_.
     bnd (pushSymEntry this wrapped) (\<lambda>_.
     call_emit U this ChildAdded wrapped)))"

definition onTargetChildRemoved :: "nat \<Rightarrow> env \<Rightarrow> mutation \<Rightarrow> ref \<Rightarrow> ref \<Rightarrow> unit M" where
  "onTargetChildRemoved n E U this entry =
     bnd (getWrappedEntry n E this entry) (\<lambda>wrapped.
     bnd (getOwnEntries n E this) (\<lambda>entries.
     bnd (case indexOf wrapped entries of
            Some index \<Rightarrow> spliceSymEntry this index
          | None \<Rightarrow> ret ()) (\<lambda>_.
     bnd (upd this (\<lambda>x. x\<lparr>p_symLinks := mapDelete (p_symLinks x) entry\<rparr>)) (\<lambda>_.
     call_emit U this ChildRemoved wrapped))))"

text \<open>\<open>emit\<close> calls the listeners registered at the time of the call, in order.\<close>

definition emit_step :: "nat \<Rightarrow> env \<Rightarrow> mutation \<Rightarrow> ref \<Rightarrow> event \<Rightarrow> ref \<Rightarrow> unit M" where
  "emit_step n E U this ev entry =
     bnd (gets (\<lambda>s. listeners ev (s ! this))) (\<lambda>ls.
     forEach ls (\<lambda>(l, h).
       case h of
         OnTargetParentChildRemoved \<Rightarrow> onTargetParentChildRemoved l entry
       | OnTargetChildAdded \<Rightarrow> onTargetChildAdded n E U l entry
       | OnTargetChildRemoved \<Rightarrow> onTargetChildRemoved n E U l entry))"

definition ensureDirectory_step :: "env \<Rightarrow> mutation \<Rightarrow> ref \<Rightarrow> string \<Rightarrow> ref option M" where
  "ensureDirectory_step E U this pth =
     (case parse E pth of
        c0 # c1 # cs \<Rightarrow>
          if c0 \<noteq> [] \<or> c1 = ''...'' then ret None
          else foldUntilUndefined (c1 # cs) this (\<lambda>directory c. call_addDirectory U directory c None)
      | _ \<Rightarrow> ret None)"

text \<open>
  \<open>addDirectory\<close> of \<open>VirtualFileSystem\<close>, \<open>VirtualDirectorySymlink\<close> and \<open>VirtualDirectory\<close>.
\<close>

definition addDirectory_step ::
  "nat \<Rightarrow> env \<Rightarrow> mutation \<Rightarrow> ref \<Rightarrow> string \<Rightarrow> resolver option \<Rightarrow> ref option M" where
  "addDirectory_step n E U this pth rslv =
     bnd (gets (\<lambda>s. kind (s ! this))) (\<lambda>k.
       if k = KFileSystem then
         bnd (root n this) (\<lambda>r.
         bnd (currentDirectory this) (\<lambda>cwd.
         call_addDirectory U r (resolve E cwd pth) rslv))
       else if k = KDirectorySymlink then
         bnd (getRealDirectory n E this) (\<lambda>t.
         case t of None \<Rightarrow> ret None | Some t \<Rightarrow> call_addDirectory U t pth rslv)
       else
         bnd (writePreamble this) (\<lambda>_.
         if basename E pth = [] then ret None
         else if dirname E pth \<noteq> [] then
           bnd (call_ensureDirectory U this (dirname E pth)) (\<lambda>directory.
           case directory of
             None \<Rightarrow> ret None
           | Some d \<Rightarrow> call_addDirectory U d (basename E pth) rslv)
         else
           bnd (getEntry n E this (basename E pth) noOptions) (\<lambda>found.
           bnd (case found of
                  Some entry \<Rightarrow> ret entry
                | None \<Rightarrow>
                    bnd (newVirtualDirectory this (basename E pth) rslv) (\<lambda>entry.
                    bnd (getOwnEntries n E this) (\<lambda>_.
                    bnd (pushOwnEntry this entry) (\<lambda>_.
                    bnd (call_emit U this ChildAdded entry) (\<lambda>_.
                    ret entry))))) (\<lambda>entry.
           gets (\<lambda>s. if isDirectoryKind (kind (s ! entry)) then Some entry else None)))))"

text \<open>\<open>addFile\<close> of \<open>VirtualFileSystem\<close>, \<open>VirtualDirectorySymlink\<close> and \<open>VirtualDirectory\<close>.\<close>

definition addFile_step ::
  "nat \<Rightarrow> env \<Rightarrow> mutation \<Rightarrow> ref \<Rightarrow> string \<Rightarrow> content_arg \<Rightarrow> ref option M" where
  "addFile_step n E U this pth content =
     bnd (gets (\<lambda>s. kind (s ! this))) (\<lambda>k.
       if k = KFileSystem then
         bnd (root n this) (\<lambda>r.
         bnd (currentDirectory this) (\<lambda>cwd.
         call_addFile U r (resolve E cwd pth) content))
       else if k = KDirectorySymlink then
         bnd (getRealDirectory n E this) (\<lambda>t.
         case t of None \<Rightarrow> ret None | Some t \<Rightarrow> call_addFile U t pth content)
       else
         bnd (writePreamble this) (\<lambda>_.
         if basename E pth = [] then ret None
         else if dirname E pth \<noteq> [] then
           bnd (call_ensureDirectory U this (dirname E pth)) (\<lambda>directory.
           case directory of
             None \<Rightarrow> ret None
           | Some d \<Rightarrow> call_addFile U d (basename E pth) content)
         else
           bnd (getEntry n E this (basename E pth) noOptions) (\<lambda>found.
           bnd (case found of
                  Some entry \<Rightarrow> ret entry
                | None \<Rightarrow>
                    bnd (newVirtualFile this (basename E pth) content) (\<lambda>entry.
                    bnd (getOwnEntries n E this) (\<lambda>_.
                    bnd (pushOwnEntry this entry) (\<lambda>_.
                    bnd (call_emit U this ChildAdded entry) (\<lambda>_.
                    ret entry))))) (\<lambda>entry.
           gets (\<lambda>s. if isFileKind (kind (s ! entry)) then Some entry else None)))))"

text \<open>
  \<open>addSymlink\<close> of \<open>VirtualFileSystem\<close> and of \<open>VirtualDirectory\<close> (the directory symlink
  does not override it).
\<close>

definition addSymlink_step ::
  "nat \<Rightarrow> env \<Rightarrow> mutation \<Rightarrow> ref \<Rightarrow> string \<Rightarrow> symlink_target \<Rightarrow> ref option M" where
  "addSymlink_step n E U this pth tgt =
     bnd (gets (\<lambda>s. s ! this)) (\<lambda>e.
       if kind e = KFileSystem then
         bnd (currentDirectory this) (\<lambda>cwd.
         bnd (root n this) (\<lambda>r.
         call_addSymlink U r (resolve E cwd pth)
           (case tgt of TargetPath t \<Rightarrow> TargetPath (resolve E cwd t) | TargetEntry t \<Rightarrow> tgt)))
       else
         bnd (writePreamble this) (\<lambda>_.
         if basename E pth = [] then ret None
         else
           bnd (case tgt of
                  TargetPath t \<Rightarrow>
                    bnd (path n E this) (\<lambda>p. getEntry n E (fileSystem e) (resolve E p t) noOptions)
                | TargetEntry t \<Rightarrow> ret (Some t)) (\<lambda>targetEntry.
           case targetEntry of
             None \<Rightarrow> ret None
           | Some te \<Rightarrow>
               if dirname E pth \<noteq> [] then
                 bnd (call_ensureDirectory U this (dirname E pth)) (\<lambda>directory.
                 case directory of
                   None \<Rightarrow> ret None
                 | Some d \<Rightarrow> call_addSymlink U d (basename E pth) (TargetEntry te))
               else
                 bnd (getEntry n E this pth noOptions) (\<lambda>found.
                 bnd (case found of
                        Some entry \<Rightarrow> ret (Some entry)
                      | None \<Rightarrow>
                          bnd (gets (\<lambda>s. kind (s ! te))) (\<lambda>tk.
                          bnd (if isFileKind tk then
                                 bnd (path n E te) (\<lambda>tp.
                                 bnd (newVirtualFileSymlink this pth tp) (\<lambda>l. ret (Some l)))
                               else if isDirectoryKind tk then
                                 bnd (path n E te) (\<lambda>tp.
                                 bnd (newVirtualDirectorySymlink this pth tp) (\<lambda>l. ret (Some l)))
                               else ret None) (\<lambda>created.
                          case created of
                            None \<Rightarrow> ret None
                          | Some entry \<Rightarrow>
                              bnd (getOwnEntries n E this) (\<lambda>_.
                              bnd (pushOwnEntry this entry) (\<lambda>_.
                              bnd (call_emit U this ChildAdded entry) (\<lambda>_.
                              ret (Some entry))))))) (\<lambda>result.
                 case result of
                   None \<Rightarrow> ret None
                 | Some entry \<Rightarrow>
                     gets (\<lambda>s.
                       let ek = kind (s ! entry);
                           tk = (case tgt of TargetPath t \<Rightarrow> None
                                           | TargetEntry t \<Rightarrow> Some (kind (s ! t)))
                       in if (case tk of Some k \<Rightarrow> isFileKind k | None \<Rightarrow> False) then
                            (if ek = KFileSymlink then Some entry else None)
                          else if (case tk of Some k \<Rightarrow> isDirectoryKind k | None \<Rightarrow> False) then
                            (if ek = KDirectorySymlink then Some entry else None)
                          else if isSymlinkKind ek then Some entry else None))))))"

text \<open>
  \<open>removeDirectory\<close> and \<open>removeFile\<close> of \<open>VirtualFileSystem\<close>, \<open>VirtualDirectorySymlink\<close> and
  \<open>VirtualDirectory\<close>.
\<close>

definition removeDirectory_step :: "nat \<Rightarrow> env \<Rightarrow> mutation \<Rightarrow> ref \<Rightarrow> string \<Rightarrow> bool M" where
  "removeDirectory_step n E U this pth =
     bnd (gets (\<lambda>s. s ! this)) (\<lambda>e.
       if kind e = KFileSystem then
         bnd (root n this) (\<lambda>r.
         bnd (currentDirectory this) (\<lambda>cwd.
         call_removeDirectory U r (resolve E cwd pth)))
       else if kind e = KDirectorySymlink then
         bnd (getRealDirectory n E this) (\<lambda>t.
         case t of None \<Rightarrow> ret False | Some t \<Rightarrow> call_removeDirectory U t pth)
       else
         bnd (writePreamble this) (\<lambda>_.
         if basename E pth = [] then ret False
         else if dirname E pth \<noteq> [] then
           bnd (getDirectory n E this (dirname E pth) noOptions) (\<lambda>directory.
           case directory of
             None \<Rightarrow> ret False
           | Some d \<Rightarrow> call_removeDirectory U d (basename E pth))
         else
           bnd (getOwnEntries n E this) (\<lambda>entries.
           bnd (gets (\<lambda>s. findFirst (\<lambda>entry. sameName E s (fileSystem e) pth (name (s ! entry))
                                             \<and> isDirectoryKind (kind (s ! entry))) entries)) (\<lambda>found.
           case found of
             None \<Rightarrow> ret False
           | Some (i, entry) \<Rightarrow>
               bnd (spliceOwnEntry this i) (\<lambda>_.
               bnd (call_emit U this ChildRemoved entry) (\<lambda>_.
               ret True))))))"

definition removeFile_step :: "nat \<Rightarrow> env \<Rightarrow> mutation \<Rightarrow> ref \<Rightarrow> string \<Rightarrow> bool M" where
  "removeFile_step n E U this pth =
     bnd (gets (\<lambda>s. s ! this)) (\<lambda>e.
       if kind e = KFileSystem then
         bnd (root n this) (\<lambda>r.
         bnd (currentDirectory this) (\<lambda>cwd.
         call_removeFile U r (resolve E cwd pth)))
       else if kind e = KDirectorySymlink then
         bnd (getRealDirectory n E this) (\<lambda>t.
         case t of None \<Rightarrow> ret False | Some t \<Rightarrow> call_removeFile U t pth)
       else
         bnd (writePreamble this) (\<lambda>_.
         if basename E pth = [] then ret False
         else if dirname E pth \<noteq> [] then
           bnd (getDirectory n E this (dirname E pth) noOptions) (\<lambda>directory.
           case directory of
             None \<Rightarrow> ret False
           | Some d \<Rightarrow> call_removeFile U d (basename E pth))
         else
           bnd (getOwnEntries n E this) (\<lambda>entries.
           bnd (gets (\<lambda>s. findFirst (\<lambda>entry. sameName E s (fileSystem e) pth (name (s ! entry))
                                             \<and> isFileKind (kind (s ! entry))) entries)) (\<lambda>found.
           case found of
             None \<Rightarrow> ret False
           | Some (i, entry) \<Rightarrow>
               bnd (spliceOwnEntry this i) (\<lambda>_.
               bnd (call_emit U this ChildRemoved entry) (\<lambda>_.
               ret True))))))"

primrec mutationAt :: "nat \<Rightarrow> env \<Rightarrow> mutation" where
  "mutationAt 0 E =
     \<lparr>call_emit = (\<lambda>this ev entry. outOfFuel),
      call_ensureDirectory = (\<lambda>this pth. outOfFuel),
      call_addDirectory = (\<lambda>this pth rslv. outOfFuel),
      call_addFile = (\<lambda>this pth content. outOfFuel),
      call_addSymlink = (\<lambda>this pth tgt. outOfFuel),
      call_removeDirectory = (\<lambda>this pth. outOfFuel),
      call_removeFile = (\<lambda>this pth. outOfFuel)\<rparr>"
| "mutationAt (Suc n) E =
     (let U = mutationAt n E in
     \<lparr>call_emit = emit_step n E U,
      call_ensureDirectory = ensureDirectory_step E U,
      call_addDirectory = addDirectory_step n E U,
      call_addFile = addFile_step n E U,
      call_addSymlink = addSymlink_step n E U,
      call_removeDirectory = removeDirectory_step n E U,
      call_removeFile = removeFile_step n E U\<rparr>)"

definition emit :: "nat \<Rightarrow> env \<Rightarrow> ref \<Rightarrow> event \<Rightarrow> ref \<Rightarrow> unit M" where
  "emit n E = call_emit (mutationAt n E)"

definition ensureDirectory :: "nat \<Rightarrow> env \<Rightarrow> ref \<Rightarrow> string \<Rightarrow> ref option M" where
  "ensureDirectory n E = call_ensureDirectory (mutationAt n E)"

definition addDirectory :: "nat \<Rightarrow> env \<Rightarrow> ref \<Rightarrow> string \<Rightarrow> resolver option \<Rightarrow> ref option M" where
  "addDirectory n E = call_addDirectory (mutationAt n E)"

definition addFile :: "nat \<Rightarrow> env \<Rightarrow> ref \<Rightarrow> string \<Rightarrow> content_arg \<Rightarrow> ref option M" where
  "addFile n E = call_addFile (mutationAt n E)"

definition addSymlink :: "nat \<Rightarrow> env \<Rightarrow> ref \<Rightarrow> string \<Rightarrow> symlink_target \<Rightarrow> ref option M" where
  "addSymlink n E = call_addSymlink (mutationAt n E)"

definition removeDirectory :: "nat \<Rightarrow> env \<Rightarrow> ref \<Rightarrow> string \<Rightarrow> bool M" where
  "removeDirectory n E = call_removeDirectory (mutationAt n E)"

definition removeFile :: "nat \<Rightarrow> env \<Rightarrow> ref \<Rightarrow> string \<Rightarrow> bool M" where
  "removeFile n E = call_removeFile (mutationAt n E)"

section \<open>vfs.ts: VirtualFileSystem\<close>

definition changeDirectory :: "env \<Rightarrow> ref \<Rightarrow> string \<Rightarrow> unit M" where
  "changeDirectory E this pth =
     bnd (writePreamble this) (\<lambda>_.
       if pth \<noteq> [] then
         upd this (\<lambda>x. x\<lparr>p_currentDirectory := resolve E (p_currentDirectory x) pth\<rparr>)
       else ret ())"

text \<open>\<open>VirtualFileSystem.clone\<close>.\<close>

definition cloneFileSystem :: "nat \<Rightarrow> ref \<Rightarrow> ref M" where
  "cloneFileSystem n this =
     bnd (gets (\<lambda>s. s ! this)) (\<lambda>e.
     bnd (newVirtualFileSystem (p_currentDirectory e) (p_useCaseSensitiveFileNames e)) (\<lambda>fs.
     bnd (root n this) (\<lambda>r.
     bnd (clone r fs) (\<lambda>c.
     bnd (upd fs (\<lambda>x. x\<lparr>p_root := Some c\<rparr>)) (\<lambda>_.
     ret fs)))))"

section \<open>A concrete environment\<close>

text \<open>
  Modelled from the spec: the path utilities of \<open>./vpath\<close>, which the sources at hand do
  not contain. The spec names them (\<open>combine\<close>, \<open>resolve\<close>, \<open>basename\<close>, \<open>dirname\<close>) as
  operating on forward-slash-normalized strings; this is the plain reading for
  normalized absolute paths: \<open>basename\<close> is what follows the last separator, \<open>dirname\<close>
  what precedes it, \<open>combine\<close> joins with one separator, \<open>resolve\<close> keeps an absolute
  path and joins a relative one to the base, \<open>parse\<close> splits at the separators. It is used
  only to run the operations on concrete inputs; the general theorems hold for every
  environment.
\<close>

definition sep :: char where
  "sep = CHR ''/''"

definition simple_basename :: "string \<Rightarrow> string" where
  "simple_basename p = rev (takeWhile (\<lambda>c. c \<noteq> sep) (rev p))"

definition simple_dirname :: "string \<Rightarrow> string" where
  "simple_dirname p = rev (drop 1 (dropWhile (\<lambda>c. c \<noteq> sep) (rev p)))"

definition simple_combine :: "string \<Rightarrow> string \<Rightarrow> string" where
  "simple_combine a b = (if a \<noteq> [] \<and> last a = sep then a @ b else a @ sep # b)"

definition simple_resolve :: "string \<Rightarrow> string \<Rightarrow> string" where
  "simple_resolve base p = (case p of c # cs \<Rightarrow> if c = sep then p else simple_combine base p
                                    | [] \<Rightarrow> base)"

fun simple_parse :: "string \<Rightarrow> string list" where
  "simple_parse [] = [[]]"
| "simple_parse (c # cs) =
     (if c = sep then [] # simple_parse cs
      else case simple_parse cs of x # xs \<Rightarrow> (c # x) # xs | [] \<Rightarrow> [[c]])"

definition simpleEnv :: env where
  "simpleEnv = \<lparr>basename = simple_basename, dirname = simple_dirname,
                combine = simple_combine, resolve = simple_resolve,
                parse = simple_parse, collator = None\<rparr>"

text \<open>What a call returned, if it returned, and the store it left.\<close>

definition returned :: "'a outcome \<Rightarrow> 'a option" where
  "returned r = (case r of Ok x s \<Rightarrow> Some x | _ \<Rightarrow> None)"

definition storeOf :: "'a outcome \<Rightarrow> store option" where
  "storeOf r = (case r of Ok x s \<Rightarrow> Some s | Throw e s \<Rightarrow> Some s | OutOfFuel \<Rightarrow> None)"

definition thrown :: "'a outcome \<Rightarrow> error option" where
  "thrown r = (case r of Throw e s \<Rightarrow> Some e | _ \<Rightarrow> None)"

section \<open>Scenarios\<close>

text \<open>
  Sequences of calls on a fresh, case-sensitive file system, run in the concrete
  environment. \<open>entryNames\<close> is \<open>getEntries()\<close> followed by reading the names: it answers
  the names and the identities of the listed entries.
\<close>

definition entryNames :: "nat \<Rightarrow> env \<Rightarrow> ref \<Rightarrow> (string list \<times> ref list) M" where
  "entryNames n E this =
     bnd (getEntries n E this noOptions) (\<lambda>es.
     gets (\<lambda>s. (map (\<lambda>e. name (s ! e)) es, es)))"

text \<open>
  A directory symlink \<open>/proj/lib\<close> to \<open>/proj/src\<close> is resolved (by \<open>isBroken\<close>) before it
  is listed; then a file is added to the target, the symlink is listed, the file is
  removed again, and the symlink is listed and searched once more.
\<close>

definition mirrorScenario ::
  "((string list \<times> ref list) \<times> (string list \<times> ref list) \<times> bool \<times> ref option) option M" where
  "mirrorScenario =
     bnd (newVirtualFileSystem ''/'' True) (\<lambda>fs.
     bnd (addDirectory 30 simpleEnv fs ''/proj/src'' None) (\<lambda>src.
     case src of None \<Rightarrow> ret None | Some src \<Rightarrow>
     bnd (addSymlink 30 simpleEnv fs ''/proj/lib'' (TargetEntry src)) (\<lambda>lib.
     case lib of None \<Rightarrow> ret None | Some lib \<Rightarrow>
     bnd (isBroken 30 simpleEnv lib) (\<lambda>broken.
     bnd (addFile 30 simpleEnv fs ''/proj/src/a.ts'' (ContentText ''let x=1;'')) (\<lambda>_.
     bnd (entryNames 30 simpleEnv lib) (\<lambda>afterAdd.
     bnd (removeFile 30 simpleEnv fs ''/proj/src/a.ts'') (\<lambda>_.
     bnd (entryNames 30 simpleEnv lib) (\<lambda>afterRemove.
     bnd (getFile 30 simpleEnv fs ''/proj/lib/a.ts'' noOptions) (\<lambda>f.
     ret (Some (afterAdd, afterRemove, broken, f)))))))))))"

text \<open>
  A file is added with content \<open>x\<close>, the file system is cloned, and the content of the
  clone's file is cleared with \<open>setContent(undefined)\<close> and read back; the content of the
  original file is read as well.
\<close>

definition clearScenario :: "(string option \<times> string option) option M" where
  "clearScenario =
     bnd (newVirtualFileSystem ''/'' True) (\<lambda>fs.
     bnd (addFile 30 simpleEnv fs ''/a'' (ContentText ''x'')) (\<lambda>_.
     bnd (cloneFileSystem 30 fs) (\<lambda>fs'.
     bnd (getFile 30 simpleEnv fs' ''/a'' noOptions) (\<lambda>f.
     case f of None \<Rightarrow> ret None | Some f \<Rightarrow>
     bnd (setContent 30 simpleEnv f None) (\<lambda>_.
     bnd (getContent 30 simpleEnv f) (\<lambda>c.
     bnd (getFile 30 simpleEnv fs ''/a'' noOptions) (\<lambda>f0.
     case f0 of None \<Rightarrow> ret None | Some f0 \<Rightarrow>
     bnd (getContent 30 simpleEnv f0) (\<lambda>c0.
     ret (Some (c, c0))))))))))"

text \<open>The same path is added twice with different contents and read back.\<close>

definition addTwiceScenario :: "string option option M" where
  "addTwiceScenario =
     bnd (newVirtualFileSystem ''/'' True) (\<lambda>fs.
     bnd (addFile 30 simpleEnv fs ''/a'' (ContentText ''x'')) (\<lambda>_.
     bnd (addFile 30 simpleEnv fs ''/a'' (ContentText ''y'')) (\<lambda>_.
     bnd (getFile 30 simpleEnv fs ''/a'' noOptions) (\<lambda>f.
     case f of None \<Rightarrow> ret None | Some f \<Rightarrow>
     bnd (getContent 30 simpleEnv f) (\<lambda>c.
     ret (Some c))))))"

text \<open>A directory whose resolver reports the file name \<open>a\<close> twice is listed.\<close>

definition repeatingResolver :: resolver where
  "repeatingResolver = \<lparr>r_getEntries = (\<lambda>p. ([''a'', ''a''], [])), r_getContent = (\<lambda>p. None)\<rparr>"

definition repeatedNameScenario :: "(string list \<times> ref list) option M" where
  "repeatedNameScenario =
     bnd (newVirtualFileSystem ''/'' True) (\<lambda>fs.
     bnd (addDirectory 30 simpleEnv fs ''/d'' (Some repeatingResolver)) (\<lambda>d.
     case d of None \<Rightarrow> ret None | Some d \<Rightarrow>
     bnd (entryNames 30 simpleEnv d) (\<lambda>r. ret (Some r))))"

text \<open>
  A tree with a file \<open>/p/d/f\<close>, a listed directory symlink \<open>/p/s\<close> to \<open>/p/d\<close> and a broken
  directory symlink \<open>/p/b\<close> is frozen. Then the target of the first entry listed under
  \<open>/p/s\<close> is reassigned, and a file is added through \<open>/p/b\<close>. The scenario answers whether
  the file system and that listed entry are read-only, the target of the listed entry
  before and after the assignment, and what \<open>addFile\<close> returned.
\<close>

definition frozenScenario :: "(bool \<times> bool \<times> string \<times> string \<times> ref option) option M" where
  "frozenScenario =
     bnd (newVirtualFileSystem ''/'' True) (\<lambda>fs.
     bnd (addFile 30 simpleEnv fs ''/p/d/f'' (ContentText ''x'')) (\<lambda>_.
     bnd (getDirectory 30 simpleEnv fs ''/p/d'' noOptions) (\<lambda>d.
     case d of None \<Rightarrow> ret None | Some d \<Rightarrow>
     bnd (addSymlink 30 simpleEnv fs ''/p/s'' (TargetEntry d)) (\<lambda>sl.
     case sl of None \<Rightarrow> ret None | Some sl \<Rightarrow>
     bnd (getEntries 30 simpleEnv sl noOptions) (\<lambda>ws.
     case ws of [] \<Rightarrow> ret None | w # _ \<Rightarrow>
     bnd (addSymlink 30 simpleEnv fs ''/p/b'' (TargetEntry d)) (\<lambda>b.
     case b of None \<Rightarrow> ret None | Some b \<Rightarrow>
     bnd (setTarget b ''/p/nowhere'') (\<lambda>_.
     bnd (makeReadOnly 30 fs) (\<lambda>_.
     bnd (isReadOnly fs) (\<lambda>ro.
     bnd (isReadOnly w) (\<lambda>wro.
     bnd (target w) (\<lambda>t0.
     bnd (setTarget w ''/p/elsewhere'') (\<lambda>_.
     bnd (target w) (\<lambda>t1.
     bnd (addFile 30 simpleEnv b ''g'' (ContentText ''y'')) (\<lambda>r.
     ret (Some (ro, wro, t0, t1, r))))))))))))))))"

text \<open>
  A directory symlink \<open>/r/y/A\<close> to \<open>/r/x/d\<close> is resolved; then \<open>/r/x\<close> is removed and
  created again with a directory symlink \<open>/r/x/d\<close> to \<open>/r/y/A\<close>. The scenario answers the
  entries the two target paths resolve to, the two symlinks, what \<open>findTarget\<close> gives
  for the target of the first, and \<open>isBroken\<close> of both.
\<close>

definition staleScenario ::
  "(ref option \<times> ref option \<times> ref \<times> ref \<times> ref option \<times> bool \<times> bool) option M" where
  "staleScenario =
     bnd (newVirtualFileSystem ''/'' True) (\<lambda>fs.
     bnd (addDirectory 30 simpleEnv fs ''/r/x/d'' None) (\<lambda>_.
     bnd (addSymlink 30 simpleEnv fs ''/r/y/A'' (TargetPath ''/r/x/d'')) (\<lambda>a.
     case a of None \<Rightarrow> ret None | Some a \<Rightarrow>
     bnd (isBroken 30 simpleEnv a) (\<lambda>_.
     bnd (removeDirectory 30 simpleEnv fs ''/r/x'') (\<lambda>_.
     bnd (addSymlink 30 simpleEnv fs ''/r/x/d'' (TargetEntry a)) (\<lambda>b.
     case b of None \<Rightarrow> ret None | Some b \<Rightarrow>
     bnd (target a) (\<lambda>ta.
     bnd (target b) (\<lambda>tb.
     bnd (getEntry 30 simpleEnv fs ta noOptions) (\<lambda>ea.
     bnd (getEntry 30 simpleEnv fs tb noOptions) (\<lambda>eb.
     bnd (findTarget 30 simpleEnv fs ta []) (\<lambda>r.
     bnd (isBroken 30 simpleEnv a) (\<lambda>brokenA.
     bnd (isBroken 30 simpleEnv b) (\<lambda>brokenB.
     ret (Some (ea, eb, a, b, r, brokenA, brokenB)))))))))))))))"

text \<open>
  A tree with a directory \<open>/p/d\<close>, a file \<open>/p/d/f\<close>, a directory symlink \<open>/p/s\<close> to the
  directory and a file symlink \<open>/p/l\<close> to the file; the scenario answers the four
  entries. In \<open>brokenLinksStore\<close> both symlinks then get a target path that does not
  exist; in \<open>frozenLinksStore\<close> \<open>makeReadOnly\<close> is called on the two symlinks only.
\<close>

definition linksScenario :: "(ref \<times> ref \<times> ref \<times> ref) option M" where
  "linksScenario =
     bnd (newVirtualFileSystem ''/'' True) (\<lambda>fs.
     bnd (addFile 30 simpleEnv fs ''/p/d/f'' (ContentText ''x'')) (\<lambda>f.
     case f of None \<Rightarrow> ret None | Some f \<Rightarrow>
     bnd (getDirectory 30 simpleEnv fs ''/p/d'' noOptions) (\<lambda>d.
     case d of None \<Rightarrow> ret None | Some d \<Rightarrow>
     bnd (addSymlink 30 simpleEnv fs ''/p/s'' (TargetEntry d)) (\<lambda>sl.
     case sl of None \<Rightarrow> ret None | Some sl \<Rightarrow>
     bnd (addSymlink 30 simpleEnv fs ''/p/l'' (TargetEntry f)) (\<lambda>fl.
     case fl of None \<Rightarrow> ret None | Some fl \<Rightarrow>
     ret (Some (d, f, sl, fl)))))))"

definition brokenLinksStore :: store where
  "brokenLinksStore =
     (case bnd linksScenario (\<lambda>r. case r of None \<Rightarrow> ret () | Some (d, f, sl, fl) \<Rightarrow>
             bnd (setTarget sl ''/p/nowhere'') (\<lambda>_. setTarget fl ''/p/nothing'')) [] of
        Ok x s \<Rightarrow> s | _ \<Rightarrow> [])"

definition frozenLinksStore :: store where
  "frozenLinksStore =
     (case bnd linksScenario (\<lambda>r. case r of None \<Rightarrow> ret () | Some (d, f, sl, fl) \<Rightarrow>
             bnd (makeReadOnly 30 sl) (\<lambda>_. makeReadOnly 30 fl)) [] of
        Ok x s \<Rightarrow> s | _ \<Rightarrow> [])"

text \<open>
  The store of a tree with the file \<open>/p/d/f\<close> after \<open>makeReadOnly\<close> on the file system, and
  a scenario on it: the file system is cloned, a file is added to the clone, and the
  directory \<open>/p/d\<close> of the clone is listed; the read-only flags of all objects are
  answered as well.
\<close>

definition frozenTreeStore :: store where
  "frozenTreeStore =
     (case bnd (newVirtualFileSystem ''/'' True) (\<lambda>fs.
           bnd (addFile 30 simpleEnv fs ''/p/d/f'' (ContentText ''x'')) (\<lambda>_.
           makeReadOnly 30 fs)) [] of
        Ok x s \<Rightarrow> s | _ \<Rightarrow> [])"

definition cloneAndAddScenario :: "(ref \<times> (string list \<times> ref list) \<times> bool list) option M" where
  "cloneAndAddScenario =
     bnd (cloneFileSystem (Suc 20) 0) (\<lambda>fs'.
     bnd (addFile 30 simpleEnv fs' ''/p/d/g'' (ContentText ''y'')) (\<lambda>_.
     bnd (getDirectory 30 simpleEnv fs' ''/p/d'' noOptions) (\<lambda>d.
     case d of None \<Rightarrow> ret None | Some d \<Rightarrow>
     bnd (entryNames 30 simpleEnv d) (\<lambda>r.
     bnd (gets (\<lambda>s. map p_readOnly s)) (\<lambda>flags.
     ret (Some (fs', r, flags)))))))"

text \<open>
  The store of a tree with two directory symlinks \<open>/x/A\<close> and \<open>/x/B\<close> that target each
  other.
\<close>

definition cycleStore :: store where
  "cycleStore =
     (case bnd (newVirtualFileSystem ''/'' True) (\<lambda>fs.
           bnd (addDirectory 30 simpleEnv fs ''/x/d'' None) (\<lambda>d.
           case d of None \<Rightarrow> ret () | Some d \<Rightarrow>
           bnd (addSymlink 30 simpleEnv fs ''/x/A'' (TargetEntry d)) (\<lambda>a.
           case a of None \<Rightarrow> ret () | Some a \<Rightarrow>
           bnd (addSymlink 30 simpleEnv fs ''/x/B'' (TargetEntry a)) (\<lambda>b.
           setTarget a ''/x/B'')))) [] of
        Ok x s \<Rightarrow> s | _ \<Rightarrow> [])"

text \<open>
  The store of a file system with a directory \<open>/d\<close> that is backed by a resolver reporting
  the files \<open>a\<close>, \<open>b\<close> and the directory \<open>c\<close>, before the directory is listed.
\<close>

definition listingResolver :: resolver where
  "listingResolver = \<lparr>r_getEntries = (\<lambda>p. ([''a'', ''b''], [''c''])), r_getContent = (\<lambda>p. None)\<rparr>"

definition resolverStore :: store where
  "resolverStore =
     (case bnd (newVirtualFileSystem ''/'' True) (\<lambda>fs.
           addDirectory 30 simpleEnv fs ''/d'' (Some listingResolver)) [] of
        Ok x s \<Rightarrow> s | _ \<Rightarrow> [])"

text \<open>
  A directory symlink \<open>/r/y/A\<close> to \<open>/r/x/d\<close> is resolved; then the ancestor \<open>/r/x\<close> of the
  target is removed. The scenario answers what the target path of the symlink resolves
  to now (by \<open>getEntry\<close> and by \<open>findTarget\<close>), \<open>isBroken\<close> of the symlink, what \<open>addFile\<close>
  through the symlink returns, the listing of the removed directory afterwards, and what
  \<open>removeFile\<close> through the symlink returns.
\<close>

definition staleLinkScenario ::
  "(ref option \<times> ref option \<times> bool \<times> ref option \<times> (string list \<times> ref list) \<times> bool) option M" where
  "staleLinkScenario =
     bnd (newVirtualFileSystem ''/'' True) (\<lambda>fs.
     bnd (addDirectory 30 simpleEnv fs ''/r/x/d'' None) (\<lambda>d.
     case d of None \<Rightarrow> ret None | Some d \<Rightarrow>
     bnd (addSymlink 30 simpleEnv fs ''/r/y/A'' (TargetPath ''/r/x/d'')) (\<lambda>a.
     case a of None \<Rightarrow> ret None | Some a \<Rightarrow>
     bnd (isBroken 30 simpleEnv a) (\<lambda>_.
     bnd (removeDirectory 30 simpleEnv fs ''/r/x'') (\<lambda>_.
     bnd (target a) (\<lambda>ta.
     bnd (getEntry 30 simpleEnv fs ta noOptions) (\<lambda>e.
     bnd (findTarget 30 simpleEnv fs ta []) (\<lambda>r.
     bnd (isBroken 30 simpleEnv a) (\<lambda>broken.
     bnd (addFile 30 simpleEnv a ''g'' (ContentText ''y'')) (\<lambda>g.
     bnd (entryNames 30 simpleEnv d) (\<lambda>listing.
     bnd (removeFile 30 simpleEnv a ''g'') (\<lambda>removed.
     ret (Some (e, r, broken, g, listing, removed))))))))))))))"

text \<open>
  On \<open>frozenLinksStore\<close> (the file system is object 0, \<open>/p/d\<close> is 3, \<open>/p/d/f\<close> is 4, the
  read-only directory symlink \<open>/p/s\<close> is 5 and the read-only file symlink \<open>/p/l\<close> is 6):
  a file and a directory are added through the directory symlink and the target is
  listed, both are removed through the symlink and the target is listed again, and the
  content of the file is set through the file symlink and read from the file.
\<close>

definition readOnlyLinksScenario ::
  "(ref option \<times> ref option \<times> (string list \<times> ref list) \<times> bool \<times> bool
     \<times> (string list \<times> ref list) \<times> string option) M" where
  "readOnlyLinksScenario =
     bnd (addFile 30 simpleEnv 5 ''g'' (ContentText ''y'')) (\<lambda>g.
     bnd (addDirectory 30 simpleEnv 5 ''h'' None) (\<lambda>h.
     bnd (entryNames 30 simpleEnv 3) (\<lambda>afterAdd.
     bnd (removeFile 30 simpleEnv 5 ''g'') (\<lambda>removedFile.
     bnd (removeDirectory 30 simpleEnv 5 ''h'') (\<lambda>removedDirectory.
     bnd (entryNames 30 simpleEnv 3) (\<lambda>afterRemove.
     bnd (setContent 30 simpleEnv 6 (Some ''new'')) (\<lambda>_.
     bnd (getContent 30 simpleEnv 4) (\<lambda>c.
     ret (g, h, afterAdd, removedFile, removedDirectory, afterRemove, c)))))))))"

text \<open>
  The store of \<open>linksScenario\<close> with no entry read-only, and \<open>addSymlink\<close> on its directory
  symlink \<open>/p/s\<close> (object 5) with the file \<open>/p/d/f\<close> as target: the scenario answers the
  created entry, the listing of the symlink and the listing of its target \<open>/p/d\<close>.
\<close>

definition linksStore :: store where
  "linksStore = (case linksScenario [] of Ok x s \<Rightarrow> s | _ \<Rightarrow> [])"

definition addSymlinkOnLinkScenario ::
  "(ref option \<times> (string list \<times> ref list) \<times> (string list \<times> ref list)) M" where
  "addSymlinkOnLinkScenario =
     bnd (addSymlink 30 simpleEnv 5 ''k'' (TargetEntry 4)) (\<lambda>k.
     bnd (entryNames 30 simpleEnv 5) (\<lambda>ofLink.
     bnd (entryNames 30 simpleEnv 3) (\<lambda>ofTarget.
     ret (k, ofLink, ofTarget))))"

text \<open>
  The store of a tree with a directory symlink \<open>/x/A\<close> (object 4) whose target path
  \<open>/x/A/k\<close> leads through the symlink itself.
\<close>

definition selfLinkStore :: store where
  "selfLinkStore =
     (case bnd (newVirtualFileSystem ''/'' True) (\<lambda>fs.
           bnd (addDirectory 30 simpleEnv fs ''/x/d'' None) (\<lambda>d.
           case d of None \<Rightarrow> ret () | Some d \<Rightarrow>
           bnd (addSymlink 30 simpleEnv fs ''/x/A'' (TargetEntry d)) (\<lambda>a.
           case a of None \<Rightarrow> ret () | Some a \<Rightarrow> setTarget a ''/x/A/k''))) [] of
        Ok x s \<Rightarrow> s | _ \<Rightarrow> [])"

text \<open>
  The store of a tree with the directory \<open>/proj/src\<close> (object 3), a directory symlink
  \<open>/proj/lib\<close> to it that is resolved and so listens to its events, and a file
  \<open>/proj/src/a.ts\<close> (object 5).
\<close>

definition mirroredStore :: store where
  "mirroredStore =
     (case bnd (newVirtualFileSystem ''/'' True) (\<lambda>fs.
           bnd (addDirectory 30 simpleEnv fs ''/proj/src'' None) (\<lambda>src.
           case src of None \<Rightarrow> ret () | Some src \<Rightarrow>
           bnd (addSymlink 30 simpleEnv fs ''/proj/lib'' (TargetEntry src)) (\<lambda>lib.
           case lib of None \<Rightarrow> ret () | Some lib \<Rightarrow>
           bnd (isBroken 30 simpleEnv lib) (\<lambda>_.
           bnd (addFile 30 simpleEnv fs ''/proj/src/a.ts'' (ContentText ''let x=1;'')) (\<lambda>_.
           ret ()))))) [] of
        Ok x s \<Rightarrow> s | _ \<Rightarrow> [])"

section \<open>What the read operations and the events leave unchanged\<close>

text \<open>
  \<open>same e e'\<close>: the fields of an object that no read operation and no event handler
  assigns. \<open>framed X s s'\<close>: every object of \<open>s\<close> is still there in \<open>s'\<close> with these fields
  unchanged, and a child list \<open>_entries\<close> that was materialised in \<open>s\<close> is the same in \<open>s'\<close>,
  except for the objects in \<open>X\<close> (a directory that is being populated).
\<close>

definition same :: "entry \<Rightarrow> entry \<Rightarrow> bool" where
  "same e e' =
     (kind e' = kind e \<and> name e' = name e \<and> parent e' = parent e
      \<and> fileSystem e' = fileSystem e
      \<and> p_useCaseSensitiveFileNames e' = p_useCaseSensitiveFileNames e
      \<and> p_currentDirectory e' = p_currentDirectory e
      \<and> p_readOnly e' = p_readOnly e
      \<and> p_content e' = p_content e \<and> p_contentResolver e' = p_contentResolver e
      \<and> p_fileTarget e' = p_fileTarget e \<and> p_targetPath e' = p_targetPath e)"

definition framed :: "ref set \<Rightarrow> store \<Rightarrow> store \<Rightarrow> bool" where
  "framed X s s' =
     (length s \<le> length s'
      \<and> (\<forall>i<length s. same (s ! i) (s' ! i)
            \<and> (i \<notin> X \<longrightarrow> p_entries (s ! i) \<noteq> None \<longrightarrow> p_entries (s' ! i) = p_entries (s ! i))))"

text \<open>
  \<open>pres T R m\<close>: whenever the computation \<open>m\<close> returns, the stores before and after are
  related by \<open>R\<close>; when \<open>T\<close> is false it never throws, when \<open>T\<close> is true a throw relates the
  stores by \<open>R\<close> as well.
\<close>

definition pres :: "bool \<Rightarrow> (store \<Rightarrow> store \<Rightarrow> bool) \<Rightarrow> 'a M \<Rightarrow> bool" where
  "pres T R m =
     (\<forall>s. case m s of Ok x s' \<Rightarrow> R s s' | Throw e s' \<Rightarrow> T \<and> R s s' | OutOfFuel \<Rightarrow> True)"

definition lookupPres :: "bool \<Rightarrow> (store \<Rightarrow> store \<Rightarrow> bool) \<Rightarrow> lookup \<Rightarrow> bool" where
  "lookupPres T R L =
     ((\<forall>this. pres T R (call_getOwnEntries L this))
      \<and> (\<forall>this opts. pres T R (call_getEntries L this opts))
      \<and> (\<forall>this pth opts. pres T R (call_getEntry L this pth opts))
      \<and> (\<forall>this pth opts. pres T R (call_getDirectory L this pth opts))
      \<and> (\<forall>this pth opts. pres T R (call_getFile L this pth opts))
      \<and> (\<forall>vfs entry. pres T R (call_getRealEntry L vfs entry))
      \<and> (\<forall>vfs tgt visited. pres T R (call_findTarget L vfs tgt visited))
      \<and> (\<forall>this. pres T R (call_resolveTarget L this))
      \<and> (\<forall>this. pres T R (call_getRealDirectory L this)))"

section \<open>Unfolding the recursive knots\<close>

text \<open>
  The operations at a positive budget are their step over the operations at the budget
  below; at budget zero they give up.
\<close>

declare lookupAt.simps [simp del] mutationAt.simps [simp del]

lemma call_getOwnEntries_lookupAt [simp]: "call_getOwnEntries (lookupAt n E) = getOwnEntries n E"
  by (simp add: getOwnEntries_def)

lemma call_getEntries_lookupAt [simp]: "call_getEntries (lookupAt n E) = getEntries n E"
  by (simp add: getEntries_def)

lemma call_getEntry_lookupAt [simp]: "call_getEntry (lookupAt n E) = getEntry n E"
  by (simp add: getEntry_def)

lemma call_getDirectory_lookupAt [simp]: "call_getDirectory (lookupAt n E) = getDirectory n E"
  by (simp add: getDirectory_def)

lemma call_getFile_lookupAt [simp]: "call_getFile (lookupAt n E) = getFile n E"
  by (simp add: getFile_def)

lemma call_getRealEntry_lookupAt [simp]: "call_getRealEntry (lookupAt n E) = getRealEntry n E"
  by (simp add: getRealEntry_def)

lemma call_findTarget_lookupAt [simp]: "call_findTarget (lookupAt n E) = findTarget n E"
  by (simp add: findTarget_def)

lemma call_resolveTarget_lookupAt [simp]: "call_resolveTarget (lookupAt n E) = resolveTarget n E"
  by (simp add: resolveTarget_def)

lemma call_getRealDirectory_lookupAt [simp]: "call_getRealDirectory (lookupAt n E) = getRealDirectory n E"
  by (simp add: getRealDirectory_def)

lemma getOwnEntries_0 [simp]: "getOwnEntries 0 E this = outOfFuel"
  by (simp add: getOwnEntries_def lookupAt.simps)

lemma getOwnEntries_Suc: "getOwnEntries (Suc n) E this s = getOwnEntries_step n E (lookupAt n E) this s"
  by (simp add: getOwnEntries_def Let_def lookupAt.simps)

lemma getEntries_0 [simp]: "getEntries 0 E this opts = outOfFuel"
  by (simp add: getEntries_def lookupAt.simps)

lemma getEntries_Suc: "getEntries (Suc n) E this opts s = getEntries_step (lookupAt n E) this opts s"
  by (simp add: getEntries_def Let_def lookupAt.simps)

lemma getEntry_0 [simp]: "getEntry 0 E this pth opts = outOfFuel"
  by (simp add: getEntry_def lookupAt.simps)

lemma getEntry_Suc: "getEntry (Suc n) E this pth opts s = getEntry_step n E (lookupAt n E) this pth opts s"
  by (simp add: getEntry_def Let_def lookupAt.simps)

lemma getDirectory_0 [simp]: "getDirectory 0 E this pth opts = outOfFuel"
  by (simp add: getDirectory_def lookupAt.simps)

lemma getDirectory_Suc: "getDirectory (Suc n) E this pth opts s = getDirectory_step n E (lookupAt n E) this pth opts s"
  by (simp add: getDirectory_def Let_def lookupAt.simps)

lemma getFile_0 [simp]: "getFile 0 E this pth opts = outOfFuel"
  by (simp add: getFile_def lookupAt.simps)

lemma getFile_Suc: "getFile (Suc n) E this pth opts s = getFile_step n E (lookupAt n E) this pth opts s"
  by (simp add: getFile_def Let_def lookupAt.simps)

lemma getRealEntry_0 [simp]: "getRealEntry 0 E vfs entry = outOfFuel"
  by (simp add: getRealEntry_def lookupAt.simps)

lemma getRealEntry_Suc: "getRealEntry (Suc n) E vfs entry s = getRealEntry_step (lookupAt n E) vfs entry s"
  by (simp add: getRealEntry_def Let_def lookupAt.simps)

lemma findTarget_0 [simp]: "findTarget 0 E vfs tgt visited = outOfFuel"
  by (simp add: findTarget_def lookupAt.simps)

lemma findTarget_Suc: "findTarget (Suc n) E vfs tgt visited s = findTarget_step (lookupAt n E) vfs tgt visited s"
  by (simp add: findTarget_def Let_def lookupAt.simps)

lemma resolveTarget_0 [simp]: "resolveTarget 0 E this = outOfFuel"
  by (simp add: resolveTarget_def lookupAt.simps)

lemma resolveTarget_Suc: "resolveTarget (Suc n) E this s = resolveTarget_step (lookupAt n E) this s"
  by (simp add: resolveTarget_def Let_def lookupAt.simps)

lemma getRealDirectory_0 [simp]: "getRealDirectory 0 E this = outOfFuel"
  by (simp add: getRealDirectory_def lookupAt.simps)

lemma getRealDirectory_Suc: "getRealDirectory (Suc n) E this s = getRealDirectory_step (lookupAt n E) this s"
  by (simp add: getRealDirectory_def Let_def lookupAt.simps)

lemma call_emit_mutationAt [simp]: "call_emit (mutationAt n E) = emit n E"
  by (simp add: emit_def)

lemma call_ensureDirectory_mutationAt [simp]: "call_ensureDirectory (mutationAt n E) = ensureDirectory n E"
  by (simp add: ensureDirectory_def)

lemma call_addDirectory_mutationAt [simp]: "call_addDirectory (mutationAt n E) = addDirectory n E"
  by (simp add: addDirectory_def)

lemma call_addFile_mutationAt [simp]: "call_addFile (mutationAt n E) = addFile n E"
  by (simp add: addFile_def)

lemma call_addSymlink_mutationAt [simp]: "call_addSymlink (mutationAt n E) = addSymlink n E"
  by (simp add: addSymlink_def)

lemma call_removeDirectory_mutationAt [simp]: "call_removeDirectory (mutationAt n E) = removeDirectory n E"
  by (simp add: removeDirectory_def)

lemma call_removeFile_mutationAt [simp]: "call_removeFile (mutationAt n E) = removeFile n E"
  by (simp add: removeFile_def)

lemma emit_0 [simp]: "emit 0 E this ev entry = outOfFuel"
  by (simp add: emit_def mutationAt.simps)

lemma emit_Suc: "emit (Suc n) E this ev entry s = emit_step n E (mutationAt n E) this ev entry s"
  by (simp add: emit_def Let_def mutationAt.simps)

lemma ensureDirectory_0 [simp]: "ensureDirectory 0 E this pth = outOfFuel"
  by (simp add: ensureDirectory_def mutationAt.simps)

lemma ensureDirectory_Suc: "ensureDirectory (Suc n) E this pth s = ensureDirectory_step E (mutationAt n E) this pth s"
  by (simp add: ensureDirectory_def Let_def mutationAt.simps)

lemma addDirectory_0 [simp]: "addDirectory 0 E this pth rslv = outOfFuel"
  by (simp add: addDirectory_def mutationAt.simps)

lemma addDirectory_Suc: "addDirectory (Suc n) E this pth rslv s = addDirectory_step n E (mutationAt n E) this pth rslv s"
  by (simp add: addDirectory_def Let_def mutationAt.simps)

lemma addFile_0 [simp]: "addFile 0 E this pth content = outOfFuel"
  by (simp add: addFile_def mutationAt.simps)

lemma addFile_Suc: "addFile (Suc n) E this pth content s = addFile_step n E (mutationAt n E) this pth content s"
  by (simp add: addFile_def Let_def mutationAt.simps)

lemma addSymlink_0 [simp]: "addSymlink 0 E this pth tgt = outOfFuel"
  by (simp add: addSymlink_def mutationAt.simps)

lemma addSymlink_Suc: "addSymlink (Suc n) E this pth tgt s = addSymlink_step n E (mutationAt n E) this pth tgt s"
  by (simp add: addSymlink_def Let_def mutationAt.simps)

lemma removeDirectory_0 [simp]: "removeDirectory 0 E this pth = outOfFuel"
  by (simp add: removeDirectory_def mutationAt.simps)

lemma removeDirectory_Suc: "removeDirectory (Suc n) E this pth s = removeDirectory_step n E (mutationAt n E) this pth s"
  by (simp add: removeDirectory_def Let_def mutationAt.simps)

lemma removeFile_0 [simp]: "removeFile 0 E this pth = outOfFuel"
  by (simp add: removeFile_def mutationAt.simps)

lemma removeFile_Suc: "removeFile (Suc n) E this pth s = removeFile_step n E (mutationAt n E) this pth s"
  by (simp add: removeFile_def Let_def mutationAt.simps)


text \<open>Rule sets for running the operations on a given store.\<close>

lemmas knot_Suc = getOwnEntries_Suc getEntries_Suc getEntry_Suc getDirectory_Suc getFile_Suc
  getRealEntry_Suc findTarget_Suc resolveTarget_Suc getRealDirectory_Suc emit_Suc
  ensureDirectory_Suc addDirectory_Suc addFile_Suc addSymlink_Suc removeDirectory_Suc
  removeFile_Suc

lemmas step_defs = getOwnEntries_step_def getEntries_step_def getEntry_step_def
  getDirectory_step_def getFile_step_def getRealEntry_step_def findTarget_step_def
  resolveTarget_step_def getRealDirectory_step_def emit_step_def ensureDirectory_step_def
  addDirectory_step_def addFile_step_def addSymlink_step_def removeDirectory_step_def
  removeFile_step_def

lemmas step_apply = step_defs [THEN fun_cong]

lemmas monad_defs = bnd_def ret_def throw_def gets_def modify_def upd_def outOfFuel_def

lemmas monad_apply = monad_defs [THEN fun_cong]

lemmas vfs_defs = newEntry_def newVirtualFileSystem_def newVirtualDirectory_def
  newVirtualDirectoryRoot_def newVirtualDirectorySymlink_def newVirtualFile_def
  newVirtualFileSymlink_def isReadOnly_def writePreamble_def target_def clone_def on_def
  removeListener_def currentDirectory_def pushOwnEntry_def getWrappedEntry_def getRealFile_def
  invalidateTarget_def setTarget_def isBroken_def spliceOwnEntry_def pushSymEntry_def spliceSymEntry_def
  onTargetParentChildRemoved_def onTargetChildAdded_def onTargetChildRemoved_def
  changeDirectory_def cloneFileSystem_def entryNames_def

lemmas vfs_apply = vfs_defs [THEN fun_cong]

lemmas pure_defs = listeners_def setListeners_def removeLast_def isMatch_def sameName_def
  mapSet_def mapDelete_def splice1_def isDirectoryKind_def isFileKind_def isSymlinkKind_def
  noOptions_def blankEntry_def

lemmas env_defs = simpleEnv_def simple_basename_def simple_dirname_def simple_combine_def
  simple_resolve_def sep_def

lemma compareStrings_eq_0:
  assumes "collator E = None"
  shows "(compareStrings E a b False = 0) = (a = b)"
proof (cases "a = b")
  case True
  then show ?thesis by (simp add: compareStrings_def)
next
  case False
  then have "a < b \<or> b < a" by (simp only: neq_iff)
  with False assms show ?thesis
    by (cases "a < b") (simp_all add: compareStrings_def)
qed

declare path.simps [simp del] makeReadOnly.simps [simp del] makeReadOnlyCore.simps [simp del]
  root.simps [simp del] getContent.simps [simp del] setContent.simps [simp del]
  forEach.simps [simp del] mapM.simps [simp del] foldUntilUndefined.simps [simp del]

lemmas fun_apply = path.simps(2)[THEN fun_cong] makeReadOnly.simps(2)[THEN fun_cong]
  makeReadOnlyCore.simps(2)[THEN fun_cong] root.simps(2)[THEN fun_cong]
  getContent.simps(2)[THEN fun_cong] setContent.simps(2)[THEN fun_cong]
  path.simps(1) makeReadOnly.simps(1) makeReadOnlyCore.simps(1) root.simps(1)
  getContent.simps(1) setContent.simps(1)

lemmas loops_apply = forEach.simps[THEN fun_cong] mapM.simps[THEN fun_cong]
  foldUntilUndefined.simps[THEN fun_cong]

lemma if_apply: "(if c then f else g) s = (if c then f s else g s)"
  by simp

lemmas run = knot_Suc step_apply monad_apply vfs_apply pure_defs env_defs compareStrings_eq_0
  fun_apply loops_apply if_apply numeral_eq_Suc returned_def

section \<open>Paths and lazy population\<close>

lemma nth_list_update_if:
  "(xs[i := x]) ! j = (if i = j \<and> i < length xs then x else xs ! j)"
  by (cases "i < length xs") (simp_all add: nth_list_update list_update_beyond)

lemma path_frame:
  "path n E x s = Ok p s' \<Longrightarrow>
     length s' = length s \<and> (\<forall>i. (s' ! i)\<lparr>p_path := None\<rparr> = (s ! i)\<lparr>p_path := None\<rparr>)"
proof (induction n arbitrary: x s p s')
  case 0
  then show ?case by (simp add: fun_apply monad_apply)
next
  case (Suc n)
  show ?case
  proof (cases "path n E (parent (s ! x)) s")
    case (Ok pp s1)
    from Suc.IH [OF Ok] have f: "length s1 = length s"
      "\<And>i. (s1 ! i)\<lparr>p_path := None\<rparr> = (s ! i)\<lparr>p_path := None\<rparr>" by auto
    with Suc.prems Ok show ?thesis
      by (auto simp add: fun_apply monad_apply if_apply nth_list_update_if
            split: if_splits option.splits list.splits)
  next
    case (Throw e s1)
    with Suc.prems show ?thesis
      by (auto simp add: fun_apply monad_apply if_apply split: if_splits option.splits list.splits)
  next
    case OutOfFuel
    with Suc.prems show ?thesis
      by (auto simp add: fun_apply monad_apply if_apply split: if_splits option.splits list.splits)
  qed
qed

lemma path_frame_fields:
  assumes "path n E x s = Ok p s'"
  shows "length s' = length s" and "kind (s' ! i) = kind (s ! i)"
    and "p_entries (s' ! i) = p_entries (s ! i)" and "p_readOnly (s' ! i) = p_readOnly (s ! i)"
    and "p_resolver (s' ! i) = p_resolver (s ! i)" and "p_shadowRoot (s' ! i) = p_shadowRoot (s ! i)"
    and "name (s' ! i) = name (s ! i)" and "fileSystem (s' ! i) = fileSystem (s ! i)"
    and "parent (s' ! i) = parent (s ! i)"
proof -
  from path_frame [OF assms] have l: "length s' = length s"
    and e: "(s' ! i)\<lparr>p_path := None\<rparr> = (s ! i)\<lparr>p_path := None\<rparr>" by auto
  show "length s' = length s" by (rule l)
  from arg_cong [OF e, of kind] show "kind (s' ! i) = kind (s ! i)" by simp
  from arg_cong [OF e, of p_entries] show "p_entries (s' ! i) = p_entries (s ! i)" by simp
  from arg_cong [OF e, of p_readOnly] show "p_readOnly (s' ! i) = p_readOnly (s ! i)" by simp
  from arg_cong [OF e, of p_resolver] show "p_resolver (s' ! i) = p_resolver (s ! i)" by simp
  from arg_cong [OF e, of p_shadowRoot] show "p_shadowRoot (s' ! i) = p_shadowRoot (s ! i)" by simp
  from arg_cong [OF e, of name] show "name (s' ! i) = name (s ! i)" by simp
  from arg_cong [OF e, of fileSystem] show "fileSystem (s' ! i) = fileSystem (s ! i)" by simp
  from arg_cong [OF e, of parent] show "parent (s' ! i) = parent (s ! i)" by simp
qed

text \<open>
  The path of an entry does not depend on the fields that lazy population resets: a
  change of such fields of one object commutes with computing a path.
\<close>

lemma path_update_commute:
  assumes g: "\<And>e. kind (g e) = kind e \<and> p_path (g e) = p_path e \<and> parent (g e) = parent e
                 \<and> name (g e) = name e"
    and c: "\<And>e v. g (e\<lparr>p_path := v\<rparr>) = (g e)\<lparr>p_path := v\<rparr>"
  shows "path n E x (s[d := g (s ! d)])
         = (case path n E x s of Ok p s' \<Rightarrow> Ok p (s'[d := g (s' ! d)])
            | Throw e s' \<Rightarrow> Throw e (s'[d := g (s' ! d)]) | OutOfFuel \<Rightarrow> OutOfFuel)"
proof (induction n arbitrary: x s)
  case 0
  show ?case by (simp add: fun_apply monad_apply)
next
  case (Suc n)
  let ?t = "s[d := g (s ! d)]"
  have same: "kind (?t ! x) = kind (s ! x)" "p_path (?t ! x) = p_path (s ! x)"
    "parent (?t ! x) = parent (s ! x)" "name (?t ! x) = name (s ! x)"
    using g by (simp_all add: nth_list_update_if)
  have unfold: "path (Suc n) E x u =
      (if kind (u ! x) = KFileSystem then Ok [] u
       else case p_path (u ! x) of
          Some (c # cs) \<Rightarrow> Ok (c # cs) u
        | _ \<Rightarrow> (case path n E (parent (u ! x)) u of
                  Ok pp u1 \<Rightarrow> Ok (combine E pp (name (u ! x)))
                                 (u1[x := (u1 ! x)\<lparr>p_path := Some (combine E pp (name (u1 ! x)))\<rparr>])
                | Throw e u1 \<Rightarrow> Throw e u1 | OutOfFuel \<Rightarrow> OutOfFuel))" for u
    by (simp add: fun_apply monad_apply if_apply split: option.splits list.splits outcome.splits)
  have u: "s1[d := g (s1 ! d),
              x := (s1[d := g (s1 ! d)] ! x)
                     \<lparr>p_path := Some (h (name (s1[d := g (s1 ! d)] ! x)))\<rparr>]
           = s1[x := (s1 ! x)\<lparr>p_path := Some (h (name (s1 ! x)))\<rparr>,
                d := g (s1[x := (s1 ! x)\<lparr>p_path := Some (h (name (s1 ! x)))\<rparr>] ! d)]"
    for h s1
  proof (cases "x = d")
    case True
    then show ?thesis using c g by (cases "d < length s1") (simp_all add: list_update_beyond)
  next
    case False
    then show ?thesis by (simp add: list_update_swap)
  qed
  show ?case
    unfolding unfold [of ?t] unfold [of s] same Suc.IH [of "parent (s ! x)" s]
    using u by (simp split: option.splits list.splits outcome.splits)
qed

lemma makeReadOnly_unpopulated:
  assumes "kind (t ! v) \<noteq> KFileSystem" and "p_entries (t ! v) = None"
  shows "makeReadOnly (Suc (Suc m)) v t = Ok () (t[v := (t ! v)\<lparr>p_readOnly := True\<rparr>])"
  using assms by (simp add: fun_apply monad_apply if_apply)

text \<open>
  One round of a population loop: create the child, freeze it when the directory is
  read-only, push it.
\<close>

lemma populate_child:
  assumes mk: "mk x t = Ok (length t) (t @ [obj])"
    and obj: "kind obj \<noteq> KFileSystem" "p_entries obj = None" "\<not> p_readOnly obj"
    and d: "d < length t" "kind (t ! d) \<noteq> KDirectorySymlink" "p_entries (t ! d) = Some acc"
  shows "bnd (mk x) (\<lambda>v. bnd (isReadOnly d) (\<lambda>ro.
           bnd (if ro then makeReadOnly (Suc (Suc m)) v else ret ()) (\<lambda>_. pushOwnEntry d v))) t
         = Ok () ((t @ [obj\<lparr>p_readOnly := p_readOnly (t ! d)\<rparr>])
                    [d := (t ! d)\<lparr>p_entries := Some (acc @ [length t])\<rparr>])"
proof (cases "p_readOnly (t ! d)")
  case True
  have "makeReadOnly (Suc (Suc m)) (length t) (t @ [obj])
        = Ok () ((t @ [obj])[length t := ((t @ [obj]) ! length t)\<lparr>p_readOnly := True\<rparr>])"
    by (rule makeReadOnly_unpopulated) (simp_all add: obj)
  with True mk d show ?thesis
    by (simp add: monad_apply if_apply isReadOnly_def pushOwnEntry_def nth_append)
next
  case False
  from obj(3) have "obj\<lparr>p_readOnly := False\<rparr> = obj" by (cases obj) simp
  with False mk d show ?thesis
    by (simp add: monad_apply if_apply isReadOnly_def pushOwnEntry_def nth_append)
qed

lemma populate_loop:
  assumes mk: "\<And>x t. d < length t \<Longrightarrow> kind (t ! d) = kd \<Longrightarrow> fileSystem (t ! d) = fd
                 \<Longrightarrow> mk x t = Ok (length t) (t @ [obj x])"
    and obj: "\<And>x. kind (obj x) \<noteq> KFileSystem \<and> p_entries (obj x) = None \<and> \<not> p_readOnly (obj x)"
    and kd: "kd \<noteq> KDirectorySymlink"
  shows "d < length t \<Longrightarrow> kind (t ! d) = kd \<Longrightarrow> fileSystem (t ! d) = fd
         \<Longrightarrow> p_entries (t ! d) = Some acc \<Longrightarrow>
         \<exists>t'. forEach xs (\<lambda>x. bnd (mk x) (\<lambda>v. bnd (isReadOnly d) (\<lambda>ro.
                  bnd (if ro then makeReadOnly (Suc (Suc m)) v else ret ()) (\<lambda>_.
                  pushOwnEntry d v)))) t = Ok () t'
            \<and> length t' = length t + length xs
            \<and> (\<forall>i<length t. i \<noteq> d \<longrightarrow> t' ! i = t ! i)
            \<and> t' ! d = (t ! d)\<lparr>p_entries := Some (acc @ [length t ..< length t + length xs])\<rparr>
            \<and> (\<forall>j<length xs. t' ! (length t + j)
                                = (obj (xs ! j))\<lparr>p_readOnly := p_readOnly (t ! d)\<rparr>)"
proof (induction xs arbitrary: t acc)
  case Nil
  then show ?case by (simp add: loops_apply monad_apply)
next
  case (Cons x xs)
  let ?t1 = "(t @ [(obj x)\<lparr>p_readOnly := p_readOnly (t ! d)\<rparr>])
               [d := (t ! d)\<lparr>p_entries := Some (acc @ [length t])\<rparr>]"
  have step: "bnd (mk x) (\<lambda>v. bnd (isReadOnly d) (\<lambda>ro.
                  bnd (if ro then makeReadOnly (Suc (Suc m)) v else ret ()) (\<lambda>_.
                  pushOwnEntry d v))) t = Ok () ?t1"
    using populate_child [where mk = mk and x = x and t = t and obj = "obj x" and d = d
                            and acc = acc and m = m]
      mk [OF Cons.prems(1,2,3), of x] obj [of x] Cons.prems kd
    by simp
  have t1: "d < length ?t1" "kind (?t1 ! d) = kd" "fileSystem (?t1 ! d) = fd"
    "p_entries (?t1 ! d) = Some (acc @ [length t])" "length ?t1 = Suc (length t)"
    "p_readOnly (?t1 ! d) = p_readOnly (t ! d)"
    using Cons.prems by (simp_all add: nth_append)
  from Cons.IH [OF t1(1,2,3,4)] obtain t' where
    run: "forEach xs (\<lambda>x. bnd (mk x) (\<lambda>v. bnd (isReadOnly d) (\<lambda>ro.
                  bnd (if ro then makeReadOnly (Suc (Suc m)) v else ret ()) (\<lambda>_.
                  pushOwnEntry d v)))) ?t1 = Ok () t'"
    and len: "length t' = length ?t1 + length xs"
    and old: "\<forall>i<length ?t1. i \<noteq> d \<longrightarrow> t' ! i = ?t1 ! i"
    and dir: "t' ! d = (?t1 ! d)\<lparr>p_entries :=
                Some ((acc @ [length t]) @ [length ?t1 ..< length ?t1 + length xs])\<rparr>"
    and new: "\<forall>j<length xs. t' ! (length ?t1 + j)
                 = (obj (xs ! j))\<lparr>p_readOnly := p_readOnly (?t1 ! d)\<rparr>"
    by blast
  have a: "forEach (x # xs) (\<lambda>x. bnd (mk x) (\<lambda>v. bnd (isReadOnly d) (\<lambda>ro.
                  bnd (if ro then makeReadOnly (Suc (Suc m)) v else ret ()) (\<lambda>_.
                  pushOwnEntry d v)))) t = Ok () t'"
    using step run by (simp add: loops_apply bnd_def)
  have b: "length t' = length t + length (x # xs)"
    using len t1(5) by simp
  have c: "\<forall>i<length t. i \<noteq> d \<longrightarrow> t' ! i = t ! i"
    using old t1(5) by (simp add: nth_append)
  have d': "t' ! d = (t ! d)\<lparr>p_entries :=
              Some (acc @ [length t ..< length t + length (x # xs)])\<rparr>"
    using dir t1(5) Cons.prems(1) by (simp add: upt_conv_Cons del: upt_Suc)
  have e: "\<forall>j<length (x # xs). t' ! (length t + j)
            = (obj ((x # xs) ! j))\<lparr>p_readOnly := p_readOnly (t ! d)\<rparr>"
  proof (intro allI impI)
    fix j assume j: "j < length (x # xs)"
    show "t' ! (length t + j) = (obj ((x # xs) ! j))\<lparr>p_readOnly := p_readOnly (t ! d)\<rparr>"
    proof (cases j)
      case 0
      have "t' ! length t = ?t1 ! length t"
        using old t1(5) Cons.prems(1) by simp
      with 0 Cons.prems(1) show ?thesis by (simp add: nth_append)
    next
      case (Suc k)
      with j new t1(5,6) show ?thesis by simp
    qed
  qed
  from a b c d' e show ?case by blast
qed

lemma isMatch_noOptions [simp]: "isMatch s e noOptions"
  by (simp add: isMatch_def noOptions_def)

lemma listing_of_populated_directory:
  assumes "kind (t ! d) = KDirectory \<or> kind (t ! d) = KDirectoryRoot"
    and "p_entries (t ! d) = Some es"
  shows "getEntries (Suc (Suc k)) E d noOptions t = Ok es t"
  using assms
  by (auto simp add: getEntries_Suc getEntries_step_def getOwnEntries_Suc getOwnEntries_step_def
        monad_apply noOptions_def isMatch_def)

section \<open>Rules for what a computation preserves\<close>

lemma presD_Ok: "pres T R m \<Longrightarrow> m s = Ok x s' \<Longrightarrow> R s s'"
  by (auto simp add: pres_def split: outcome.splits dest: spec [of _ s])

lemma presD_Throw: "pres T R m \<Longrightarrow> m s = Throw e s' \<Longrightarrow> T \<and> R s s'"
  by (auto simp add: pres_def split: outcome.splits dest: spec [of _ s])

lemma pres_after:
  assumes "pres T R m" and "transp R" and "R s u"
  shows "case m u of Ok x s' \<Rightarrow> R s s' | Throw e s' \<Rightarrow> T \<and> R s s' | OutOfFuel \<Rightarrow> True"
proof (cases "m u")
  case (Ok x s')
  from presD_Ok [OF assms(1) Ok] assms(2,3) have "R s s'" by (auto dest: transpD)
  with Ok show ?thesis by simp
next
  case (Throw e s')
  from presD_Throw [OF assms(1) Throw] assms(2,3) have "T \<and> R s s'" by (auto dest: transpD)
  with Throw show ?thesis by simp
next
  case OutOfFuel
  then show ?thesis by simp
qed

lemma pres_weaken:
  assumes "pres T R m" and "\<And>s s'. R s s' \<Longrightarrow> R' s s'" and "T \<Longrightarrow> T'"
  shows "pres T' R' m"
  using assms by (auto simp add: pres_def split: outcome.splits)

lemma pres_ret: "reflp R \<Longrightarrow> pres T R (ret x)"
  by (simp add: pres_def ret_def reflp_def)

lemma pres_gets: "reflp R \<Longrightarrow> pres T R (gets f)"
  by (simp add: pres_def gets_def reflp_def)

lemma pres_outOfFuel: "pres T R outOfFuel"
  by (simp add: pres_def outOfFuel_def)

lemma pres_throw: "reflp R \<Longrightarrow> pres True R (throw e)"
  by (simp add: pres_def throw_def reflp_def)

lemma pres_bnd:
  assumes "transp R" and "pres T R m" and "\<And>x. pres T R (f x)"
  shows "pres T R (bnd m f)"
proof (unfold pres_def, intro allI)
  fix s
  show "case bnd m f s of Ok x s' \<Rightarrow> R s s' | Throw e s' \<Rightarrow> T \<and> R s s' | OutOfFuel \<Rightarrow> True"
  proof (cases "m s")
    case (Ok x s1)
    from presD_Ok [OF assms(2) Ok] have r1: "R s s1" .
    show ?thesis
    proof (cases "f x s1")
      case (Ok y s2)
      from presD_Ok [OF assms(3) Ok] r1 assms(1) have "R s s2" by (auto dest: transpD)
      with Ok \<open>m s = Ok x s1\<close> show ?thesis by (simp add: bnd_def)
    next
      case (Throw e s2)
      from presD_Throw [OF assms(3) Throw] r1 assms(1) have "T \<and> R s s2" by (auto dest: transpD)
      with Throw \<open>m s = Ok x s1\<close> show ?thesis by (simp add: bnd_def)
    next
      case OutOfFuel
      with \<open>m s = Ok x s1\<close> show ?thesis by (simp add: bnd_def)
    qed
  next
    case (Throw e s1)
    from presD_Throw [OF assms(2) Throw] Throw show ?thesis by (simp add: bnd_def)
  next
    case OutOfFuel
    then show ?thesis by (simp add: bnd_def)
  qed
qed

lemma pres_if: "pres T R a \<Longrightarrow> pres T R b \<Longrightarrow> pres T R (if c then a else b)"
  by simp

lemma pres_option:
  "pres T R a \<Longrightarrow> (\<And>y. pres T R (b y)) \<Longrightarrow> pres T R (case x of None \<Rightarrow> a | Some y \<Rightarrow> b y)"
  by (cases x) simp_all

lemma pres_prod: "(\<And>a b. pres T R (f a b)) \<Longrightarrow> pres T R (case p of (a, b) \<Rightarrow> f a b)"
  by (cases p) simp

lemma pres_list:
  "pres T R a \<Longrightarrow> (\<And>y ys. pres T R (b y ys)) \<Longrightarrow> pres T R (case xs of [] \<Rightarrow> a | y # ys \<Rightarrow> b y ys)"
  by (cases xs) simp_all

lemma pres_handler:
  "pres T R a \<Longrightarrow> pres T R b \<Longrightarrow> pres T R c \<Longrightarrow>
   pres T R (case h of OnTargetParentChildRemoved \<Rightarrow> a | OnTargetChildAdded \<Rightarrow> b
                     | OnTargetChildRemoved \<Rightarrow> c)"
  by (cases h) simp_all

lemma pres_kind:
  "pres T R a \<Longrightarrow> pres T R b \<Longrightarrow> pres T R c \<Longrightarrow> pres T R d \<Longrightarrow> pres T R e \<Longrightarrow> pres T R f \<Longrightarrow>
   pres T R (case k of KFileSystem \<Rightarrow> a | KDirectory \<Rightarrow> b | KDirectoryRoot \<Rightarrow> c
                     | KDirectorySymlink \<Rightarrow> d | KFile \<Rightarrow> e | KFileSymlink \<Rightarrow> f)"
  by (cases k) simp_all

lemma pres_symlink_target:
  "(\<And>t. pres T R (a t)) \<Longrightarrow> (\<And>t. pres T R (b t)) \<Longrightarrow>
   pres T R (case tgt of TargetPath t \<Rightarrow> a t | TargetEntry t \<Rightarrow> b t)"
  by (cases tgt) simp_all

lemma pres_forEach:
  assumes "reflp R" and "transp R" and "\<And>x. pres T R (f x)"
  shows "pres T R (forEach xs f)"
  by (induction xs) (simp_all add: forEach.simps pres_ret pres_bnd assms)

lemma pres_mapM:
  assumes "reflp R" and "transp R" and "\<And>x. pres T R (f x)"
  shows "pres T R (mapM xs f)"
  by (induction xs) (simp_all add: mapM.simps pres_ret pres_bnd assms)

lemma pres_foldUntilUndefined:
  assumes "reflp R" and "transp R" and "\<And>a x. pres T R (f a x)"
  shows "pres T R (foldUntilUndefined xs a f)"
  by (induction xs arbitrary: a)
     (simp_all add: foldUntilUndefined.simps pres_ret pres_bnd pres_option assms)

lemma pres_modify: "(\<And>s. R s (g s)) \<Longrightarrow> pres T R (modify g)"
  by (simp add: pres_def modify_def)

section \<open>The frame relation\<close>

lemma same_refl [simp]: "same e e"
  by (simp add: same_def)

lemma same_trans: "same a b \<Longrightarrow> same b c \<Longrightarrow> same a c"
  by (simp add: same_def)

lemma framed_refl: "reflp (framed X)"
  by (simp add: reflp_def framed_def)

lemma framed_trans: "transp (framed X)"
proof (rule transpI)
  fix s t u
  assume a: "framed X s t" and b: "framed X t u"
  show "framed X s u"
    unfolding framed_def
  proof (intro conjI allI impI)
    from a b show "length s \<le> length u" by (simp add: framed_def)
  next
    fix i assume i: "i < length s"
    with a have it: "i < length t" by (simp add: framed_def)
    from a i have 1: "same (s ! i) (t ! i)" by (simp add: framed_def)
    from b it have 2: "same (t ! i) (u ! i)" by (simp add: framed_def)
    from 1 2 show "same (s ! i) (u ! i)" by (rule same_trans)
  next
    fix i assume i: "i < length s" and x: "i \<notin> X" and p: "p_entries (s ! i) \<noteq> None"
    with a have it: "i < length t" by (simp add: framed_def)
    from a i x p have 1: "p_entries (t ! i) = p_entries (s ! i)" by (simp add: framed_def)
    with p have "p_entries (t ! i) \<noteq> None" by simp
    with b it x have "p_entries (u ! i) = p_entries (t ! i)" by (simp add: framed_def)
    with 1 show "p_entries (u ! i) = p_entries (s ! i)" by simp
  qed
qed

lemma framed_mono: "framed X s s' \<Longrightarrow> X \<subseteq> Y \<Longrightarrow> framed Y s s'"
  by (auto simp add: framed_def)

lemma pres_framed_mono: "pres T (framed X) m \<Longrightarrow> X \<subseteq> Y \<Longrightarrow> pres T (framed Y) m"
  by (erule pres_weaken) (auto intro: framed_mono)

lemma framed_upd:
  assumes "\<And>e. same e (g e)"
    and "\<And>e. this \<notin> X \<Longrightarrow> p_entries e \<noteq> None \<Longrightarrow> p_entries (g e) = p_entries e"
  shows "framed X s (s[this := g (s ! this)])"
  using assms by (auto simp add: framed_def nth_list_update_if)

lemma pres_upd:
  assumes "\<And>e. same e (g e)"
    and "\<And>e. this \<notin> X \<Longrightarrow> p_entries e \<noteq> None \<Longrightarrow> p_entries (g e) = p_entries e"
  shows "pres T (framed X) (upd this g)"
  unfolding upd_def by (rule pres_modify) (rule framed_upd [OF assms])

lemma framed_append: "framed X s (s @ xs)"
  by (simp add: framed_def nth_append)

lemma pres_newEntry: "pres T (framed X) (newEntry k (Some p) nm init)"
  by (simp add: pres_def newEntry_def Let_def framed_append)

lemmas framed_rules =
  pres_ret [OF framed_refl] pres_gets [OF framed_refl] pres_outOfFuel
  pres_bnd [OF framed_trans] pres_if pres_option pres_prod pres_list pres_handler
  pres_forEach [OF framed_refl framed_trans] pres_mapM [OF framed_refl framed_trans]
  pres_foldUntilUndefined [OF framed_refl framed_trans]

section \<open>What the building blocks of the read operations preserve\<close>

lemma pres_path: "pres T (framed X) (path n E x)"
proof (induction n arbitrary: x)
  case 0
  show ?case by (simp add: path.simps pres_outOfFuel)
next
  case (Suc n)
  show ?case
    unfolding path.simps
    by (intro framed_rules pres_upd Suc.IH) (simp_all add: same_def)
qed

lemma pres_target: "pres T (framed X) (target this)"
  unfolding target_def by (intro framed_rules)

lemma pres_isReadOnly: "pres T (framed X) (isReadOnly this)"
  unfolding isReadOnly_def by (intro framed_rules)

lemma pres_currentDirectory: "pres T (framed X) (currentDirectory this)"
  unfolding currentDirectory_def by (intro framed_rules)

lemma same_setListeners: "same e (setListeners ev ls e)"
  by (cases ev) (simp_all add: same_def setListeners_def)

lemma p_entries_setListeners: "p_entries (setListeners ev ls e) = p_entries e"
  by (cases ev) (simp_all add: setListeners_def)

lemma pres_on: "pres T (framed X) (on this ev l)"
  unfolding on_def by (rule pres_upd) (simp_all add: same_setListeners p_entries_setListeners)

lemma pres_removeListener: "pres T (framed X) (removeListener this ev l)"
  unfolding removeListener_def
  by (rule pres_upd) (simp_all add: same_setListeners p_entries_setListeners)

lemma pres_invalidateTarget: "pres T (framed X) (invalidateTarget this)"
  unfolding invalidateTarget_def
  by (intro framed_rules pres_removeListener pres_upd) (simp_all add: same_def)

lemma pres_newVirtualDirectory: "pres T (framed X) (newVirtualDirectory par nm r)"
  unfolding newVirtualDirectory_def by (rule pres_newEntry)

lemma pres_newVirtualDirectorySymlink: "pres T (framed X) (newVirtualDirectorySymlink par nm t)"
  unfolding newVirtualDirectorySymlink_def by (rule pres_newEntry)

lemma pres_newVirtualFile: "pres T (framed X) (newVirtualFile par nm c)"
  unfolding newVirtualFile_def by (rule pres_newEntry)

lemma pres_newVirtualFileSymlink: "pres T (framed X) (newVirtualFileSymlink par nm t)"
  unfolding newVirtualFileSymlink_def by (rule pres_newEntry)

lemma pres_getWrappedEntry: "pres T (framed X) (getWrappedEntry n E this entry)"
  unfolding getWrappedEntry_def
  by (intro framed_rules pres_kind pres_path pres_newVirtualFileSymlink
        pres_newVirtualDirectorySymlink pres_upd)
     (simp_all add: same_def)

lemma pres_pushSymEntry: "pres T (framed X) (pushSymEntry this x)"
  unfolding pushSymEntry_def by (rule pres_upd) (simp_all add: same_def)

lemma pres_spliceSymEntry: "pres T (framed X) (spliceSymEntry this i)"
  unfolding spliceSymEntry_def by (rule pres_upd) (simp_all add: same_def)

lemma pres_pushOwnEntry: "pres T (framed (insert this X)) (pushOwnEntry this x)"
  unfolding pushOwnEntry_def by (rule pres_upd) (simp_all add: same_def)

text \<open>\<open>makeReadOnly\<close> on an object that was created since the store \<open>s\<close>.\<close>

lemma makeReadOnly_fresh:
  assumes "kind (t ! v) \<noteq> KFileSystem" and "p_entries (t ! v) = None"
  shows "makeReadOnly n v t = OutOfFuel
       \<or> makeReadOnly n v t = Ok () (t[v := (t ! v)\<lparr>p_readOnly := True\<rparr>])"
proof (cases n)
  case 0
  then show ?thesis by (simp add: fun_apply monad_apply)
next
  case (Suc k)
  show ?thesis
  proof (cases k)
    case 0
    with Suc show ?thesis by (simp add: fun_apply monad_apply)
  next
    case (Suc m)
    with \<open>n = Suc k\<close> makeReadOnly_unpopulated [OF assms, of m] show ?thesis by simp
  qed
qed

lemma framed_update_new: "framed X s t \<Longrightarrow> length s \<le> v \<Longrightarrow> framed X s (t[v := e])"
  by (auto simp add: framed_def nth_list_update_if)

lemma framed_transD: "framed X s t \<Longrightarrow> framed X t u \<Longrightarrow> framed X s u"
  using framed_trans [of X] by (auto dest: transpD)

text \<open>
  One round of a population loop: create the child, freeze it when the directory is
  read-only, push it. Only the directory itself and the new object change.
\<close>

lemma pres_fresh_child:
  assumes mk: "\<And>s. \<exists>obj. mk s = Ok (length s) (s @ [obj]) \<and> p_entries obj = None
                        \<and> kind obj \<noteq> KFileSystem"
  shows "pres T (framed (insert this X))
           (bnd mk (\<lambda>v. bnd (isReadOnly this) (\<lambda>ro.
              bnd (if ro then makeReadOnly n v else ret ()) (\<lambda>_. pushOwnEntry this v))))"
proof (unfold pres_def, intro allI)
  fix s
  let ?X = "insert this X"
  from mk [of s] obtain obj where m: "mk s = Ok (length s) (s @ [obj])"
    and o: "p_entries obj = None" "kind obj \<noteq> KFileSystem" by blast
  let ?t = "s @ [obj]"
  have f1: "framed ?X s ?t" by (rule framed_append)
  have push: "\<And>u. framed ?X s u \<Longrightarrow>
      (case pushOwnEntry this (length s) u of Ok x s' \<Rightarrow> framed ?X s s'
         | Throw e s' \<Rightarrow> T \<and> framed ?X s s' | OutOfFuel \<Rightarrow> True)"
    by (rule pres_after [OF pres_pushOwnEntry framed_trans])
  show "case bnd mk (\<lambda>v. bnd (isReadOnly this) (\<lambda>ro.
              bnd (if ro then makeReadOnly n v else ret ()) (\<lambda>_. pushOwnEntry this v))) s of
          Ok x s' \<Rightarrow> framed ?X s s' | Throw e s' \<Rightarrow> T \<and> framed ?X s s' | OutOfFuel \<Rightarrow> True"
  proof (cases "p_readOnly (?t ! this)")
    case False
    with m push [OF f1] show ?thesis
      by (simp add: monad_apply isReadOnly_def if_apply)
  next
    case True
    have k: "kind (?t ! length s) \<noteq> KFileSystem" "p_entries (?t ! length s) = None"
      using o by simp_all
    from makeReadOnly_fresh [OF k, of n] show ?thesis
    proof
      assume "makeReadOnly n (length s) ?t = OutOfFuel"
      with m True show ?thesis by (simp add: monad_apply isReadOnly_def if_apply)
    next
      assume r: "makeReadOnly n (length s) ?t
                   = Ok () (?t[length s := (?t ! length s)\<lparr>p_readOnly := True\<rparr>])"
      have "framed ?X s (?t[length s := (?t ! length s)\<lparr>p_readOnly := True\<rparr>])"
        using f1 by (rule framed_update_new) simp
      from push [OF this] m True r show ?thesis
        by (simp add: monad_apply isReadOnly_def if_apply)
    qed
  qed
qed

lemma clone_fresh:
  "\<exists>obj. clone e par s = Ok (length s) (s @ [obj]) \<and> p_entries obj = None
         \<and> kind obj \<noteq> KFileSystem"
  by (simp add: clone_def target_def newVirtualDirectorySymlink_def newVirtualFileSymlink_def
        newVirtualFile_def newVirtualDirectory_def newEntry_def monad_apply if_apply
        blankEntry_def Let_def nth_append)

lemma newVirtualDirectory_fresh:
  "\<exists>obj. newVirtualDirectory par nm r s = Ok (length s) (s @ [obj]) \<and> p_entries obj = None
         \<and> kind obj \<noteq> KFileSystem"
  by (simp add: newVirtualDirectory_def newEntry_def blankEntry_def Let_def)

lemma newVirtualFile_fresh:
  "\<exists>obj. newVirtualFile par nm c s = Ok (length s) (s @ [obj]) \<and> p_entries obj = None
         \<and> kind obj \<noteq> KFileSystem"
  by (simp add: newVirtualFile_def newEntry_def blankEntry_def Let_def)

lemma pres_root: "pres T (framed X) (root n this)"
proof (cases n)
  case 0
  then show ?thesis by (simp add: root.simps pres_outOfFuel)
next
  case (Suc k)
  show ?thesis
  proof (unfold pres_def, intro allI)
    fix s
    show "case root n this s of Ok x s' \<Rightarrow> framed X s s' | Throw e s' \<Rightarrow> T \<and> framed X s s'
            | OutOfFuel \<Rightarrow> True"
    proof (cases "p_root (s ! this)")
      case (Some r)
      with Suc show ?thesis using framed_refl [of X]
        by (simp add: fun_apply monad_apply reflp_def)
    next
      case None
      let ?obj = "blankEntry KDirectoryRoot (fileSystem (s ! this))
                    (if kind (s ! this) = KDirectoryRoot then fileSystem (s ! this) else this) []"
      let ?t = "(s @ [?obj])[this := ((s @ [?obj]) ! this)\<lparr>p_root := Some (length s)\<rparr>]"
      have f: "framed X s ?t"
        by (auto simp add: framed_def nth_list_update_if nth_append same_def)
      have k: "kind (?t ! length s) \<noteq> KFileSystem" "p_entries (?t ! length s) = None"
        by (simp_all add: nth_list_update_if blankEntry_def)
      have f2: "framed X s (?t[length s := (?t ! length s)\<lparr>p_readOnly := True\<rparr>])"
        using f by (rule framed_update_new) simp
      from makeReadOnly_fresh [OF k, of k] None Suc f f2 show ?thesis
        by (auto simp add: fun_apply monad_apply if_apply isReadOnly_def
              newVirtualDirectoryRoot_def newEntry_def Let_def)
    qed
  qed
qed

section \<open>What the read operations preserve\<close>

lemma lookupPresD:
  assumes "lookupPres T R L"
  shows "pres T R (call_getOwnEntries L this)"
    and "pres T R (call_getEntries L this opts)"
    and "pres T R (call_getEntry L this pth opts)"
    and "pres T R (call_getDirectory L this pth opts)"
    and "pres T R (call_getFile L this pth opts)"
    and "pres T R (call_getRealEntry L vfs entry)"
    and "pres T R (call_findTarget L vfs tgt visited)"
    and "pres T R (call_resolveTarget L this)"
    and "pres T R (call_getRealDirectory L this)"
  using assms by (simp_all add: lookupPres_def)

lemma pres_bnd_gets:
  assumes "\<And>s. case g (f s) s of Ok x s' \<Rightarrow> R s s' | Throw e s' \<Rightarrow> T \<and> R s s'
                 | OutOfFuel \<Rightarrow> True"
  shows "pres T R (bnd (gets f) g)"
  using assms by (simp add: pres_def bnd_def gets_def)

lemma pres_at:
  "pres T R m \<Longrightarrow> case m s of Ok x s' \<Rightarrow> R s s' | Throw e s' \<Rightarrow> T \<and> R s s' | OutOfFuel \<Rightarrow> True"
  by (simp add: pres_def)

lemma framed_exempt:
  assumes "framed {} s t" and "framed {this} t u" and "p_entries (s ! this) = None"
  shows "framed {} s u"
  unfolding framed_def
proof (intro conjI allI impI)
  from assms(1,2) show "length s \<le> length u" by (simp add: framed_def)
next
  fix i assume i: "i < length s"
  with assms(1) have it: "i < length t" by (simp add: framed_def)
  from assms(1) i have 1: "same (s ! i) (t ! i)" by (simp add: framed_def)
  from assms(2) it have 2: "same (t ! i) (u ! i)" by (simp add: framed_def)
  from 1 2 show "same (s ! i) (u ! i)" by (rule same_trans)
next
  fix i assume i: "i < length s" and p: "p_entries (s ! i) \<noteq> None"
  with assms(1) have it: "i < length t" by (simp add: framed_def)
  from p assms(3) have n: "i \<noteq> this" by auto
  from assms(1) i p have 1: "p_entries (t ! i) = p_entries (s ! i)" by (simp add: framed_def)
  with p have "p_entries (t ! i) \<noteq> None" by simp
  with assms(2) it n have "p_entries (u ! i) = p_entries (t ! i)" by (simp add: framed_def)
  with 1 show "p_entries (u ! i) = p_entries (s ! i)" by simp
qed

text \<open>
  Lazy population: the directory is unpopulated before, so its child list is not one
  that has to stay.
\<close>

lemma populate_frame:
  assumes "p_entries (s ! this) = None" and "\<And>x. same x (g x)"
    and "pres T (framed {this}) rest"
  shows "case bnd (upd this g) (\<lambda>_. rest) s of
           Ok x s' \<Rightarrow> framed {} s s' | Throw e s' \<Rightarrow> T \<and> framed {} s s' | OutOfFuel \<Rightarrow> True"
proof -
  let ?t = "s[this := g (s ! this)]"
  have f: "framed {} s ?t"
    using assms(1,2) by (auto simp add: framed_def nth_list_update_if)
  have e: "bnd (upd this g) (\<lambda>_. rest) s = rest ?t" by (simp add: monad_apply)
  show ?thesis
  proof (cases "rest ?t")
    case (Ok x s')
    from presD_Ok [OF assms(3) Ok] have "framed {this} ?t s'" .
    from framed_exempt [OF f this assms(1)] Ok e show ?thesis by simp
  next
    case (Throw err s')
    from presD_Throw [OF assms(3) Throw] have "T" "framed {this} ?t s'" by simp_all
    from framed_exempt [OF f this(2) assms(1)] \<open>T\<close> Throw e show ?thesis by simp
  next
    case OutOfFuel
    with e show ?thesis by simp
  qed
qed

lemma pres_getOwnEntries_step:
  assumes L: "lookupPres T (framed {}) L"
  shows "pres T (framed {}) (getOwnEntries_step n E L this)"
  unfolding getOwnEntries_step_def
proof (rule pres_bnd_gets)
  fix s :: store
  let ?R = "framed {}"
  note Ls = lookupPresD [OF L] lookupPresD [OF L, THEN pres_framed_mono [OF _ empty_subsetI]]
  consider (fs) "kind (s ! this) = KFileSystem"
    | (link) "kind (s ! this) = KDirectorySymlink"
    | (listed) es where "kind (s ! this) \<noteq> KFileSystem" "kind (s ! this) \<noteq> KDirectorySymlink"
        "p_entries (s ! this) = Some es"
    | (lazy) "kind (s ! this) \<noteq> KFileSystem" "kind (s ! this) \<noteq> KDirectorySymlink"
        "p_entries (s ! this) = None"
    by (cases "p_entries (s ! this)") auto
  then show "case (if kind (s ! this) = KFileSystem
         then bnd (root n this) (\<lambda>r. call_getEntries L r noOptions)
         else if kind (s ! this) = KDirectorySymlink
         then (case p_symEntries (s ! this) of
            Some es \<Rightarrow> ret es
          | None \<Rightarrow>
              bnd (call_getRealDirectory L this) (\<lambda>t.
              bnd (case t of
                     None \<Rightarrow> ret []
                   | Some t \<Rightarrow>
                       bnd (call_getEntries L t noOptions) (\<lambda>es.
                       mapM es (\<lambda>entry. getWrappedEntry n E this entry))) (\<lambda>es.
              bnd (upd this (\<lambda>x. x\<lparr>p_symEntries := Some es\<rparr>)) (\<lambda>_.
              ret es))))
         else (case p_entries (s ! this) of
            Some es \<Rightarrow> ret es
          | None \<Rightarrow>
              bnd (upd this (\<lambda>x. x\<lparr>p_entries := Some [], p_resolver := None,
                                    p_shadowRoot := None\<rparr>)) (\<lambda>_.
              bnd (case p_resolver (s ! this) of
                     Some r \<Rightarrow>
                       bnd (path n E this) (\<lambda>p.
                       case r_getEntries r p of (files, directories) \<Rightarrow>
                         bnd (forEach directories (\<lambda>dir.
                                bnd (newVirtualDirectory this dir (Some r)) (\<lambda>vdir.
                                bnd (isReadOnly this) (\<lambda>ro.
                                bnd (if ro then makeReadOnly n vdir else ret ()) (\<lambda>_.
                                pushOwnEntry this vdir))))) (\<lambda>_.
                         forEach files (\<lambda>file.
                           bnd (newVirtualFile this file (ContentResolver (r_getContent r))) (\<lambda>vfile.
                           bnd (isReadOnly this) (\<lambda>ro.
                           bnd (if ro then makeReadOnly n vfile else ret ()) (\<lambda>_.
                           pushOwnEntry this vfile))))))
                   | None \<Rightarrow>
                       (case p_shadowRoot (s ! this) of
                          Some shadowRoot \<Rightarrow>
                            bnd (call_getOwnEntries L shadowRoot) (\<lambda>es.
                            forEach es (\<lambda>entry.
                              bnd (clone entry this) (\<lambda>c.
                              bnd (isReadOnly this) (\<lambda>ro.
                              bnd (if ro then makeReadOnly n c else ret ()) (\<lambda>_.
                              pushOwnEntry this c)))))
                        | None \<Rightarrow> ret ())) (\<lambda>_.
              gets (\<lambda>s. case p_entries (s ! this) of Some es \<Rightarrow> es | None \<Rightarrow> []))))) s of
          Ok x s' \<Rightarrow> ?R s s' | Throw e s' \<Rightarrow> T \<and> ?R s s' | OutOfFuel \<Rightarrow> True"
  proof cases
    case fs
    have "pres T ?R (bnd (root n this) (\<lambda>r. call_getEntries L r noOptions))"
      by (intro framed_rules pres_root Ls)
    from pres_at [OF this, of s] fs show ?thesis by simp
  next
    case link
    have "pres T ?R (case p_symEntries (s ! this) of
            Some es \<Rightarrow> ret es
          | None \<Rightarrow>
              bnd (call_getRealDirectory L this) (\<lambda>t.
              bnd (case t of
                     None \<Rightarrow> ret []
                   | Some t \<Rightarrow>
                       bnd (call_getEntries L t noOptions) (\<lambda>es.
                       mapM es (\<lambda>entry. getWrappedEntry n E this entry))) (\<lambda>es.
              bnd (upd this (\<lambda>x. x\<lparr>p_symEntries := Some es\<rparr>)) (\<lambda>_.
              ret es))))"
      by (intro framed_rules pres_getWrappedEntry pres_upd Ls) (simp_all add: same_def)
    from pres_at [OF this, of s] link show ?thesis by simp
  next
    case listed
    with framed_refl [of "{}"] show ?thesis by (simp add: ret_def reflp_def)
  next
    case lazy
    have "case bnd (upd this (\<lambda>x. x\<lparr>p_entries := Some [], p_resolver := None,
                                    p_shadowRoot := None\<rparr>)) (\<lambda>_.
              bnd (case p_resolver (s ! this) of
                     Some r \<Rightarrow>
                       bnd (path n E this) (\<lambda>p.
                       case r_getEntries r p of (files, directories) \<Rightarrow>
                         bnd (forEach directories (\<lambda>dir.
                                bnd (newVirtualDirectory this dir (Some r)) (\<lambda>vdir.
                                bnd (isReadOnly this) (\<lambda>ro.
                                bnd (if ro then makeReadOnly n vdir else ret ()) (\<lambda>_.
                                pushOwnEntry this vdir))))) (\<lambda>_.
                         forEach files (\<lambda>file.
                           bnd (newVirtualFile this file (ContentResolver (r_getContent r))) (\<lambda>vfile.
                           bnd (isReadOnly this) (\<lambda>ro.
                           bnd (if ro then makeReadOnly n vfile else ret ()) (\<lambda>_.
                           pushOwnEntry this vfile))))))
                   | None \<Rightarrow>
                       (case p_shadowRoot (s ! this) of
                          Some shadowRoot \<Rightarrow>
                            bnd (call_getOwnEntries L shadowRoot) (\<lambda>es.
                            forEach es (\<lambda>entry.
                              bnd (clone entry this) (\<lambda>c.
                              bnd (isReadOnly this) (\<lambda>ro.
                              bnd (if ro then makeReadOnly n c else ret ()) (\<lambda>_.
                              pushOwnEntry this c)))))
                        | None \<Rightarrow> ret ())) (\<lambda>_.
              gets (\<lambda>s. case p_entries (s ! this) of Some es \<Rightarrow> es | None \<Rightarrow> []))) s of
          Ok x s' \<Rightarrow> ?R s s' | Throw e s' \<Rightarrow> T \<and> ?R s s' | OutOfFuel \<Rightarrow> True"
    proof (rule populate_frame [OF lazy(3)])
      show "\<And>x. same x (x\<lparr>p_entries := Some [], p_resolver := None, p_shadowRoot := None\<rparr>)"
        by (simp add: same_def)
      have c1: "\<And>dir r. pres T (framed {this})
                  (bnd (newVirtualDirectory this dir (Some r)) (\<lambda>vdir.
                                bnd (isReadOnly this) (\<lambda>ro.
                                bnd (if ro then makeReadOnly n vdir else ret ()) (\<lambda>_.
                                pushOwnEntry this vdir))))"
        by (rule pres_fresh_child) (rule newVirtualDirectory_fresh)
      have c2: "\<And>file c. pres T (framed {this})
                  (bnd (newVirtualFile this file c) (\<lambda>vfile.
                           bnd (isReadOnly this) (\<lambda>ro.
                           bnd (if ro then makeReadOnly n vfile else ret ()) (\<lambda>_.
                           pushOwnEntry this vfile))))"
        by (rule pres_fresh_child) (rule newVirtualFile_fresh)
      have c3: "\<And>entry. pres T (framed {this})
                  (bnd (clone entry this) (\<lambda>c.
                              bnd (isReadOnly this) (\<lambda>ro.
                              bnd (if ro then makeReadOnly n c else ret ()) (\<lambda>_.
                              pushOwnEntry this c))))"
        by (rule pres_fresh_child) (rule clone_fresh)
      show "pres T (framed {this})
              (bnd (case p_resolver (s ! this) of
                     Some r \<Rightarrow>
                       bnd (path n E this) (\<lambda>p.
                       case r_getEntries r p of (files, directories) \<Rightarrow>
                         bnd (forEach directories (\<lambda>dir.
                                bnd (newVirtualDirectory this dir (Some r)) (\<lambda>vdir.
                                bnd (isReadOnly this) (\<lambda>ro.
                                bnd (if ro then makeReadOnly n vdir else ret ()) (\<lambda>_.
                                pushOwnEntry this vdir))))) (\<lambda>_.
                         forEach files (\<lambda>file.
                           bnd (newVirtualFile this file (ContentResolver (r_getContent r))) (\<lambda>vfile.
                           bnd (isReadOnly this) (\<lambda>ro.
                           bnd (if ro then makeReadOnly n vfile else ret ()) (\<lambda>_.
                           pushOwnEntry this vfile))))))
                   | None \<Rightarrow>
                       (case p_shadowRoot (s ! this) of
                          Some shadowRoot \<Rightarrow>
                            bnd (call_getOwnEntries L shadowRoot) (\<lambda>es.
                            forEach es (\<lambda>entry.
                              bnd (clone entry this) (\<lambda>c.
                              bnd (isReadOnly this) (\<lambda>ro.
                              bnd (if ro then makeReadOnly n c else ret ()) (\<lambda>_.
                              pushOwnEntry this c)))))
                        | None \<Rightarrow> ret ())) (\<lambda>_.
              gets (\<lambda>s. case p_entries (s ! this) of Some es \<Rightarrow> es | None \<Rightarrow> [])))"
        by (intro c1 c2 c3 framed_rules pres_path Ls)
    qed
    with lazy show ?thesis by simp
  qed
qed

lemma pres_getEntries_step:
  assumes L: "lookupPres T (framed {}) L"
  shows "pres T (framed {}) (getEntries_step L this opts)"
  unfolding getEntries_step_def
  by (intro framed_rules lookupPresD [OF L])

lemma pres_getEntry_step:
  assumes L: "lookupPres T (framed {}) L"
  shows "pres T (framed {}) (getEntry_step n E L this pth opts)"
  unfolding getEntry_step_def
  by (intro framed_rules pres_root pres_currentDirectory lookupPresD [OF L])

lemma pres_getDirectory_step:
  assumes L: "lookupPres T (framed {}) L"
  shows "pres T (framed {}) (getDirectory_step n E L this pth opts)"
  unfolding getDirectory_step_def
  by (intro framed_rules pres_root pres_currentDirectory lookupPresD [OF L])

lemma pres_getFile_step:
  assumes L: "lookupPres T (framed {}) L"
  shows "pres T (framed {}) (getFile_step n E L this pth opts)"
  unfolding getFile_step_def
  by (intro framed_rules pres_root pres_currentDirectory lookupPresD [OF L])

lemma pres_getRealEntry_step:
  assumes L: "lookupPres T (framed {}) L"
  shows "pres T (framed {}) (getRealEntry_step L vfs entry)"
  unfolding getRealEntry_step_def
  by (intro framed_rules pres_target lookupPresD [OF L])

lemma pres_findTarget_step:
  assumes L: "lookupPres T (framed {}) L"
  shows "pres T (framed {}) (findTarget_step L vfs tgt visited)"
  unfolding findTarget_step_def
  by (intro framed_rules pres_target lookupPresD [OF L])

lemma pres_resolveTarget_step:
  assumes L: "lookupPres T (framed {}) L"
  shows "pres T (framed {}) (resolveTarget_step L this)"
  unfolding resolveTarget_step_def
  by (intro framed_rules pres_target pres_on pres_upd lookupPresD [OF L])
     (simp_all add: same_def)

lemma pres_getRealDirectory_step:
  assumes L: "lookupPres T (framed {}) L"
  shows "pres T (framed {}) (getRealDirectory_step L this)"
  unfolding getRealDirectory_step_def
  by (intro framed_rules lookupPresD [OF L])

lemma lookupAt_framed: "lookupPres T (framed {}) (lookupAt n E)"
proof (induction n)
  case 0
  show ?case by (simp add: lookupPres_def lookupAt.simps pres_outOfFuel)
next
  case (Suc n)
  show ?case
    unfolding lookupPres_def
    by (simp add: lookupAt.simps Let_def pres_getOwnEntries_step [OF Suc]
          pres_getEntries_step [OF Suc] pres_getEntry_step [OF Suc]
          pres_getDirectory_step [OF Suc] pres_getFile_step [OF Suc]
          pres_getRealEntry_step [OF Suc] pres_findTarget_step [OF Suc]
          pres_resolveTarget_step [OF Suc] pres_getRealDirectory_step [OF Suc]
        del: call_getOwnEntries_lookupAt call_getEntries_lookupAt call_getEntry_lookupAt
          call_getDirectory_lookupAt call_getFile_lookupAt call_getRealEntry_lookupAt
          call_findTarget_lookupAt call_resolveTarget_lookupAt call_getRealDirectory_lookupAt)
qed

lemma pres_lookup:
  shows "pres T (framed {}) (getOwnEntries n E this)"
    and "pres T (framed {}) (getEntries n E this opts)"
    and "pres T (framed {}) (getEntry n E this pth opts)"
    and "pres T (framed {}) (getDirectory n E this pth opts)"
    and "pres T (framed {}) (getFile n E this pth opts)"
    and "pres T (framed {}) (getRealEntry n E vfs entry)"
    and "pres T (framed {}) (findTarget n E vfs tgt visited)"
    and "pres T (framed {}) (resolveTarget n E this)"
    and "pres T (framed {}) (getRealDirectory n E this)"
  using lookupPresD [OF lookupAt_framed, of T n E] by simp_all

section \<open>What the events preserve\<close>

lemma pres_onTargetParentChildRemoved:
  "pres T (framed X) (onTargetParentChildRemoved this entry)"
  unfolding onTargetParentChildRemoved_def
  by (intro framed_rules pres_invalidateTarget)

lemma emit_unfold: "emit (Suc n) E = emit_step n E (mutationAt n E)"
  by (simp add: emit_def mutationAt.simps Let_def)

lemma pres_emit: "pres T (framed {}) (emit n E this ev entry)"
proof (induction n arbitrary: this ev entry)
  case 0
  show ?case by (simp add: pres_outOfFuel)
next
  case (Suc n)
  show ?case
    unfolding emit_unfold emit_step_def onTargetChildAdded_def onTargetChildRemoved_def
      call_emit_mutationAt
    by (intro framed_rules pres_onTargetParentChildRemoved pres_getWrappedEntry pres_lookup
          pres_pushSymEntry pres_spliceSymEntry pres_upd Suc.IH)
       (simp_all add: same_def)
qed

section \<open>Adding a file to a directory\<close>

text \<open>
  \<open>addFile\<close> with a one-segment path on a directory that is listed already: the lookup of
  the name, the new file and the push, up to the event; then the same for a directory
  that is new (no resolver, no shadow root), and for a name that is taken by a file.
\<close>

lemma find_append_last:
  "find P (xs @ [y]) = (case find P xs of Some x \<Rightarrow> Some x | None \<Rightarrow> if P y then Some y else None)"
  by (induction xs) simp_all

lemma addFile_listed_step:
  assumes k: "kind (s ! d) = KDirectory \<or> kind (s ! d) = KDirectoryRoot"
    and ro: "\<not> p_readOnly (s ! d)" and dl: "d < length s"
    and es: "p_entries (s ! d) = Some es"
    and b: "basename E p = b" "b \<noteq> []" "dirname E p = []" "basename E b = b" "dirname E b = []"
    and absent: "find (\<lambda>x. sameName E s (fileSystem (s ! d)) (name (s ! x)) b) es = None"
  shows "addFile (Suc (Suc (Suc (Suc n)))) E d p content s
       = (case bnd (newVirtualFile d b content) (\<lambda>f. bnd (pushOwnEntry d f) (\<lambda>_. ret f)) s of
            Ok f s2 \<Rightarrow>
              (case emit (Suc (Suc (Suc n))) E d ChildAdded f s2 of
                 Ok u s3 \<Rightarrow> Ok (if isFileKind (kind (s3 ! f)) then Some f else None) s3
               | Throw e s3 \<Rightarrow> Throw e s3 | OutOfFuel \<Rightarrow> OutOfFuel)
          | Throw e s2 \<Rightarrow> Throw e s2 | OutOfFuel \<Rightarrow> OutOfFuel)"
proof -
  from k have k': "kind (s ! d) \<noteq> KFileSystem" "kind (s ! d) \<noteq> KDirectorySymlink" by auto
  have g: "getEntry (Suc (Suc (Suc n))) E d b noOptions s = Ok None s"
    using k' es b absent
    by (simp add: getEntry_Suc getEntry_step_def getEntries_Suc getEntries_step_def
          getOwnEntries_Suc getOwnEntries_step_def monad_apply if_apply noOptions_def
          isMatch_def)
  show ?thesis
    using k' ro es b g dl
    apply (simp add: addFile_Suc addFile_step_def monad_apply if_apply writePreamble_def
          isReadOnly_def)
    apply (simp add: newVirtualFile_def newEntry_def Let_def getOwnEntries_Suc
          getOwnEntries_step_def monad_apply if_apply nth_append pushOwnEntry_def
          split: outcome.splits)
    done
qed

lemma framedD:
  assumes "framed X s s'" and "i < length s"
  shows "same (s ! i) (s' ! i)"
    and "i \<notin> X \<Longrightarrow> p_entries (s ! i) = Some es \<Longrightarrow> p_entries (s' ! i) = Some es"
  using assms by (auto simp add: framed_def)

lemma addFile_new_name_listed:
  assumes k: "kind (s ! d) = KDirectory \<or> kind (s ! d) = KDirectoryRoot"
    and ro: "\<not> p_readOnly (s ! d)" and dl: "d < length s"
    and vl: "fileSystem (s ! d) < length s"
    and es: "p_entries (s ! d) = Some es" and el: "\<forall>x\<in>set es. x < length s"
    and b: "basename E p = b" "b \<noteq> []" "dirname E p = []" "basename E b = b" "dirname E b = []"
    and absent: "\<forall>x\<in>set es. \<not> sameName E s (fileSystem (s ! d)) (name (s ! x)) b"
    and budget: "addFile (Suc (Suc (Suc (Suc n)))) E d p (ContentText c) s \<noteq> OutOfFuel"
  shows "\<exists>s'. addFile (Suc (Suc (Suc (Suc n)))) E d p (ContentText c) s = Ok (Some (length s)) s'
           \<and> kind (s' ! length s) = KFile
           \<and> p_entries (s' ! d) = Some (es @ [length s])
           \<and> (\<forall>m. getFile (Suc (Suc (Suc (Suc m)))) E d p noOptions s' = Ok (Some (length s)) s')
           \<and> (\<forall>m. getContent (Suc m) E (length s) s' = Ok (Some c) s')"
proof -
  let ?f = "length s"
  let ?v = "fileSystem (s ! d)"
  from k have k': "kind (s ! d) \<noteq> KFileSystem" "kind (s ! d) \<noteq> KDirectorySymlink" by auto
  from absent have a: "find (\<lambda>x. sameName E s ?v (name (s ! x)) b) es = None"
    by (simp add: find_None_iff)
  have "\<exists>s2. bnd (newVirtualFile d b (ContentText c)) (\<lambda>f. bnd (pushOwnEntry d f) (\<lambda>_. ret f)) s
               = Ok ?f s2
             \<and> length s2 = Suc ?f \<and> (\<forall>i<?f. same (s ! i) (s2 ! i))
             \<and> p_entries (s2 ! d) = Some (es @ [?f])
             \<and> kind (s2 ! ?f) = KFile \<and> name (s2 ! ?f) = b \<and> p_content (s2 ! ?f) = Some c"
    using k' es dl
    by (simp add: newVirtualFile_def newEntry_def Let_def monad_apply pushOwnEntry_def
          nth_append nth_list_update_if same_def blankEntry_def)
  then obtain s2 where new: "bnd (newVirtualFile d b (ContentText c))
                               (\<lambda>f. bnd (pushOwnEntry d f) (\<lambda>_. ret f)) s = Ok ?f s2"
    and l2: "length s2 = Suc ?f" and s2: "\<And>i. i < ?f \<Longrightarrow> same (s ! i) (s2 ! i)"
    and e2: "p_entries (s2 ! d) = Some (es @ [?f])"
    and f2: "kind (s2 ! ?f) = KFile" "name (s2 ! ?f) = b" "p_content (s2 ! ?f) = Some c"
    by blast
  note step = addFile_listed_step [OF k ro dl es b a, of n "ContentText c"]
  show ?thesis
  proof (cases "emit (Suc (Suc (Suc n))) E d ChildAdded ?f s2")
    case OutOfFuel
    with step new budget show ?thesis by simp
  next
    case (Throw err s3)
    from presD_Throw [OF pres_emit [of False] Throw] show ?thesis by simp
  next
    case (Ok u s3)
    from presD_Ok [OF pres_emit [of False] Ok] have fr: "framed {} s2 s3" .
    have d2: "d < length s2" "?v < length s2" "?f < length s2" using dl vl l2 by simp_all
    have sd: "same (s ! d) (s3 ! d)"
      using s2 [OF dl] framedD(1) [OF fr d2(1)] by (rule same_trans)
    have sv: "same (s ! ?v) (s3 ! ?v)"
      using s2 [OF vl] framedD(1) [OF fr d2(2)] by (rule same_trans)
    have sf: "same (s2 ! ?f) (s3 ! ?f)" by (rule framedD(1) [OF fr d2(3)])
    have e3: "p_entries (s3 ! d) = Some (es @ [?f])"
      by (rule framedD(2) [OF fr d2(1) _ e2]) simp
    have nm: "\<And>x. x \<in> set es \<Longrightarrow> name (s3 ! x) = name (s ! x)"
    proof -
      fix x assume "x \<in> set es"
      with el have x: "x < ?f" by simp
      then have "x < length s2" using l2 by simp
      from same_trans [OF s2 [OF x] framedD(1) [OF fr this]] show "name (s3 ! x) = name (s ! x)"
        by (simp add: same_def)
    qed
    have f3: "kind (s3 ! ?f) = KFile" "name (s3 ! ?f) = b" "p_content (s3 ! ?f) = Some c"
      using sf f2 by (simp_all add: same_def)
    have k3: "kind (s3 ! d) \<noteq> KFileSystem" "kind (s3 ! d) \<noteq> KDirectorySymlink"
      "fileSystem (s3 ! d) = ?v"
      using sd k' by (simp_all add: same_def)
    have cs: "p_useCaseSensitiveFileNames (s3 ! ?v) = p_useCaseSensitiveFileNames (s ! ?v)"
      using sv by (simp add: same_def)
    have "find (\<lambda>x. sameName E s3 ?v (name (s3 ! x)) b) es = None"
      using absent nm cs by (simp add: find_None_iff sameName_def)
    then have fd: "find (\<lambda>x. sameName E s3 ?v (name (s3 ! x)) b) (es @ [?f]) = Some ?f"
      using f3(2) by (simp add: find_append_last sameName_def compareStrings_def)
    have r: "addFile (Suc (Suc (Suc (Suc n)))) E d p (ContentText c) s = Ok (Some ?f) s3"
      using step new Ok f3(1) by (simp add: isFileKind_def)
    have g: "\<And>m. getFile (Suc (Suc (Suc (Suc m)))) E d p noOptions s3 = Ok (Some ?f) s3"
      using k3 e3 b fd f3(1)
      by (simp add: getFile_Suc getFile_step_def getEntry_Suc getEntry_step_def getEntries_Suc
            getEntries_step_def getOwnEntries_Suc getOwnEntries_step_def monad_apply if_apply
            noOptions_def isMatch_def isFileKind_def)
    have c: "\<And>m. getContent (Suc m) E ?f s3 = Ok (Some c) s3"
      using f3 by (simp add: fun_apply monad_apply)
    from r f3(1) e3 g c show ?thesis by blast
  qed
qed

lemma addFile_fresh_directory:
  assumes k: "kind (s ! d) = KDirectory \<or> kind (s ! d) = KDirectoryRoot"
    and ro: "\<not> p_readOnly (s ! d)" and dl: "d < length s"
    and fresh: "p_entries (s ! d) = None" "p_resolver (s ! d) = None" "p_shadowRoot (s ! d) = None"
    and b: "basename E p = b" "b \<noteq> []" "dirname E p = []" "basename E b = b" "dirname E b = []"
  shows "addFile (Suc (Suc (Suc (Suc n)))) E d p content s
       = addFile (Suc (Suc (Suc (Suc n)))) E d p content
           (s[d := (s ! d)\<lparr>p_entries := Some [], p_resolver := None, p_shadowRoot := None\<rparr>])"
proof -
  let ?s0 = "s[d := (s ! d)\<lparr>p_entries := Some [], p_resolver := None, p_shadowRoot := None\<rparr>]"
  from k have k': "kind (s ! d) \<noteq> KFileSystem" "kind (s ! d) \<noteq> KDirectorySymlink" by auto
  have g: "getEntry (Suc (Suc (Suc n))) E d b noOptions s = Ok None ?s0"
    using k' fresh b dl
    by (simp add: getEntry_Suc getEntry_step_def getEntries_Suc getEntries_step_def
          getOwnEntries_Suc getOwnEntries_step_def monad_apply if_apply noOptions_def
          isMatch_def)
  have l: "addFile (Suc (Suc (Suc (Suc n)))) E d p content s
       = (case bnd (newVirtualFile d b content) (\<lambda>f. bnd (pushOwnEntry d f) (\<lambda>_. ret f)) ?s0 of
            Ok f s2 \<Rightarrow>
              (case emit (Suc (Suc (Suc n))) E d ChildAdded f s2 of
                 Ok u s3 \<Rightarrow> Ok (if isFileKind (kind (s3 ! f)) then Some f else None) s3
               | Throw e s3 \<Rightarrow> Throw e s3 | OutOfFuel \<Rightarrow> OutOfFuel)
          | Throw e s2 \<Rightarrow> Throw e s2 | OutOfFuel \<Rightarrow> OutOfFuel)"
    using k' ro b g dl
    apply (simp add: addFile_Suc addFile_step_def monad_apply if_apply writePreamble_def
          isReadOnly_def)
    apply (simp add: newVirtualFile_def newEntry_def Let_def getOwnEntries_Suc
          getOwnEntries_step_def monad_apply if_apply nth_append pushOwnEntry_def
          split: outcome.splits)
    done
  have k0: "kind (?s0 ! d) = KDirectory \<or> kind (?s0 ! d) = KDirectoryRoot"
    "\<not> p_readOnly (?s0 ! d)" "d < length ?s0" "p_entries (?s0 ! d) = Some []"
    using k ro dl by simp_all
  have "find (\<lambda>x. sameName E ?s0 (fileSystem (?s0 ! d)) (name (?s0 ! x)) b) [] = None" by simp
  from addFile_listed_step [OF k0 b this, of n content] l show ?thesis by simp
qed

lemma addFile_existing_file:
  assumes k: "kind (s ! d) = KDirectory \<or> kind (s ! d) = KDirectoryRoot"
    and ro: "\<not> p_readOnly (s ! d)"
    and es: "p_entries (s ! d) = Some es"
    and q: "basename E q = b" "b \<noteq> []" "dirname E q = []" "basename E b = b" "dirname E b = []"
    and found: "find (\<lambda>x. sameName E s (fileSystem (s ! d)) (name (s ! x)) b) es = Some x"
    and isfile: "isFileKind (kind (s ! x))"
  shows "addFile (Suc (Suc (Suc (Suc n)))) E d q content s = Ok (Some x) s"
proof -
  from k have k': "kind (s ! d) \<noteq> KFileSystem" "kind (s ! d) \<noteq> KDirectorySymlink" by auto
  have g: "getEntry (Suc (Suc (Suc n))) E d b noOptions s = Ok (Some x) s"
    using k' es q found
    by (simp add: getEntry_Suc getEntry_step_def getEntries_Suc getEntries_step_def
          getOwnEntries_Suc getOwnEntries_step_def monad_apply if_apply noOptions_def
          isMatch_def)
  show ?thesis
    using k' ro q g isfile
    by (simp add: addFile_Suc addFile_step_def monad_apply if_apply writePreamble_def
          isReadOnly_def)
qed

section \<open>Claims\<close>

text \<open>
  C4. After a directory symlink has resolved to its target, adding a file to the target
  should make the listing of the symlink contain exactly one mirrored entry, and removing
  the file should remove it. Run on the code: the symlink \<open>/proj/lib\<close> is resolved but not
  yet listed when \<open>/proj/src/a.ts\<close> is added; its listing then holds the same mirrored
  entry twice, and after the file is removed one copy is still listed and still found
  by \<open>getFile\<close>.
\<close>

theorem mirror_lists_added_file_twice:
  "returned (mirrorScenario []) =
     Some (Some (([''a.ts'', ''a.ts''], [6, 6]), ([''a.ts''], [6]), False, Some 6))"
  by (simp add: run mirrorScenario_def del: Suc_numeral)

text \<open>
  C7. After \<open>setContent(v)\<close> a following \<open>getContent()\<close> should return exactly \<open>v\<close>, also
  for the absent value, without consulting a shadow source. Run on the code: on the file
  of a clone whose content was not read before, \<open>setContent(undefined)\<close> followed by
  \<open>getContent()\<close> returns the content \<open>x\<close> of the original file.
\<close>

theorem cleared_clone_reads_shadow_content:
  "returned (clearScenario []) = Some (Some (Some ''x'', Some ''x''))"
  by (simp add: run clearScenario_def del: Suc_numeral)

text \<open>
  C8. As stated the claim fails: a directory symlink that resolved to a directory keeps
  that directory as its cached target (\<open>resolveTarget\<close> resolves only when no target is
  cached, and the cache is dropped only when the target is removed from its own parent
  or the target path is assigned). After an ancestor of the target is removed, the target
  path of the symlink resolves to no entry, and still \<open>isBroken\<close> answers false, \<open>addFile\<close>
  through the symlink creates a file in the unreachable directory, and \<open>removeFile\<close>
  through it answers true.
\<close>

theorem stale_symlink_mutates_unreachable_target:
  "returned (staleLinkScenario []) = Some (Some (None, None, False, Some 7, ([''g''], [7]), True))"
  by (simp add: run staleLinkScenario_def del: Suc_numeral)

text \<open>
  \<open>getRealDirectory\<close> and \<open>getRealFile\<close> on a symlink whose target path resolves to no
  entry of the expected kind.
\<close>

lemma getRealDirectory_unresolved:
  assumes "p_target (s ! S) = None"
    and "findTarget n E (fileSystem (s ! S)) (p_targetPath (s ! S)) [] s = Ok r s'"
    and "r = None \<or> (\<exists>x. r = Some x \<and> \<not> isDirectoryKind (kind (s' ! x)))"
    and "p_target (s' ! S) = None"
    and "kind (s ! S) = KDirectorySymlink"
  shows "getRealDirectory (Suc (Suc n)) E S s = Ok None s'"
  using assms
  by (auto simp add: getRealDirectory_Suc getRealDirectory_step_def resolveTarget_Suc
        resolveTarget_step_def target_def monad_apply)

lemma getRealFile_unresolved:
  assumes "kind (t ! F) = KFileSymlink"
    and "findTarget n E (fileSystem (t ! F)) (p_fileTarget (t ! F)) [] t = Ok q t'"
    and "q = None \<or> (\<exists>x. q = Some x \<and> \<not> isFileKind (kind (t' ! x)))"
  shows "getRealFile n E F t = Ok None t'"
  using assms
  by (auto simp add: getRealFile_def target_def monad_apply)

text \<open>
  C8, amended. Take a directory symlink that holds no cached target, and a file symlink.
  Whenever the resolution of the target path (\<open>findTarget\<close>) returns, and returns no entry
  or an entry of the other kind (for the directory symlink: leaving it without a cached
  target), \<open>isBroken\<close> answers true, \<open>addDirectory\<close> and \<open>addFile\<close> through the link return
  the absent value, \<open>removeDirectory\<close> and \<open>removeFile\<close> return \<open>false\<close>, \<open>setContent\<close>
  returns and \<open>getContent\<close> returns the absent value; none of them throws, and the store
  they leave is the one the resolution leaves. A target path whose resolution does not
  return (it leads through the symlink itself) is left out.
\<close>

theorem broken_symlink_operations_do_nothing:
  assumes "kind (s ! S) = KDirectorySymlink" and "p_target (s ! S) = None"
    and "findTarget n E (fileSystem (s ! S)) (p_targetPath (s ! S)) [] s = Ok r s'"
    and "r = None \<or> (\<exists>x. r = Some x \<and> \<not> isDirectoryKind (kind (s' ! x)))"
    and "p_target (s' ! S) = None"
    and "kind (t ! F) = KFileSymlink"
    and "findTarget n E (fileSystem (t ! F)) (p_fileTarget (t ! F)) [] t = Ok q t'"
    and "q = None \<or> (\<exists>x. q = Some x \<and> \<not> isFileKind (kind (t' ! x)))"
  shows "isBroken (Suc (Suc n)) E S s = Ok True s'
       \<and> addDirectory (Suc (Suc (Suc n))) E S p rslv s = Ok None s'
       \<and> addFile (Suc (Suc (Suc n))) E S p content s = Ok None s'
       \<and> removeDirectory (Suc (Suc (Suc n))) E S p s = Ok False s'
       \<and> removeFile (Suc (Suc (Suc n))) E S p s = Ok False s'
       \<and> isBroken n E F t = Ok True t'
       \<and> setContent (Suc n) E F v t = Ok () t'
       \<and> getContent (Suc n) E F t = Ok None t'"
proof -
  have d: "getRealDirectory (Suc (Suc n)) E S s = Ok None s'"
    using assms(2,3,4,5,1) by (rule getRealDirectory_unresolved)
  have f: "getRealFile n E F t = Ok None t'"
    using assms(6,7,8) by (rule getRealFile_unresolved)
  have "isBroken (Suc (Suc n)) E S s = Ok True s'"
    using assms(1) d by (simp add: isBroken_def monad_apply)
  moreover have "addDirectory (Suc (Suc (Suc n))) E S p rslv s = Ok None s'"
    using assms(1) d by (simp add: addDirectory_Suc addDirectory_step_def monad_apply)
  moreover have "addFile (Suc (Suc (Suc n))) E S p content s = Ok None s'"
    using assms(1) d by (simp add: addFile_Suc addFile_step_def monad_apply)
  moreover have "removeDirectory (Suc (Suc (Suc n))) E S p s = Ok False s'"
    using assms(1) d by (simp add: removeDirectory_Suc removeDirectory_step_def monad_apply)
  moreover have "removeFile (Suc (Suc (Suc n))) E S p s = Ok False s'"
    using assms(1) d by (simp add: removeFile_Suc removeFile_step_def monad_apply)
  moreover have "isBroken n E F t = Ok True t'"
    using assms(6) f by (simp add: isBroken_def monad_apply)
  moreover have "setContent (Suc n) E F v t = Ok () t'"
    using assms(6) f by (simp add: fun_apply monad_apply)
  moreover have "getContent (Suc n) E F t = Ok None t'"
    using assms(6) f by (simp add: fun_apply monad_apply)
  ultimately show ?thesis by simp
qed

theorem broken_symlink_operations_witness:
  "kind (brokenLinksStore ! 5) = KDirectorySymlink \<and> p_target (brokenLinksStore ! 5) = None
   \<and> returned (findTarget 20 simpleEnv (fileSystem (brokenLinksStore ! 5))
                  (p_targetPath (brokenLinksStore ! 5)) [] brokenLinksStore) = Some None
   \<and> kind (brokenLinksStore ! 6) = KFileSymlink
   \<and> returned (findTarget 20 simpleEnv (fileSystem (brokenLinksStore ! 6))
                  (p_fileTarget (brokenLinksStore ! 6)) [] brokenLinksStore) = Some None
   \<and> returned (isBroken 22 simpleEnv 5 brokenLinksStore) = Some True
   \<and> returned (addDirectory 23 simpleEnv 5 ''g'' None brokenLinksStore) = Some None
   \<and> returned (addFile 23 simpleEnv 5 ''g'' (ContentText ''y'') brokenLinksStore) = Some None
   \<and> returned (removeDirectory 23 simpleEnv 5 ''g'' brokenLinksStore) = Some False
   \<and> returned (removeFile 23 simpleEnv 5 ''g'' brokenLinksStore) = Some False
   \<and> returned (isBroken 20 simpleEnv 6 brokenLinksStore) = Some True
   \<and> returned (setContent 21 simpleEnv 6 (Some ''y'') brokenLinksStore) = Some ()
   \<and> returned (getContent 21 simpleEnv 6 brokenLinksStore) = Some None"
proof -
  have k: "kind (brokenLinksStore ! 5) = KDirectorySymlink"
          "p_target (brokenLinksStore ! 5) = None"
          "kind (brokenLinksStore ! 6) = KFileSymlink"
    by (simp_all add: run brokenLinksStore_def linksScenario_def del: Suc_numeral)
  have "\<exists>s'. findTarget 20 simpleEnv (fileSystem (brokenLinksStore ! 5))
                  (p_targetPath (brokenLinksStore ! 5)) [] brokenLinksStore = Ok None s'
              \<and> p_target (s' ! 5) = None"
    by (simp add: run brokenLinksStore_def linksScenario_def del: Suc_numeral)
  then obtain s' where b1: "findTarget 20 simpleEnv (fileSystem (brokenLinksStore ! 5))
                  (p_targetPath (brokenLinksStore ! 5)) [] brokenLinksStore = Ok None s'"
      and b1': "p_target (s' ! 5) = None" by blast
  have "\<exists>t'. findTarget 20 simpleEnv (fileSystem (brokenLinksStore ! 6))
                  (p_fileTarget (brokenLinksStore ! 6)) [] brokenLinksStore = Ok None t'"
    by (simp add: run brokenLinksStore_def linksScenario_def del: Suc_numeral)
  then obtain t' where b2: "findTarget 20 simpleEnv (fileSystem (brokenLinksStore ! 6))
                  (p_fileTarget (brokenLinksStore ! 6)) [] brokenLinksStore = Ok None t'" ..
  have n: "(None::ref option) = None \<or> (\<exists>x. (None::ref option) = Some x \<and> \<not> isDirectoryKind (kind (s' ! x)))"
          "(None::ref option) = None \<or> (\<exists>x. (None::ref option) = Some x \<and> \<not> isFileKind (kind (t' ! x)))"
    by simp_all
  show ?thesis
    using k b1 b2
      broken_symlink_operations_do_nothing [OF k(1,2) b1 n(1) b1' k(3) b2 n(2), of "''g''" None "ContentText ''y''" "Some ''y''"]
    by (simp add: returned_def numeral_eq_Suc del: Suc_numeral)
qed

text \<open>
  Mutation through a read-only symlink: \<open>setContent\<close> on a read-only file symlink writes
  the mutable target file; the target setter of both symlink classes and \<open>addSymlink\<close> on a
  directory symlink (inherited from \<open>VirtualDirectory\<close>) throw on the flag of the symlink.
\<close>

lemma setContent_through_read_only_file_symlink:
  assumes "kind (s ! F) = KFileSymlink" and "p_readOnly (s ! F)"
    and "getRealFile (Suc n) E F s = Ok (Some f) s1"
    and "kind (s1 ! f) = KFile" and "\<not> p_readOnly (s1 ! f)"
  shows "setContent (Suc (Suc n)) E F v s
           = Ok () (s1[f := (s1 ! f)\<lparr>p_contentResolver := None, p_content := v\<rparr>])"
  using assms(1,3,4,5) by (simp add: fun_apply monad_apply writePreamble_def isReadOnly_def)

lemma setTarget_on_read_only_symlink:
  assumes "kind (s ! S) = KFileSymlink \<or> kind (s ! S) = KDirectorySymlink" and "p_readOnly (s ! S)"
  shows "setTarget S x s = Throw CannotModifyFrozenEntry s"
  using assms by (auto simp add: setTarget_def writePreamble_def isReadOnly_def monad_apply)

lemma addSymlink_on_read_only_directory_symlink:
  assumes "kind (s ! S) = KDirectorySymlink" and "p_readOnly (s ! S)"
  shows "addSymlink (Suc n) E S p tgt s = Throw CannotModifyFrozenEntry s"
  using assms
  by (simp add: addSymlink_Suc addSymlink_step_def writePreamble_def isReadOnly_def monad_apply)

text \<open>
  C10. Mutation through a symlink should not be guarded by the read-only flag of the
  symlink, only the assignment of its target path. Run on the code, with the directory
  symlink \<open>/p/s\<close> and the file symlink \<open>/p/l\<close> read-only and their targets mutable:
  \<open>addFile\<close> and \<open>addDirectory\<close> through \<open>/p/s\<close> create the entries \<open>g\<close> and \<open>h\<close> in the
  target, \<open>removeFile\<close> and \<open>removeDirectory\<close> remove them again, \<open>setContent\<close> through \<open>/p/l\<close>
  writes the target file, and the target setters throw; but \<open>addSymlink\<close> on \<open>/p/s\<close> throws
  as well. \<open>VirtualDirectorySymlink\<close> overrides the other four operations to run on the
  target and does not override \<open>addSymlink\<close>: on the symlink that is not read-only it puts
  the new entry \<open>k\<close> into the mirrored listing of the symlink and not into the target.
\<close>

theorem read_only_directory_symlink_refuses_addSymlink:
  "map kind frozenLinksStore
     = [KFileSystem, KDirectoryRoot, KDirectory, KDirectory, KFile, KDirectorySymlink, KFileSymlink]
   \<and> map p_readOnly frozenLinksStore = [False, False, False, False, False, True, True]
   \<and> returned (readOnlyLinksScenario frozenLinksStore)
        = Some (Some 7, Some 10, ([''f'', ''g'', ''h''], [4, 7, 10]), True, True,
                ([''f''], [4]), Some ''new'')
   \<and> thrown (setTarget 5 ''/p/q'' frozenLinksStore) = Some CannotModifyFrozenEntry
   \<and> thrown (setTarget 6 ''/p/q'' frozenLinksStore) = Some CannotModifyFrozenEntry
   \<and> thrown (addSymlink 30 simpleEnv 5 ''k'' (TargetEntry 4) frozenLinksStore)
        = Some CannotModifyFrozenEntry
   \<and> returned (addSymlinkOnLinkScenario linksStore)
        = Some (Some 8, ([''f'', ''k''], [7, 8]), ([''f''], [4]))"
  by (simp add: run frozenLinksStore_def linksStore_def linksScenario_def
        readOnlyLinksScenario_def addSymlinkOnLinkScenario_def thrown_def del: Suc_numeral)

text \<open>
  C9. Cloning a read-only file system yields a mutable one: the clone and its root
  directory are new objects whose read-only flag is not set (so \<open>changeDirectory\<close> on the
  clone does not throw), the root of the clone is an unpopulated shadow of the original
  root, the objects of the original are untouched, and no \<open>clone\<close> of any entry copies the
  read-only flag.
\<close>

lemma clone_is_fresh_and_mutable:
  "\<exists>st'. clone e par st = Ok (length st) st' \<and> length st' = Suc (length st)
         \<and> \<not> p_readOnly (st' ! length st) \<and> (\<forall>i<length st. st' ! i = st ! i)"
  by (simp add: clone_def target_def newVirtualDirectorySymlink_def newVirtualFileSymlink_def
        newVirtualFile_def newVirtualDirectory_def newEntry_def monad_apply if_apply
        blankEntry_def Let_def nth_append)

theorem clone_of_read_only_file_system_is_mutable:
  assumes "F < length s" and "kind (s ! F) = KFileSystem" and "p_readOnly (s ! F)"
    and "p_root (s ! F) = Some r" and "r < length s"
    and "kind (s ! r) = KDirectoryRoot \<or> kind (s ! r) = KDirectory"
  shows "\<exists>s'. cloneFileSystem (Suc n) F s = Ok (length s) s'
           \<and> kind (s' ! length s) = KFileSystem
           \<and> \<not> p_readOnly (s' ! length s)
           \<and> p_root (s' ! length s) = Some (Suc (length s))
           \<and> kind (s' ! Suc (length s)) = KDirectory
           \<and> \<not> p_readOnly (s' ! Suc (length s))
           \<and> p_entries (s' ! Suc (length s)) = None
           \<and> p_shadowRoot (s' ! Suc (length s)) = Some r
           \<and> (\<forall>i<length s. s' ! i = s ! i)
           \<and> changeDirectory E (length s) pth s' \<noteq> Throw CannotModifyFrozenEntry s'
           \<and> (\<forall>e par st. \<exists>st'. clone e par st = Ok (length st) st'
                                  \<and> \<not> p_readOnly (st' ! length st))"
proof -
  have c: "\<forall>e par st. \<exists>st'. clone e par st = Ok (length st) st' \<and> \<not> p_readOnly (st' ! length st)"
    using clone_is_fresh_and_mutable by blast
  from assms(6) have "kind (s ! r) \<noteq> KDirectorySymlink" "kind (s ! r) \<noteq> KFileSymlink"
    "kind (s ! r) \<noteq> KFile" by auto
  with assms(1,2,4,5) c show ?thesis
    by (simp add: cloneFileSystem_def newVirtualFileSystem_def clone_def newVirtualDirectory_def
          newEntry_def changeDirectory_def writePreamble_def isReadOnly_def
          fun_apply monad_apply if_apply blankEntry_def Let_def nth_append)
qed

theorem clone_of_read_only_file_system_witness:
  "0 < length frozenTreeStore \<and> kind (frozenTreeStore ! 0) = KFileSystem
   \<and> p_readOnly (frozenTreeStore ! 0) \<and> p_root (frozenTreeStore ! 0) = Some 1
   \<and> 1 < length frozenTreeStore \<and> kind (frozenTreeStore ! 1) = KDirectoryRoot
   \<and> map p_readOnly frozenTreeStore = [True, True, True, True, True]
   \<and> returned (cloneFileSystem (Suc 20) 0 frozenTreeStore) = Some 5
   \<and> returned (cloneAndAddScenario frozenTreeStore)
        = Some (Some (5, ([''f'', ''g''], [9, 10]),
                      [True, True, True, True, True, False, False, False, False, False, False]))"
proof -
  have h: "0 < length frozenTreeStore" "kind (frozenTreeStore ! 0) = KFileSystem"
    "p_readOnly (frozenTreeStore ! 0)" "p_root (frozenTreeStore ! 0) = Some 1"
    "1 < length frozenTreeStore" "kind (frozenTreeStore ! 1) = KDirectoryRoot"
    by (simp_all add: run frozenTreeStore_def del: Suc_numeral)
  have l: "length frozenTreeStore = 5"
    "map p_readOnly frozenTreeStore = [True, True, True, True, True]"
    by (simp_all add: run frozenTreeStore_def del: Suc_numeral)
  have r: "returned (cloneAndAddScenario frozenTreeStore)
        = Some (Some (5, ([''f'', ''g''], [9, 10]),
                      [True, True, True, True, True, False, False, False, False, False, False]))"
    by (simp add: run frozenTreeStore_def cloneAndAddScenario_def del: Suc_numeral)
  from h(6) have k: "kind (frozenTreeStore ! 1) = KDirectoryRoot \<or> kind (frozenTreeStore ! 1) = KDirectory"
    by simp
  from clone_of_read_only_file_system_is_mutable [OF h(1,2,3,4,5) k, of 20 simpleEnv "[]"]
  obtain s' where "cloneFileSystem (Suc 20) 0 frozenTreeStore = Ok (length frozenTreeStore) s'"
    by blast
  with h l r show ?thesis by (simp add: returned_def)
qed

text \<open>
  C3. As stated the claim fails: a directory symlink that resolved to a directory before
  the cycle was formed, and was not notified of the removal of an ancestor of its target,
  answers \<open>isBroken\<close> from its cached target. In \<open>staleScenario\<close> the target path of \<open>A\<close>
  (object 6) resolves to the symlink \<open>B\<close> (object 8) and the target path of \<open>B\<close> resolves
  back to \<open>A\<close>; \<open>findTarget\<close> returns no entry and \<open>B\<close> is broken, but \<open>isBroken\<close> of \<open>A\<close> is
  false.
\<close>

theorem stale_symlink_on_cycle_is_not_broken:
  "returned (staleScenario []) = Some (Some (Some 8, Some 6, 6, 8, None, False, True))"
  by (simp add: run staleScenario_def del: Suc_numeral)

text \<open>
  C3, amended. For two distinct symlinks \<open>X\<close> and \<open>Y\<close>, where the target path of \<open>X\<close>
  resolves to \<open>Y\<close> and the target path of \<open>Y\<close> resolves back to \<open>X\<close>, \<open>findTarget\<close> on the
  target of \<open>X\<close> returns no entry after three lookups, and \<open>isBroken\<close> of \<open>X\<close> is true when
  \<open>X\<close> holds no cached resolved target. (The claim follows for both symlinks of the cycle
  by taking each of them for \<open>X\<close>.)
\<close>

lemma findTarget_on_two_cycle:
  assumes "X \<noteq> Y"
    and "getEntry (Suc (Suc n)) E vfs tX noOptions s0 = Ok (Some Y) s1"
    and "isSymlinkKind (kind (s1 ! Y))" and "target Y s1 = Ok tY s1"
    and "getEntry (Suc n) E vfs tY noOptions s1 = Ok (Some X) s2"
    and "isSymlinkKind (kind (s2 ! X))" and "target X s2 = Ok tX s2"
    and "getEntry n E vfs tX noOptions s2 = Ok (Some Y) s3"
    and "isSymlinkKind (kind (s3 ! Y))"
  shows "findTarget (Suc (Suc (Suc n))) E vfs tX [] s0 = Ok None s3"
proof -
  have 3: "findTarget (Suc n) E vfs tX [X, Y] s2 = Ok None s3"
    using assms(8,9) by (simp add: findTarget_Suc findTarget_step_def monad_apply)
  have 2: "findTarget (Suc (Suc n)) E vfs tY [Y] s1 = Ok None s3"
    using assms(1,5,6,7) 3 by (simp add: findTarget_Suc findTarget_step_def monad_apply)
  show ?thesis
    using assms(2,3,4) 2 by (simp add: findTarget_Suc findTarget_step_def monad_apply)
qed

theorem unresolved_symlink_on_two_cycle_is_broken:
  assumes "X \<noteq> Y"
    and "kind (s0 ! X) = KDirectorySymlink \<or> kind (s0 ! X) = KFileSymlink"
    and "kind (s0 ! X) = KDirectorySymlink \<longrightarrow> p_target (s0 ! X) = None"
    and "fileSystem (s0 ! X) = vfs" and "target X s0 = Ok tX s0"
    and "getEntry (Suc (Suc n)) E vfs tX noOptions s0 = Ok (Some Y) s1"
    and "isSymlinkKind (kind (s1 ! Y))" and "target Y s1 = Ok tY s1"
    and "getEntry (Suc n) E vfs tY noOptions s1 = Ok (Some X) s2"
    and "isSymlinkKind (kind (s2 ! X))" and "target X s2 = Ok tX s2"
    and "getEntry n E vfs tX noOptions s2 = Ok (Some Y) s3"
    and "isSymlinkKind (kind (s3 ! Y))"
    and "kind (s0 ! X) = KDirectorySymlink \<longrightarrow> p_target (s3 ! X) = None"
  shows "findTarget (Suc (Suc (Suc n))) E vfs tX [] s0 = Ok None s3
       \<and> (kind (s0 ! X) = KDirectorySymlink \<longrightarrow>
            isBroken (Suc (Suc (Suc (Suc (Suc n))))) E X s0 = Ok True s3)
       \<and> (kind (s0 ! X) = KFileSymlink \<longrightarrow>
            isBroken (Suc (Suc (Suc n))) E X s0 = Ok True s3)"
proof -
  have ft: "findTarget (Suc (Suc (Suc n))) E vfs tX [] s0 = Ok None s3"
    by (rule findTarget_on_two_cycle [OF assms(1,6,7,8,9,10,11,12,13)])
  have d: "isBroken (Suc (Suc (Suc (Suc (Suc n))))) E X s0 = Ok True s3"
    if "kind (s0 ! X) = KDirectorySymlink"
    using that assms(3,4,5,14) ft
    by (simp add: isBroken_def getRealDirectory_Suc getRealDirectory_step_def
          resolveTarget_Suc resolveTarget_step_def monad_apply)
  have f: "isBroken (Suc (Suc (Suc n))) E X s0 = Ok True s3"
    if "kind (s0 ! X) = KFileSymlink"
    using that assms(4,5) ft
    by (simp add: isBroken_def getRealFile_def monad_apply)
  from ft d f show ?thesis by blast
qed

theorem unresolved_symlink_on_two_cycle_witness:
  "(4::nat) \<noteq> 5
   \<and> kind (cycleStore ! 4) = KDirectorySymlink \<and> p_target (cycleStore ! 4) = None
   \<and> kind (cycleStore ! 5) = KDirectorySymlink \<and> p_target (cycleStore ! 5) = None
   \<and> fileSystem (cycleStore ! 4) = 0 \<and> fileSystem (cycleStore ! 5) = 0
   \<and> target 4 cycleStore = Ok ''/x/B'' cycleStore
   \<and> target 5 cycleStore = Ok ''/x/A'' cycleStore
   \<and> getEntry 20 simpleEnv 0 ''/x/B'' noOptions cycleStore = Ok (Some 5) cycleStore
   \<and> getEntry 20 simpleEnv 0 ''/x/A'' noOptions cycleStore = Ok (Some 4) cycleStore
   \<and> findTarget 21 simpleEnv 0 ''/x/B'' [] cycleStore = Ok None cycleStore
   \<and> isBroken 23 simpleEnv 4 cycleStore = Ok True cycleStore
   \<and> isBroken 23 simpleEnv 5 cycleStore = Ok True cycleStore"
proof -
  have k: "kind (cycleStore ! 4) = KDirectorySymlink" "p_target (cycleStore ! 4) = None"
    "kind (cycleStore ! 5) = KDirectorySymlink" "p_target (cycleStore ! 5) = None"
    "fileSystem (cycleStore ! 4) = 0" "fileSystem (cycleStore ! 5) = 0"
    "target 4 cycleStore = Ok ''/x/B'' cycleStore"
    "target 5 cycleStore = Ok ''/x/A'' cycleStore"
    by (simp_all add: run cycleStore_def del: Suc_numeral)
  have e: "getEntry n simpleEnv 0 ''/x/B'' noOptions cycleStore = Ok (Some 5) cycleStore"
          "getEntry n simpleEnv 0 ''/x/A'' noOptions cycleStore = Ok (Some 4) cycleStore"
    if "n = 18 \<or> n = 19 \<or> n = 20" for n
    using that by (auto simp add: run cycleStore_def simp del: Suc_numeral)
  have s: "isSymlinkKind (kind (cycleStore ! 4))" "isSymlinkKind (kind (cycleStore ! 5))"
    using k by (simp_all add: isSymlinkKind_def)
  have n: "(20::nat) = Suc (Suc 18)" "(19::nat) = Suc 18" "(21::nat) = Suc (Suc (Suc 18))"
    "(23::nat) = Suc (Suc (Suc (Suc (Suc 18))))" by simp_all
  have a: "findTarget 21 simpleEnv 0 ''/x/B'' [] cycleStore = Ok None cycleStore
           \<and> isBroken 23 simpleEnv 4 cycleStore = Ok True cycleStore"
    using unresolved_symlink_on_two_cycle_is_broken [of 4 5 cycleStore 0 "''/x/B''" 18 simpleEnv
        cycleStore "''/x/A''" cycleStore cycleStore] k s e [of 20] e [of 19] e [of 18]
    unfolding n by simp
  have b: "isBroken 23 simpleEnv 5 cycleStore = Ok True cycleStore"
    using unresolved_symlink_on_two_cycle_is_broken [of 5 4 cycleStore 0 "''/x/A''" 18 simpleEnv
        cycleStore "''/x/B''" cycleStore cycleStore] k s e [of 20] e [of 19] e [of 18]
    unfolding n by simp
  from k e [of 20] a b show ?thesis by simp
qed

text \<open>
  C6. As stated the claim fails where the resolver itself reports a name twice: the
  directory gets one entry for each reported name, so its listing has two entries named
  \<open>a\<close> (objects 3 and 4).
\<close>

theorem listing_repeats_a_name_reported_twice:
  "returned (repeatedNameScenario []) = Some (Some ([''a'', ''a''], [3, 4]))"
  by (simp add: run repeatedNameScenario_def repeatingResolver_def del: Suc_numeral)

text \<open>
  C6, amended. Listing an unpopulated directory that is backed by a resolver creates one
  new entry for each reported name, the directories first and then the files, each in
  the reported order; the names of the listing are exactly the reported names and are
  free of duplicates when the report is. The population discards the resolver and the
  shadow root, and every later listing returns the same entries and leaves the store
  unchanged (so the resolver is not consulted again).
\<close>

theorem resolver_population:
  assumes d: "d < length s"
    and kd: "kind (s ! d) = KDirectory \<or> kind (s ! d) = KDirectoryRoot"
    and un: "p_entries (s ! d) = None" and rs: "p_resolver (s ! d) = Some r"
    and pth: "path (Suc (Suc m)) E d s = Ok p s1"
    and rep: "r_getEntries r p = (files, directories)"
  shows "\<exists>es s'. getEntries (Suc (Suc (Suc (Suc m)))) E d noOptions s = Ok es s'
      \<and> es = [length s ..< length s + length directories + length files]
      \<and> map (\<lambda>e. name (s' ! e)) es = directories @ files
      \<and> map (\<lambda>e. kind (s' ! e)) es
           = replicate (length directories) KDirectory @ replicate (length files) KFile
      \<and> (distinct (directories @ files) \<longrightarrow> distinct (map (\<lambda>e. name (s' ! e)) es))
      \<and> p_entries (s' ! d) = Some es \<and> p_resolver (s' ! d) = None
      \<and> p_shadowRoot (s' ! d) = None
      \<and> (\<forall>k. getEntries (Suc (Suc k)) E d noOptions s' = Ok es s')"
proof -
  let ?g = "\<lambda>x. x\<lparr>p_entries := Some [], p_resolver := None, p_shadowRoot := None\<rparr>"
  let ?t0 = "s1[d := ?g (s1 ! d)]"
  let ?fd = "fileSystem (s ! d)"
  let ?par = "if kind (s ! d) = KDirectoryRoot then ?fd else d"
  let ?objd = "\<lambda>x. (blankEntry KDirectory ?fd ?par x)\<lparr>p_resolver := Some r\<rparr>"
  let ?objf = "\<lambda>x. (blankEntry KFile ?fd ?par x)
                      \<lparr>p_content := None, p_contentResolver := Some (r_getContent r)\<rparr>"
  let ?body = "\<lambda>mk x. bnd (mk x) (\<lambda>v. bnd (isReadOnly d) (\<lambda>ro.
                  bnd (if ro then makeReadOnly (Suc (Suc m)) v else ret ()) (\<lambda>_.
                  pushOwnEntry d v)))"
  note f = path_frame_fields [OF pth]
  have p0: "path (Suc (Suc m)) E d (s[d := ?g (s ! d)]) = Ok p ?t0"
    using path_update_commute [where g = ?g and n = "Suc (Suc m)" and E = E and x = d
        and s = s and d = d] pth by simp
  have t0: "d < length ?t0" "kind (?t0 ! d) = kind (s ! d)" "fileSystem (?t0 ! d) = ?fd"
    "p_entries (?t0 ! d) = Some []" "length ?t0 = length s"
    "p_resolver (?t0 ! d) = None" "p_shadowRoot (?t0 ! d) = None"
    using d f by simp_all
  have ksym: "kind (s ! d) \<noteq> KDirectorySymlink" "kind (s ! d) \<noteq> KFileSystem"
    using kd by auto
  have mkd: "newVirtualDirectory d x (Some r) t = Ok (length t) (t @ [?objd x])"
    if "d < length t" "kind (t ! d) = kind (s ! d)" "fileSystem (t ! d) = ?fd" for x t
    using that by (simp add: newVirtualDirectory_def newEntry_def Let_def)
  have objd: "kind (?objd x) \<noteq> KFileSystem \<and> p_entries (?objd x) = None
              \<and> \<not> p_readOnly (?objd x)" for x
    by (simp add: blankEntry_def)
  have mkf: "newVirtualFile d x (ContentResolver (r_getContent r)) t
               = Ok (length t) (t @ [?objf x])"
    if "d < length t" "kind (t ! d) = kind (s ! d)" "fileSystem (t ! d) = ?fd" for x t
    using that by (simp add: newVirtualFile_def newEntry_def Let_def)
  have objf: "kind (?objf x) \<noteq> KFileSystem \<and> p_entries (?objf x) = None
              \<and> \<not> p_readOnly (?objf x)" for x
    by (simp add: blankEntry_def)
  from populate_loop [where mk = "\<lambda>x. newVirtualDirectory d x (Some r)" and obj = ?objd
      and d = d and kd = "kind (s ! d)" and fd = ?fd and t = ?t0 and acc = "[]"
      and xs = directories and m = m, OF mkd objd ksym(1) t0(1,2,3,4)]
  obtain t1 where
    run1: "forEach directories (?body (\<lambda>x. newVirtualDirectory d x (Some r))) ?t0 = Ok () t1"
    and len1: "length t1 = length ?t0 + length directories"
    and old1: "\<forall>i<length ?t0. i \<noteq> d \<longrightarrow> t1 ! i = ?t0 ! i"
    and dir1: "t1 ! d = (?t0 ! d)\<lparr>p_entries :=
                 Some ([] @ [length ?t0 ..< length ?t0 + length directories])\<rparr>"
    and new1: "\<forall>j<length directories. t1 ! (length ?t0 + j)
                 = (?objd (directories ! j))\<lparr>p_readOnly := p_readOnly (?t0 ! d)\<rparr>"
    by blast
  have t1: "d < length t1" "kind (t1 ! d) = kind (s ! d)" "fileSystem (t1 ! d) = ?fd"
    "p_entries (t1 ! d) = Some [length s ..< length s + length directories]"
    "length t1 = length s + length directories"
    "p_resolver (t1 ! d) = None" "p_shadowRoot (t1 ! d) = None"
    using d len1 dir1 t0 by simp_all
  from populate_loop [where mk = "\<lambda>x. newVirtualFile d x (ContentResolver (r_getContent r))"
      and obj = ?objf and d = d and kd = "kind (s ! d)" and fd = ?fd and t = t1
      and acc = "[length s ..< length s + length directories]"
      and xs = files and m = m, OF mkf objf ksym(1) t1(1,2,3,4)]
  obtain t2 where
    run2: "forEach files (?body (\<lambda>x. newVirtualFile d x (ContentResolver (r_getContent r)))) t1
             = Ok () t2"
    and len2: "length t2 = length t1 + length files"
    and old2: "\<forall>i<length t1. i \<noteq> d \<longrightarrow> t2 ! i = t1 ! i"
    and dir2: "t2 ! d = (t1 ! d)\<lparr>p_entries :=
                 Some ([length s ..< length s + length directories]
                       @ [length t1 ..< length t1 + length files])\<rparr>"
    and new2: "\<forall>j<length files. t2 ! (length t1 + j)
                 = (?objf (files ! j))\<lparr>p_readOnly := p_readOnly (t1 ! d)\<rparr>"
    by blast
  let ?es = "[length s ..< length s + length directories + length files]"
  have es: "[length s ..< length s + length directories]
              @ [length t1 ..< length t1 + length files] = ?es"
    using t1(5) upt_add_eq_append [of "length s" "length s + length directories" "length files"]
    by (simp add: add.assoc del: upt_Suc)
  have t2: "p_entries (t2 ! d) = Some ?es" "p_resolver (t2 ! d) = None"
    "p_shadowRoot (t2 ! d) = None" "kind (t2 ! d) = kind (s ! d)"
    using dir2 t1 es by simp_all
  have own: "getOwnEntries (Suc (Suc (Suc m))) E d s = Ok ?es t2"
    using d ksym un rs p0 rep run1 run2 t2(1)
    by (simp add: getOwnEntries_Suc getOwnEntries_step_def monad_apply)
  have first: "getEntries (Suc (Suc (Suc (Suc m)))) E d noOptions s = Ok ?es t2"
    using own by (simp add: getEntries_Suc getEntries_step_def monad_apply noOptions_def isMatch_def)
  have nd: "name (t2 ! (length s + j)) = directories ! j
            \<and> kind (t2 ! (length s + j)) = KDirectory" if "j < length directories" for j
  proof -
    have "t2 ! (length s + j) = t1 ! (length s + j)"
      using old2 that t1(5) d by simp
    with new1 that t0(5) show ?thesis by (simp add: blankEntry_def)
  qed
  have nf: "name (t2 ! (length s + length directories + j)) = files ! j
            \<and> kind (t2 ! (length s + length directories + j)) = KFile" if "j < length files" for j
    using new2 that t1(5) by (simp add: blankEntry_def)
  have nf': "name (t2 ! (length s + i)) = files ! (i - length directories)
             \<and> kind (t2 ! (length s + i)) = KFile"
    if "i < length directories + length files" "\<not> i < length directories" for i
    using nf [of "i - length directories"] that by simp
  have names: "map (\<lambda>e. name (t2 ! e)) ?es = directories @ files"
    by (rule nth_equalityI) (auto simp add: nth_append nd nf')
  have kinds: "map (\<lambda>e. kind (t2 ! e)) ?es
           = replicate (length directories) KDirectory @ replicate (length files) KFile"
    by (rule nth_equalityI) (auto simp add: nth_append nd nf')
  have again: "\<forall>k. getEntries (Suc (Suc k)) E d noOptions t2 = Ok ?es t2"
    using listing_of_populated_directory [of t2 d ?es] t2 kd by simp
  from first names kinds t2 again show ?thesis by auto
qed

theorem resolver_population_witness:
  "2 < length resolverStore \<and> kind (resolverStore ! 2) = KDirectory
   \<and> p_entries (resolverStore ! 2) = None
   \<and> p_resolver (resolverStore ! 2) = Some listingResolver
   \<and> returned (path (Suc (Suc 18)) simpleEnv 2 resolverStore) = Some ''/d''
   \<and> r_getEntries listingResolver ''/d'' = ([''a'', ''b''], [''c''])
   \<and> returned (entryNames (Suc (Suc (Suc (Suc 18)))) simpleEnv 2 resolverStore)
        = Some ([''c'', ''a'', ''b''], [3, 4, 5])
   \<and> returned (bnd (getEntries (Suc (Suc (Suc (Suc 18)))) simpleEnv 2 noOptions)
                    (\<lambda>_. getEntries (Suc (Suc 18)) simpleEnv 2 noOptions) resolverStore)
        = Some [3, 4, 5]"
proof -
  have h: "2 < length resolverStore" "kind (resolverStore ! 2) = KDirectory"
    "p_entries (resolverStore ! 2) = None"
    "p_resolver (resolverStore ! 2) = Some listingResolver"
    "length resolverStore = 3"
    by (simp_all add: run resolverStore_def del: Suc_numeral)
  have "\<exists>s1. path (Suc (Suc 18)) simpleEnv 2 resolverStore = Ok ''/d'' s1"
    by (simp add: run resolverStore_def del: Suc_numeral)
  then obtain s1 where p: "path (Suc (Suc 18)) simpleEnv 2 resolverStore = Ok ''/d'' s1" ..
  have r: "r_getEntries listingResolver ''/d'' = ([''a'', ''b''], [''c''])"
    by (simp add: listingResolver_def)
  from h(2) have k: "kind (resolverStore ! 2) = KDirectory \<or> kind (resolverStore ! 2) = KDirectoryRoot"
    by simp
  from resolver_population [OF h(1) k h(3,4) p r]
  obtain es s' where
    g: "getEntries (Suc (Suc (Suc (Suc 18)))) simpleEnv 2 noOptions resolverStore = Ok es s'"
    and e: "es = [length resolverStore ..< length resolverStore + length [''c''] + length [''a'', ''b'']]"
    and n: "map (\<lambda>e. name (s' ! e)) es = [''c''] @ [''a'', ''b'']"
    and a: "\<forall>k. getEntries (Suc (Suc k)) simpleEnv 2 noOptions s' = Ok es s'"
    by blast
  from e h(5) have es: "es = [3, 4, 5]" by (simp add: upt_rec)
  from a have a18: "getEntries (Suc (Suc 18)) simpleEnv 2 noOptions s' = Ok es s'" by blast
  from g n a18 es h p r show ?thesis
    by (simp add: returned_def entryNames_def monad_apply)
qed



end
